(* ===== verification/Prelude.thy ===== *)
theory Prelude
  imports
    Main
    "HOL-Library.Finite_Map"
    "HOL-Library.Char_ord"
    "HOL-Library.List_Lexorder"
    "HOL-Library.Word"
begin

text \<open>
  The vocabulary every component of the model shares: Go errors, Go maps (with the difference
  between the nil map and the empty one), and the computations a Go function with effects is
  translated to. A computation takes the world, the outside state together with the log of the
  calls made to it, and ends by returning or by panicking. The last section is the calculus of
  call logs: which calls a computation may make, proved compositionally.
\<close>

named_theorems go_run "equations that run a computation step by step"
named_theorems emits_rules "compositional rules on the calls a computation makes"

section \<open>Data\<close>

text \<open>Go strings and byte slices are both sequences of bytes.\<close>

type_synonym bytes = string

text \<open>
  A Go \<open>error\<close> value. The only distinction the program draws between errors is whether the
  Kubernetes API reported that an object does not exist (\<open>client.IgnoreNotFound\<close>).
\<close>

datatype go_error = NotFound string | Error string

fun error_text :: "go_error \<Rightarrow> string" where
  "error_text (NotFound s) = s"
| "error_text (Error s) = s"

text \<open>\<open>nil\<close> is the map \<open>None\<close>: it can be read and ranged over, but writing to it panics.\<close>

type_synonym 'v gomap = "(string, 'v) fmap option"

definition mlookup :: "'v gomap \<Rightarrow> string \<Rightarrow> 'v option" where
  "mlookup m k = (case m of None \<Rightarrow> None | Some f \<Rightarrow> fmlookup f k)"

text \<open>Reading a missing key gives the zero value, for strings and byte slices the empty one.\<close>

definition mget :: "string gomap \<Rightarrow> string \<Rightarrow> string" where
  "mget m k = (case mlookup m k of None \<Rightarrow> '''' | Some v \<Rightarrow> v)"

definition mentries :: "'v gomap \<Rightarrow> (string, 'v) fmap" where
  "mentries m = (case m of None \<Rightarrow> fmempty | Some f \<Rightarrow> f)"

definition gomap_of :: "(string \<times> 'v) list \<Rightarrow> 'v gomap" where
  "gomap_of kvs = Some (fmap_of_list kvs)"

lemma mlookup_simps [simp]:
  "mlookup None k = None"
  "mlookup (Some f) k = fmlookup f k"
  by (simp_all add: mlookup_def)

lemma mentries_simps [simp]:
  "mentries None = fmempty"
  "mentries (Some f) = f"
  by (simp_all add: mentries_def)

lemma fmlookup_mentries [simp]: "fmlookup (mentries m) k = mlookup m k"
  by (cases m) simp_all

lemma mlookup_gomap_of [simp]: "mlookup (gomap_of kvs) k = map_of kvs k"
  by (simp add: gomap_of_def fmlookup_of_list)

text \<open>
  Ranging over a second map and writing each of its entries into the first one gives their sum:
  the order of the iteration, which Go leaves open, does not matter.
\<close>

lemma fold_fmupd_eq_fmadd:
  "distinct (map fst kvs) \<Longrightarrow>
     fold (\<lambda>(k, v) m. fmupd k v m) kvs m = m ++\<^sub>f fmap_of_list kvs"
proof (induction kvs arbitrary: m)
  case Nil
  then show ?case by simp
next
  case (Cons kv kvs)
  obtain k v where kv: "kv = (k, v)" by (cases kv)
  from Cons have "fold (\<lambda>(k, v) m. fmupd k v m) kvs (fmupd k v m)
      = fmupd k v m ++\<^sub>f fmap_of_list kvs" by simp
  also have "\<dots> = m ++\<^sub>f fmap_of_list (kv # kvs)"
  proof (rule fmap_ext)
    fix x
    from Cons.prems kv have "map_of kvs k = None" by (simp add: map_of_eq_None_iff)
    then have "fmlookup (fmap_of_list kvs) k = None" by (simp add: fmlookup_of_list)
    then have k: "k |\<notin>| fmdom (fmap_of_list kvs)" by (rule fmdom_notI)
    then show "fmlookup (fmupd k v m ++\<^sub>f fmap_of_list kvs) x
        = fmlookup (m ++\<^sub>f fmap_of_list (kv # kvs)) x"
      by (cases "x = k") (simp_all add: kv)
  qed
  finally show ?case by (simp add: kv)
qed

section \<open>Computations\<close>

text \<open>The state outside the program and the log of the calls the program made to it.\<close>

record ('c, 'e) world =
  outside :: 'c
  calls :: "'e list"

datatype 'a exec = Returns 'a | Panics string

type_synonym ('c, 'e, 'a) go = "('c, 'e) world \<Rightarrow> 'a exec \<times> ('c, 'e) world"

definition ret :: "'a \<Rightarrow> ('c, 'e, 'a) go" where
  "ret x w = (Returns x, w)"

definition panic :: "string \<Rightarrow> ('c, 'e, 'a) go" where
  "panic msg w = (Panics msg, w)"

definition bind :: "('c, 'e, 'a) go \<Rightarrow> ('a \<Rightarrow> ('c, 'e, 'b) go) \<Rightarrow> ('c, 'e, 'b) go" where
  "bind m f w =
     (case m w of
        (Returns x, w') \<Rightarrow> f x w'
      | (Panics msg, w') \<Rightarrow> (Panics msg, w'))"

text \<open>A pure computation that may panic.\<close>

definition lift_exec :: "'a exec \<Rightarrow> ('c, 'e, 'a) go" where
  "lift_exec r w = (r, w)"

text \<open>
  The idiom \<open>x, err := m(); if err != nil \<lbrace> onerr \<rbrace>; k\<close>: the error branch leaves the
  function, the other one goes on with the value.
\<close>

definition attempt ::
  "('c, 'e, go_error + 'a) go \<Rightarrow> (go_error \<Rightarrow> ('c, 'e, 'b) go) \<Rightarrow> ('a \<Rightarrow> ('c, 'e, 'b) go)
    \<Rightarrow> ('c, 'e, 'b) go" where
  "attempt m onerr k = bind m (\<lambda>r. case r of Inl err \<Rightarrow> onerr err | Inr x \<Rightarrow> k x)"

text \<open>A call to the outside: it is logged, and the outside answers and changes.\<close>

definition invoke :: "'e \<Rightarrow> ('c \<Rightarrow> 'a \<times> 'c) \<Rightarrow> ('c, 'e, 'a) go" where
  "invoke e f w =
     (case f (outside w) of
        (r, c) \<Rightarrow> (Returns r, w\<lparr>outside := c, calls := calls w @ [e]\<rparr>))"

text \<open>Reading from the outside without a call worth logging (the clock, a random choice).\<close>

definition consult :: "('c \<Rightarrow> 'a \<times> 'c) \<Rightarrow> ('c, 'e, 'a) go" where
  "consult f w = (case f (outside w) of (r, c) \<Rightarrow> (Returns r, w\<lparr>outside := c\<rparr>))"

definition start_world :: "'c \<Rightarrow> ('c, 'e) world" where
  "start_world c = \<lparr>outside = c, calls = []\<rparr>"

lemma start_world_simps [simp]:
  "outside (start_world c) = c"
  "calls (start_world c) = []"
  by (simp_all add: start_world_def)

lemmas monad_defs = ret_def panic_def bind_def lift_exec_def attempt_def invoke_def consult_def

lemma ret_run [go_run]: "ret x w = (Returns x, w)"
  by (simp add: ret_def)

lemma panic_run [go_run]: "panic msg w = (Panics msg, w)"
  by (simp add: panic_def)

lemma lift_exec_run [go_run]: "lift_exec r w = (r, w)"
  by (simp add: lift_exec_def)

lemma bind_Returns [go_run]: "m w = (Returns x, w') \<Longrightarrow> bind m f w = f x w'"
  by (simp add: bind_def)

lemma bind_Panics [go_run]: "m w = (Panics msg, w') \<Longrightarrow> bind m f w = (Panics msg, w')"
  by (simp add: bind_def)

lemma attempt_Inr [go_run]: "m w = (Returns (Inr x), w') \<Longrightarrow> attempt m h k w = k x w'"
  by (simp add: attempt_def bind_def)

lemma attempt_Inl [go_run]: "m w = (Returns (Inl err), w') \<Longrightarrow> attempt m h k w = h err w'"
  by (simp add: attempt_def bind_def)

lemma attempt_Panics [go_run]: "m w = (Panics msg, w') \<Longrightarrow> attempt m h k w = (Panics msg, w')"
  by (simp add: attempt_def bind_def)

lemma bind_ret [simp]: "bind (ret x) f = f x"
  by (rule ext) (simp add: bind_def ret_run)

lemma bind_panic [simp]: "bind (panic msg) f = panic msg"
  by (rule ext) (simp add: bind_def panic_run)

lemma attempt_ret [simp]:
  "attempt (ret (Inr x)) h k = k x"
  "attempt (ret (Inl err)) h k = h err"
  by (simp_all add: attempt_def)

lemma bind_assoc: "bind (bind m f) g = bind m (\<lambda>x. bind (f x) g)"
  by (rule ext) (auto simp: bind_def split: prod.splits exec.splits)

text \<open>Case analysis of a run: how a compound computation came to its result.\<close>

lemma bind_cases:
  assumes "bind m f w = (r, w')"
  obtains (Return) x w1 where "m w = (Returns x, w1)" "f x w1 = (r, w')"
        | (Panic) msg where "m w = (Panics msg, w')" "r = Panics msg"
  using assms by (auto simp: bind_def split: prod.splits exec.splits)

lemma attempt_cases:
  assumes "attempt m h k w = (r, w')"
  obtains (Success) x w1 where "m w = (Returns (Inr x), w1)" "k x w1 = (r, w')"
        | (Failure) err w1 where "m w = (Returns (Inl err), w1)" "h err w1 = (r, w')"
        | (Panic) msg where "m w = (Panics msg, w')" "r = Panics msg"
  using assms by (auto simp: attempt_def bind_def split: prod.splits exec.splits sum.splits)

section \<open>The calculus of call logs\<close>

text \<open>
  \<open>emits A m\<close>: whatever the outside answers, the run only appends calls satisfying \<open>A\<close>
  to the log, and keeps what was logged before.
\<close>

definition emits :: "('e \<Rightarrow> bool) \<Rightarrow> ('c, 'e, 'a) go \<Rightarrow> bool" where
  "emits A m \<longleftrightarrow>
     (\<forall>w r w'. m w = (r, w') \<longrightarrow> (\<exists>es. calls w' = calls w @ es \<and> list_all A es))"

lemma emitsI:
  "(\<And>w r w'. m w = (r, w') \<Longrightarrow> \<exists>es. calls w' = calls w @ es \<and> list_all A es) \<Longrightarrow> emits A m"
  by (simp add: emits_def)

lemma emitsE:
  assumes "emits A m" and "m w = (r, w')"
  obtains es where "calls w' = calls w @ es" "list_all A es"
  using assms unfolding emits_def by blast

lemma emits_mono: "emits A m \<Longrightarrow> (\<And>e. A e \<Longrightarrow> B e) \<Longrightarrow> emits B m"
  unfolding emits_def by (metis (no_types, lifting) list.pred_mono_strong)

lemma emits_ret [emits_rules]: "emits A (ret x)"
  by (simp add: emits_def ret_run)

lemma emits_panic [emits_rules]: "emits A (panic msg)"
  by (simp add: emits_def panic_run)

lemma emits_lift_exec [emits_rules]: "emits A (lift_exec r)"
  by (simp add: emits_def lift_exec_run)

lemma emits_consult [emits_rules]: "emits A (consult f)"
  by (auto simp: emits_def consult_def split: prod.splits)

lemma emits_invoke [emits_rules]: "A e \<Longrightarrow> emits A (invoke e f)"
  by (auto simp: emits_def invoke_def split: prod.splits)

lemma emits_bind [emits_rules]:
  assumes "emits A m" and "\<And>x. emits A (f x)"
  shows "emits A (bind m f)"
proof (rule emitsI)
  fix w r w'
  assume "bind m f w = (r, w')"
  then show "\<exists>es. calls w' = calls w @ es \<and> list_all A es"
  proof (cases rule: bind_cases)
    case (Return x w1)
    from emitsE [OF assms(1) Return(1)] emitsE [OF assms(2) Return(2)] show ?thesis
      by (metis append.assoc list_all_append)
  next
    case (Panic msg)
    from emitsE [OF assms(1) Panic(1)] show ?thesis by blast
  qed
qed

lemma emits_attempt [emits_rules]:
  assumes "emits A m" and "\<And>err. emits A (h err)" and "\<And>x. emits A (k x)"
  shows "emits A (attempt m h k)"
  unfolding attempt_def by (rule emits_bind) (auto simp: assms split: sum.split)

lemma emits_if [emits_rules]:
  "(b \<Longrightarrow> emits A m) \<Longrightarrow> (\<not> b \<Longrightarrow> emits A n) \<Longrightarrow> emits A (if b then m else n)"
  by simp

lemma emits_case_option [emits_rules]:
  "emits A n \<Longrightarrow> (\<And>x. emits A (f x)) \<Longrightarrow> emits A (case v of None \<Rightarrow> n | Some x \<Rightarrow> f x)"
  by (simp split: option.split)

lemma emits_case_sum [emits_rules]:
  "(\<And>x. emits A (f x)) \<Longrightarrow> (\<And>x. emits A (g x)) \<Longrightarrow>
     emits A (case v of Inl x \<Rightarrow> f x | Inr x \<Rightarrow> g x)"
  by (simp split: sum.split)

lemma emits_case_prod [emits_rules]:
  "(\<And>a b. emits A (f a b)) \<Longrightarrow> emits A (case v of (a, b) \<Rightarrow> f a b)"
  by (simp split: prod.split)

lemma emits_case_list [emits_rules]:
  "emits A n \<Longrightarrow> (\<And>x xs. emits A (f x xs)) \<Longrightarrow> emits A (case v of [] \<Rightarrow> n | x # xs \<Rightarrow> f x xs)"
  by (simp split: list.split)

lemma emits_Let [emits_rules]: "(\<And>x. emits A (f x)) \<Longrightarrow> emits A (let x = v in f x)"
  by simp

text \<open>
  \<open>keeps I m\<close>: every run keeps a property of the outside, however it ends.
\<close>

definition keeps :: "('c \<Rightarrow> bool) \<Rightarrow> ('c, 'e, 'a) go \<Rightarrow> bool" where
  "keeps I m \<longleftrightarrow> (\<forall>w r w'. m w = (r, w') \<longrightarrow> I (outside w) \<longrightarrow> I (outside w'))"

named_theorems keeps_rules "compositional rules on properties of the outside a computation keeps"

lemma keepsI:
  "(\<And>w r w'. m w = (r, w') \<Longrightarrow> I (outside w) \<Longrightarrow> I (outside w')) \<Longrightarrow> keeps I m"
  by (simp add: keeps_def)

lemma keepsD: "keeps I m \<Longrightarrow> m w = (r, w') \<Longrightarrow> I (outside w) \<Longrightarrow> I (outside w')"
  unfolding keeps_def by blast

lemma keeps_ret [keeps_rules]: "keeps I (ret x)"
  by (simp add: keeps_def ret_run)

lemma keeps_panic [keeps_rules]: "keeps I (panic msg)"
  by (simp add: keeps_def panic_run)

lemma keeps_lift_exec [keeps_rules]: "keeps I (lift_exec r)"
  by (simp add: keeps_def lift_exec_run)

lemma keeps_invoke [keeps_rules]: "(\<And>c r c'. f c = (r, c') \<Longrightarrow> I c \<Longrightarrow> I c') \<Longrightarrow> keeps I (invoke e f)"
  by (fastforce simp: keeps_def invoke_def split: prod.splits)

lemma keeps_consult [keeps_rules]: "(\<And>c r c'. f c = (r, c') \<Longrightarrow> I c \<Longrightarrow> I c') \<Longrightarrow> keeps I (consult f)"
  by (fastforce simp: keeps_def consult_def split: prod.splits)

lemma keeps_bind [keeps_rules]:
  assumes "keeps I m" and "\<And>x. keeps I (f x)"
  shows "keeps I (bind m f)"
proof (rule keepsI)
  fix w r w'
  assume "bind m f w = (r, w')" and I: "I (outside w)"
  then show "I (outside w')"
    by (cases rule: bind_cases) (use assms I in \<open>blast dest: keepsD\<close>)+
qed

lemma keeps_attempt [keeps_rules]:
  assumes "keeps I m" and "\<And>err. keeps I (h err)" and "\<And>x. keeps I (k x)"
  shows "keeps I (attempt m h k)"
  unfolding attempt_def by (rule keeps_bind) (auto simp: assms split: sum.split)

lemma keeps_if [keeps_rules]:
  "(b \<Longrightarrow> keeps I m) \<Longrightarrow> (\<not> b \<Longrightarrow> keeps I n) \<Longrightarrow> keeps I (if b then m else n)"
  by simp

lemma keeps_case_option [keeps_rules]:
  "keeps I n \<Longrightarrow> (\<And>x. keeps I (f x)) \<Longrightarrow> keeps I (case v of None \<Rightarrow> n | Some x \<Rightarrow> f x)"
  by (simp split: option.split)

lemma keeps_case_sum [keeps_rules]:
  "(\<And>x. keeps I (f x)) \<Longrightarrow> (\<And>x. keeps I (g x)) \<Longrightarrow>
     keeps I (case v of Inl x \<Rightarrow> f x | Inr x \<Rightarrow> g x)"
  by (simp split: sum.split)

lemma keeps_case_prod [keeps_rules]:
  "(\<And>a b. keeps I (f a b)) \<Longrightarrow> keeps I (case v of (a, b) \<Rightarrow> f a b)"
  by (simp split: prod.split)

lemma keeps_case_list [keeps_rules]:
  "keeps I n \<Longrightarrow> (\<And>x xs. keeps I (f x xs)) \<Longrightarrow> keeps I (case v of [] \<Rightarrow> n | x # xs \<Rightarrow> f x xs)"
  by (simp split: list.split)

lemma keeps_Let [keeps_rules]: "(\<And>x. keeps I (f x)) \<Longrightarrow> keeps I (let x = v in f x)"
  by simp

end
