(* ===== verification/Defs.thy ===== *)
theory Defs
  imports Prelude
begin

text \<open>
  The messages the program sends (\<open>internal/defs.go\<close>, \<open>internal/service/defs.go\<close>) and the
  names of labels and annotations shared by the components. A nil slice differs from an empty one
  in what JSON shows of it, so slices that reach an encoder are \<open>option\<close>s. A \<open>float64\<close> is
  carried as its 64 bits: the program never computes with it.
\<close>

section \<open>Messages\<close>

type_synonym 'a slice = "'a list option"

type_synonym float64 = "64 word"

record Fact =
  FactEnvironmentId :: string
  FactProjectName :: string
  FactEnvironmentName :: string
  FactName :: string
  FactValue :: string
  FactSource :: string
  FactDescription :: string
  FactType :: string
  FactCategory :: string
  FactService :: string

record Facts =
  FactsEnvironmentId :: int
  FactsProjectName :: string
  FactsEnvironmentName :: string
  FactsFacts :: "Fact slice"
  FactsType :: string

record Problem =
  ProblemEnvironmentId :: int
  ProblemIdentifier :: string
  ProblemVersion :: string
  ProblemFixedVersion :: string
  ProblemSource :: string
  ProblemService :: string
  ProblemData :: string
  ProblemSeverity :: string
  ProblemSeverityScore :: float64
  ProblemAssociatedPackage :: string
  ProblemDescription :: string
  ProblemLinks :: string

record Problems =
  ProblemsEnvironmentId :: int
  ProblemsProjectName :: string
  ProblemsEnvironmentName :: string
  ProblemsProblems :: "Problem slice"
  ProblemsType :: string

record LagoonInsightsMessage =
  MsgPayload :: "string gomap"
  MsgBinaryPayload :: "bytes gomap"
  MsgAnnotations :: "string gomap"
  MsgLabels :: "string gomap"
  MsgNamespace :: string
  MsgEnvironment :: string
  MsgService :: string
  MsgProject :: string
  MsgType :: string

record DirectDeleteMessage =
  DeleteType :: string
  DeleteEnvironmentId :: int
  DeleteSource :: string
  DeleteService :: string

text \<open>What the program hands to a JSON encoder.\<close>

datatype document =
    DocInsights LagoonInsightsMessage
  | DocFacts Facts
  | DocProblems Problems
  | DocDelete DirectDeleteMessage

section \<open>Names\<close>

definition InsightsTypeSBOM :: string where
  "InsightsTypeSBOM = ''sbom''"

definition InsightsTypeInspect :: string where
  "InsightsTypeInspect = ''inspect''"

definition InsightsTypeUnclassified :: string where
  "InsightsTypeUnclassified = ''unclassified''"

definition InsightsLabel :: string where
  "InsightsLabel = ''lagoon.sh/insightsType''"

definition InsightsUpdatedAnnotationLabel :: string where
  "InsightsUpdatedAnnotationLabel = ''lagoon.sh/insightsProcessed''"

definition InsightsWriteDeferred :: string where
  "InsightsWriteDeferred = ''lagoon.sh/insightsWriteDeferred''"

definition deleteFactsType :: string where
  "deleteFactsType = ''direct.delete.facts''"

definition deleteProblemsType :: string where
  "deleteProblemsType = ''direct.delete.problems''"

lemmas insights_names =
  InsightsTypeSBOM_def InsightsTypeInspect_def InsightsTypeUnclassified_def
  InsightsLabel_def InsightsUpdatedAnnotationLabel_def InsightsWriteDeferred_def

lemma insights_names_distinct [simp]:
  "InsightsLabel \<noteq> InsightsWriteDeferred" "InsightsWriteDeferred \<noteq> InsightsLabel"
  "InsightsTypeSBOM \<noteq> InsightsTypeInspect" "InsightsTypeInspect \<noteq> InsightsTypeSBOM"
  "InsightsTypeUnclassified \<noteq> InsightsTypeSBOM" "InsightsTypeUnclassified \<noteq> InsightsTypeInspect"
  by (simp_all add: insights_names)

end
