(* ===== verification/Environment.thy ===== *)
theory Environment
  imports Defs
begin

text \<open>
  Everything outside the program: the Kubernetes API server, the message broker, Dependency Track,
  the clock. None of it is code of the repository, so all of it is a parameter, the record
  \<open>environment\<close> of answers over an unknown state \<open>'c\<close>. The objects exchanged carry the fields
  the program reads or writes. Each operation of the program goes through a wrapper that logs the
  call as an \<open>effect\<close>; the properties speak of these logs, or of what an environment that
  stores objects as documented (\<open>cm_store\<close>) holds afterwards.
\<close>

section \<open>Kubernetes objects\<close>

record ObjectMeta =
  Name :: string
  Namespace :: string
  Labels :: "string gomap"
  Annotations :: "string gomap"

record ConfigMap = ObjectMeta +
  Data :: "string gomap"
  BinaryData :: "bytes gomap"

record Secret = ObjectMeta +
  SecretData :: "bytes gomap"

record NamespaceObject = ObjectMeta +
  NamespacePhase :: string

datatype EnvVarSource = SecretKeyRef string string | OtherSource string

record EnvVar =
  EnvVarName :: string
  EnvVarValue :: string
  EnvVarValueFrom :: "EnvVarSource option"

record VolumeMount =
  VolumeMountName :: string
  MountPath :: string
  ReadOnly :: bool

record Container =
  ContainerName :: string
  Image :: string
  ImagePullPolicy :: string
  Env :: "EnvVar list"
  VolumeMounts :: "VolumeMount list"

record Volume =
  VolumeName :: string
  VolumeSecretName :: string
  VolumeItems :: "(string \<times> string) list"

record Pod = ObjectMeta +
  ServiceAccountName :: string
  Containers :: "Container list"
  RestartPolicy :: string
  Volumes :: "Volume list"
  PodPhase :: string

record Deployment = ObjectMeta +
  TemplateContainers :: "Container list"

text \<open>Objects are addressed by namespace and name; an API server lists them in this order.\<close>

datatype NamespacedName = NamespacedName (KeyNamespace: string) (KeyName: string)

instantiation NamespacedName :: linorder
begin

definition less_eq_NamespacedName :: "NamespacedName \<Rightarrow> NamespacedName \<Rightarrow> bool" where
  "less_eq_NamespacedName a b \<longleftrightarrow>
     KeyNamespace a < KeyNamespace b \<or>
     KeyNamespace a = KeyNamespace b \<and> KeyName a \<le> KeyName b"

definition less_NamespacedName :: "NamespacedName \<Rightarrow> NamespacedName \<Rightarrow> bool" where
  "less_NamespacedName a b \<longleftrightarrow>
     KeyNamespace a < KeyNamespace b \<or>
     KeyNamespace a = KeyNamespace b \<and> KeyName a < KeyName b"

instance
  by standard
    (auto simp: less_eq_NamespacedName_def less_NamespacedName_def
      intro: NamespacedName.expand)

end

definition key :: "'a ObjectMeta_scheme \<Rightarrow> NamespacedName" where
  "key obj = NamespacedName (Namespace obj) (Name obj)"

section \<open>Dependency Track\<close>

text \<open>A client is its endpoint and API key.\<close>

record dt_client =
  ApiEndpoint :: string
  ApiKey :: string

datatype collection_logic = CollectionLogicNone | CollectionLogicAggregateDirectChildren

record dt_project =
  ProjectUUID :: string
  ProjectName :: string
  ProjectActive :: bool
  ProjectParent :: "string option"
  LastBOMImport :: int
  CollectionLogic :: "collection_logic option"

record dt_bom_request =
  BomProjectName :: string
  BomParentUUID :: "string option"
  BomAutoCreate :: bool
  BomProjectVersion :: string
  BomBOM :: string
  BomProjectTags :: "string list"

section \<open>Calls and answers\<close>

datatype effect =
    KGetPod NamespacedName
  | KGetConfigMap NamespacedName
  | KGetNamespace string
  | KGetSecret NamespacedName
  | KListDeployments string
  | KListPods string "(string, string) fmap"
  | KListConfigMaps string nat
  | KListSecrets string string
  | KCreatePod Pod
  | KCreateSecret Secret
  | KUpdatePod Pod
  | KUpdateConfigMap ConfigMap
  | KDeletePod NamespacedName
  | KDeleteSecret NamespacedName
  | KDeleteConfigMap NamespacedName
  | MqNew
  | MqSyncProducer string
  | MqProduce bytes
  | MqClose
  | DtGetProjectsForName dt_client string
  | DtCreateProject dt_client dt_project
  | DtGetProject dt_client string
  | DtUpload dt_client dt_bom_request
  | DtIsBeingProcessed dt_client string

text \<open>The calls that change objects of the cluster.\<close>

fun kube_write :: "effect \<Rightarrow> bool" where
  "kube_write (KCreatePod p) = True"
| "kube_write (KCreateSecret s) = True"
| "kube_write (KUpdatePod p) = True"
| "kube_write (KUpdateConfigMap cm) = True"
| "kube_write (KDeletePod k) = True"
| "kube_write (KDeleteSecret k) = True"
| "kube_write (KDeleteConfigMap k) = True"
| "kube_write _ = False"

fun mq_effect :: "effect \<Rightarrow> bool" where
  "mq_effect MqNew = True"
| "mq_effect (MqSyncProducer s) = True"
| "mq_effect (MqProduce b) = True"
| "mq_effect MqClose = True"
| "mq_effect _ = False"

fun dt_effect :: "effect \<Rightarrow> bool" where
  "dt_effect (DtGetProjectsForName c n) = True"
| "dt_effect (DtCreateProject c p) = True"
| "dt_effect (DtGetProject c u) = True"
| "dt_effect (DtUpload c r) = True"
| "dt_effect (DtIsBeingProcessed c t) = True"
| "dt_effect _ = False"

text \<open>The messages handed to the broker, in order.\<close>

fun produced :: "effect list \<Rightarrow> bytes list" where
  "produced [] = []"
| "produced (MqProduce b # es) = b # produced es"
| "produced (_ # es) = produced es"

type_synonym ('c, 'a) answer = "'c \<Rightarrow> (go_error + 'a) \<times> 'c"

record 'c environment =
  get_pod :: "NamespacedName \<Rightarrow> ('c, Pod) answer"
  get_configmap :: "NamespacedName \<Rightarrow> ('c, ConfigMap) answer"
  get_namespace :: "string \<Rightarrow> ('c, NamespaceObject) answer"
  get_secret :: "NamespacedName \<Rightarrow> ('c, Secret) answer"
  list_deployments :: "string \<Rightarrow> ('c, Deployment list) answer"
  list_pods :: "string \<Rightarrow> (string, string) fmap \<Rightarrow> ('c, Pod list) answer"
  list_configmaps :: "string \<Rightarrow> nat \<Rightarrow> ('c, ConfigMap list) answer"
  list_secrets :: "string \<Rightarrow> string \<Rightarrow> ('c, Secret list) answer"
  create_pod :: "Pod \<Rightarrow> ('c, unit) answer"
  create_secret :: "Secret \<Rightarrow> ('c, unit) answer"
  update_pod :: "Pod \<Rightarrow> ('c, unit) answer"
  update_configmap :: "ConfigMap \<Rightarrow> ('c, unit) answer"
  delete_pod :: "NamespacedName \<Rightarrow> ('c, unit) answer"
  delete_secret :: "NamespacedName \<Rightarrow> ('c, unit) answer"
  delete_configmap :: "NamespacedName \<Rightarrow> ('c, unit) answer"
  mq_new :: "('c, unit) answer"
  mq_sync_producer :: "string \<Rightarrow> ('c, unit) answer"
  mq_produce :: "bytes \<Rightarrow> ('c, unit) answer"
  mq_close :: "'c \<Rightarrow> unit \<times> 'c"
  dt_new_client :: "string \<Rightarrow> string \<Rightarrow> go_error option"
  dt_get_projects_for_name :: "dt_client \<Rightarrow> string \<Rightarrow> ('c, dt_project list) answer"
  dt_create_project :: "dt_client \<Rightarrow> dt_project \<Rightarrow> ('c, dt_project) answer"
  dt_get_project :: "dt_client \<Rightarrow> string \<Rightarrow> ('c, dt_project) answer"
  dt_upload :: "dt_client \<Rightarrow> dt_bom_request \<Rightarrow> ('c, string) answer"
  dt_is_being_processed :: "dt_client \<Rightarrow> string \<Rightarrow> ('c, bool) answer"
  now_nanos :: "'c \<Rightarrow> int \<times> 'c"
  ticks_before_timeout :: "'c \<Rightarrow> nat \<times> 'c"

type_synonym ('c, 'a) comp = "('c, effect, 'a) go"

text \<open>
  A function that returns only an \<open>error\<close> returns \<open>Inr ()\<close> for \<open>nil\<close>.
  \<open>client.IgnoreNotFound\<close> drops a not-found error and keeps every other.
\<close>

fun IgnoreNotFound :: "go_error \<Rightarrow> go_error + unit" where
  "IgnoreNotFound (NotFound msg) = Inr ()"
| "IgnoreNotFound err = Inl err"

section \<open>The operations as computations\<close>

definition GetPod :: "'c environment \<Rightarrow> NamespacedName \<Rightarrow> ('c, go_error + Pod) comp" where
  "GetPod E k = invoke (KGetPod k) (get_pod E k)"

definition GetConfigMap :: "'c environment \<Rightarrow> NamespacedName \<Rightarrow> ('c, go_error + ConfigMap) comp" where
  "GetConfigMap E k = invoke (KGetConfigMap k) (get_configmap E k)"

definition GetNamespace :: "'c environment \<Rightarrow> string \<Rightarrow> ('c, go_error + NamespaceObject) comp" where
  "GetNamespace E n = invoke (KGetNamespace n) (get_namespace E n)"

definition GetSecret :: "'c environment \<Rightarrow> NamespacedName \<Rightarrow> ('c, go_error + Secret) comp" where
  "GetSecret E k = invoke (KGetSecret k) (get_secret E k)"

definition ListDeployments :: "'c environment \<Rightarrow> string \<Rightarrow> ('c, go_error + Deployment list) comp" where
  "ListDeployments E ns = invoke (KListDeployments ns) (list_deployments E ns)"

definition ListPods ::
  "'c environment \<Rightarrow> string \<Rightarrow> (string, string) fmap \<Rightarrow> ('c, go_error + Pod list) comp" where
  "ListPods E ns ls = invoke (KListPods ns ls) (list_pods E ns ls)"

definition ListConfigMaps ::
  "'c environment \<Rightarrow> string \<Rightarrow> nat \<Rightarrow> ('c, go_error + ConfigMap list) comp" where
  "ListConfigMaps E l n = invoke (KListConfigMaps l n) (list_configmaps E l n)"

definition ListSecrets ::
  "'c environment \<Rightarrow> string \<Rightarrow> string \<Rightarrow> ('c, go_error + Secret list) comp" where
  "ListSecrets E l ns = invoke (KListSecrets l ns) (list_secrets E l ns)"

definition CreatePod :: "'c environment \<Rightarrow> Pod \<Rightarrow> ('c, go_error + unit) comp" where
  "CreatePod E p = invoke (KCreatePod p) (create_pod E p)"

definition CreateSecret :: "'c environment \<Rightarrow> Secret \<Rightarrow> ('c, go_error + unit) comp" where
  "CreateSecret E s = invoke (KCreateSecret s) (create_secret E s)"

definition UpdatePod :: "'c environment \<Rightarrow> Pod \<Rightarrow> ('c, go_error + unit) comp" where
  "UpdatePod E p = invoke (KUpdatePod p) (update_pod E p)"

definition UpdateConfigMap :: "'c environment \<Rightarrow> ConfigMap \<Rightarrow> ('c, go_error + unit) comp" where
  "UpdateConfigMap E cm = invoke (KUpdateConfigMap cm) (update_configmap E cm)"

definition DeletePod :: "'c environment \<Rightarrow> Pod \<Rightarrow> ('c, go_error + unit) comp" where
  "DeletePod E p = invoke (KDeletePod (key p)) (delete_pod E (key p))"

definition DeleteSecret :: "'c environment \<Rightarrow> Secret \<Rightarrow> ('c, go_error + unit) comp" where
  "DeleteSecret E s = invoke (KDeleteSecret (key s)) (delete_secret E (key s))"

definition DeleteConfigMap :: "'c environment \<Rightarrow> ConfigMap \<Rightarrow> ('c, go_error + unit) comp" where
  "DeleteConfigMap E cm = invoke (KDeleteConfigMap (key cm)) (delete_configmap E (key cm))"

definition DtClient :: "'c environment \<Rightarrow> string \<Rightarrow> string \<Rightarrow> ('c, go_error + dt_client) comp" where
  "DtClient E endpoint apikey =
     ret (case dt_new_client E endpoint apikey of
            None \<Rightarrow> Inr \<lparr>ApiEndpoint = endpoint, ApiKey = apikey\<rparr>
          | Some err \<Rightarrow> Inl err)"

definition GetProjectsForName ::
  "'c environment \<Rightarrow> dt_client \<Rightarrow> string \<Rightarrow> ('c, go_error + dt_project list) comp" where
  "GetProjectsForName E c n = invoke (DtGetProjectsForName c n) (dt_get_projects_for_name E c n)"

definition CreateProject ::
  "'c environment \<Rightarrow> dt_client \<Rightarrow> dt_project \<Rightarrow> ('c, go_error + dt_project) comp" where
  "CreateProject E c p = invoke (DtCreateProject c p) (dt_create_project E c p)"

definition GetProject ::
  "'c environment \<Rightarrow> dt_client \<Rightarrow> string \<Rightarrow> ('c, go_error + dt_project) comp" where
  "GetProject E c u = invoke (DtGetProject c u) (dt_get_project E c u)"

definition Upload ::
  "'c environment \<Rightarrow> dt_client \<Rightarrow> dt_bom_request \<Rightarrow> ('c, go_error + string) comp" where
  "Upload E c r = invoke (DtUpload c r) (dt_upload E c r)"

definition IsBeingProcessed ::
  "'c environment \<Rightarrow> dt_client \<Rightarrow> string \<Rightarrow> ('c, go_error + bool) comp" where
  "IsBeingProcessed E c t = invoke (DtIsBeingProcessed c t) (dt_is_being_processed E c t)"

definition TimeNow :: "'c environment \<Rightarrow> ('c, int) comp" where
  "TimeNow E = consult (now_nanos E)"

definition TicksBeforeTimeout :: "'c environment \<Rightarrow> ('c, nat) comp" where
  "TicksBeforeTimeout E = consult (ticks_before_timeout E)"

lemmas kube_ops =
  GetPod_def GetConfigMap_def GetNamespace_def GetSecret_def
  ListDeployments_def ListPods_def ListConfigMaps_def ListSecrets_def
  CreatePod_def CreateSecret_def UpdatePod_def UpdateConfigMap_def
  DeletePod_def DeleteSecret_def DeleteConfigMap_def

lemmas dt_ops =
  DtClient_def GetProjectsForName_def CreateProject_def GetProject_def Upload_def
  IsBeingProcessed_def

lemmas env_ops = kube_ops dt_ops TimeNow_def TicksBeforeTimeout_def

lemma kube_ops_emit [emits_rules]:
  "A (KGetPod k) \<Longrightarrow> emits A (GetPod E k)"
  "A (KGetConfigMap k) \<Longrightarrow> emits A (GetConfigMap E k)"
  "A (KGetNamespace n) \<Longrightarrow> emits A (GetNamespace E n)"
  "A (KGetSecret k) \<Longrightarrow> emits A (GetSecret E k)"
  "A (KListDeployments n) \<Longrightarrow> emits A (ListDeployments E n)"
  "A (KListPods n ls) \<Longrightarrow> emits A (ListPods E n ls)"
  "A (KListConfigMaps l m) \<Longrightarrow> emits A (ListConfigMaps E l m)"
  "A (KListSecrets l n) \<Longrightarrow> emits A (ListSecrets E l n)"
  "A (KCreatePod p) \<Longrightarrow> emits A (CreatePod E p)"
  "A (KCreateSecret s) \<Longrightarrow> emits A (CreateSecret E s)"
  "A (KUpdatePod p) \<Longrightarrow> emits A (UpdatePod E p)"
  "A (KUpdateConfigMap cm) \<Longrightarrow> emits A (UpdateConfigMap E cm)"
  "A (KDeletePod (key p)) \<Longrightarrow> emits A (DeletePod E p)"
  "A (KDeleteSecret (key s)) \<Longrightarrow> emits A (DeleteSecret E s)"
  "A (KDeleteConfigMap (key cm)) \<Longrightarrow> emits A (DeleteConfigMap E cm)"
  by (simp_all add: kube_ops emits_invoke)

lemma dt_ops_emit [emits_rules]:
  "emits A (DtClient E ep ak)"
  "A (DtGetProjectsForName c n) \<Longrightarrow> emits A (GetProjectsForName E c n)"
  "A (DtCreateProject c pr) \<Longrightarrow> emits A (CreateProject E c pr)"
  "A (DtGetProject c u) \<Longrightarrow> emits A (GetProject E c u)"
  "A (DtUpload c req) \<Longrightarrow> emits A (Upload E c req)"
  "A (DtIsBeingProcessed c t) \<Longrightarrow> emits A (IsBeingProcessed E c t)"
  "emits A (TimeNow E)"
  "emits A (TicksBeforeTimeout E)"
  by (simp_all add: env_ops emits_rules)

section \<open>A cluster that stores ConfigMaps\<close>

text \<open>
  What the lifecycle of a ConfigMap rests on, as the Kubernetes API documents it:
  \<open>view c\<close> is what is stored in the state \<open>c\<close>. A read returns what is stored, an update
  that succeeds replaces the object of that key, a deletion that succeeds removes it, a failing
  call changes nothing, a list returns stored objects that carry the label, and no other call the
  program makes changes a ConfigMap.
\<close>

type_synonym 'c view = "'c \<Rightarrow> NamespacedName \<Rightarrow> ConfigMap option"

definition unaffected :: "'c view \<Rightarrow> ('c \<Rightarrow> 'a \<times> 'c) \<Rightarrow> bool" where
  "unaffected view f \<longleftrightarrow> (\<forall>c. view (snd (f c)) = view c)"

definition cm_reads :: "'c environment \<Rightarrow> 'c view \<Rightarrow> bool" where
  "cm_reads E view \<longleftrightarrow>
     (\<forall>k. unaffected view (get_configmap E k)) \<and>
     (\<forall>c k cm. fst (get_configmap E k c) = Inr cm \<longrightarrow> view c k = Some cm) \<and>
     (\<forall>l n. unaffected view (list_configmaps E l n)) \<and>
     (\<forall>c l n cms. fst (list_configmaps E l n c) = Inr cms \<longrightarrow>
        length cms \<le> n \<and> distinct (map key cms) \<and>
        (\<forall>cm\<in>set cms. view c (key cm) = Some cm \<and> mlookup (Labels cm) l \<noteq> None)) \<and>
     (\<forall>c k cm. view c k = Some cm \<longrightarrow> key cm = k)"

definition cm_writes :: "'c environment \<Rightarrow> 'c view \<Rightarrow> bool" where
  "cm_writes E view \<longleftrightarrow>
     (\<forall>c cm c'. update_configmap E cm c = (Inr (), c') \<longrightarrow>
        view c (key cm) \<noteq> None \<and> view c' = (view c)(key cm \<mapsto> cm)) \<and>
     (\<forall>c cm err c'. update_configmap E cm c = (Inl err, c') \<longrightarrow> view c' = view c) \<and>
     (\<forall>c k c'. delete_configmap E k c = (Inr (), c') \<longrightarrow> view c' = (view c)(k := None)) \<and>
     (\<forall>c k err c'. delete_configmap E k c = (Inl err, c') \<longrightarrow> view c' = view c)"

definition cm_frame :: "'c environment \<Rightarrow> 'c view \<Rightarrow> bool" where
  "cm_frame E view \<longleftrightarrow>
     (\<forall>n. unaffected view (get_namespace E n)) \<and>
     (\<forall>k. unaffected view (get_secret E k)) \<and>
     unaffected view (mq_new E) \<and>
     (\<forall>n. unaffected view (mq_sync_producer E n)) \<and>
     (\<forall>b. unaffected view (mq_produce E b)) \<and>
     unaffected view (mq_close E) \<and>
     (\<forall>cl n. unaffected view (dt_get_projects_for_name E cl n)) \<and>
     (\<forall>cl p. unaffected view (dt_create_project E cl p)) \<and>
     (\<forall>cl u. unaffected view (dt_get_project E cl u)) \<and>
     (\<forall>cl r. unaffected view (dt_upload E cl r)) \<and>
     (\<forall>cl t. unaffected view (dt_is_being_processed E cl t)) \<and>
     unaffected view (now_nanos E) \<and>
     unaffected view (ticks_before_timeout E)"

definition cm_store :: "'c environment \<Rightarrow> 'c view \<Rightarrow> bool" where
  "cm_store E view \<longleftrightarrow> cm_reads E view \<and> cm_writes E view \<and> cm_frame E view"

text \<open>A computation that leaves all stored ConfigMaps as they are.\<close>

definition frames :: "'c view \<Rightarrow> ('c, 'a) comp \<Rightarrow> bool" where
  "frames view m \<longleftrightarrow> (\<forall>v. keeps (\<lambda>c. view c = v) m)"

lemma framesI: "(\<And>v. keeps (\<lambda>c. view c = v) m) \<Longrightarrow> frames view m"
  by (simp add: frames_def)

lemma framesD: "frames view m \<Longrightarrow> m w = (r, w') \<Longrightarrow> view (outside w') = view (outside w)"
  by (auto simp: frames_def dest: keepsD)

lemma keeps_unaffected_invoke: "unaffected view f \<Longrightarrow> keeps (\<lambda>c. view c = v) (invoke e f)"
  by (rule keeps_invoke) (metis snd_conv unaffected_def)

lemma keeps_unaffected_consult: "unaffected view f \<Longrightarrow> keeps (\<lambda>c. view c = v) (consult f)"
  by (rule keeps_consult) (metis snd_conv unaffected_def)

lemma store_frames [keeps_rules]:
  assumes "cm_store E view"
  shows "keeps (\<lambda>c. view c = v) (GetConfigMap E k)"
    and "keeps (\<lambda>c. view c = v) (ListConfigMaps E l n)"
    and "keeps (\<lambda>c. view c = v) (GetNamespace E ns)"
    and "keeps (\<lambda>c. view c = v) (GetSecret E k)"
    and "keeps (\<lambda>c. view c = v) (GetProjectsForName E cl pn)"
    and "keeps (\<lambda>c. view c = v) (CreateProject E cl pr)"
    and "keeps (\<lambda>c. view c = v) (GetProject E cl u)"
    and "keeps (\<lambda>c. view c = v) (Upload E cl rq)"
    and "keeps (\<lambda>c. view c = v) (IsBeingProcessed E cl t)"
    and "keeps (\<lambda>c. view c = v) (TimeNow E)"
    and "keeps (\<lambda>c. view c = v) (TicksBeforeTimeout E)"
    and "keeps (\<lambda>c. view c = v) (DtClient E ep ak)"
  using assms
  by (auto simp: cm_store_def cm_reads_def cm_frame_def env_ops
      intro!: keeps_unaffected_invoke keeps_unaffected_consult keeps_ret)

end
