(* ===== verification/Events.thy ===== *)
theory Events
  imports Environment
begin

text \<open>
  Event filters: the \<open>predicate.Funcs\<close> by which the three controllers select the events they
  reconcile on. A nil function of a \<open>Funcs\<close> admits every event, and a controller with several
  filters reconciles on the events all of them admit, as controller-runtime documents. The two
  locales are the contracts the filters of this program share.
\<close>

datatype 'o event = CreateEvent 'o | UpdateEvent 'o 'o | DeleteEvent 'o | GenericEvent 'o

record 'o predicate_funcs =
  CreateFunc :: "('o \<Rightarrow> bool) option"
  UpdateFunc :: "('o \<Rightarrow> 'o \<Rightarrow> bool) option"
  DeleteFunc :: "('o \<Rightarrow> bool) option"
  GenericFunc :: "('o \<Rightarrow> bool) option"

fun admits :: "'o predicate_funcs \<Rightarrow> 'o event \<Rightarrow> bool" where
  "admits P (CreateEvent obj) = (case CreateFunc P of None \<Rightarrow> True | Some f \<Rightarrow> f obj)"
| "admits P (UpdateEvent old new) = (case UpdateFunc P of None \<Rightarrow> True | Some f \<Rightarrow> f old new)"
| "admits P (DeleteEvent obj) = (case DeleteFunc P of None \<Rightarrow> True | Some f \<Rightarrow> f obj)"
| "admits P (GenericEvent obj) = (case GenericFunc P of None \<Rightarrow> True | Some f \<Rightarrow> f obj)"

definition admitted :: "'o predicate_funcs list \<Rightarrow> 'o event \<Rightarrow> bool" where
  "admitted Ps ev = list_all (\<lambda>P. admits P ev) Ps"

text \<open>
  What a controller is registered with: the kind it watches, its filters, and how many
  reconciliations may run at once, where that is set.
\<close>

record 'o controller_setup =
  ForKind :: string
  EventFilters :: "'o predicate_funcs list"
  MaxConcurrentReconciles :: "int option"

text \<open>The lookup the filters and the namespace controller share (\<open>getValueFromMap\<close>).\<close>

definition getValueFromMap :: "string gomap \<Rightarrow> string \<Rightarrow> go_error + string" where
  "getValueFromMap labels k =
     (case mlookup labels k of
        None \<Rightarrow> Inl (Error ''key not found'')
      | Some v \<Rightarrow> Inr v)"

lemma getValueFromMap_simps [simp]:
  "getValueFromMap labels k = Inr v \<longleftrightarrow> mlookup labels k = Some v"
  "isl (getValueFromMap labels k) \<longleftrightarrow> mlookup labels k = None"
  by (simp_all add: getValueFromMap_def split: option.split)

text \<open>Deletions never start a reconciliation, and an update is judged by the new object.\<close>

locale event_filter =
  fixes P :: "'o predicate_funcs"
  assumes delete_refused: "\<not> admits P (DeleteEvent obj)"
    and update_by_new: "admits P (UpdateEvent old new) = admits P (UpdateEvent old' new)"
begin

lemma delete_not_admitted: "P \<in> set Ps \<Longrightarrow> \<not> admitted Ps (DeleteEvent obj)"
  using delete_refused by (auto simp: admitted_def list_all_iff simp del: admits.simps)

lemma update_self: "admits P (UpdateEvent old new) = admits P (UpdateEvent new new)"
  by (rule update_by_new)

end

text \<open>
  A filter on the level of an object: an object passes when it is created exactly if it passes
  when it is updated to the same content, so what counts is the object, not the transition.
\<close>

locale level_filter = event_filter +
  assumes create_as_update: "admits P (CreateEvent obj) = admits P (UpdateEvent obj obj)"
begin

lemma update_iff_create: "admits P (UpdateEvent old new) = admits P (CreateEvent new)"
  by (metis create_as_update update_by_new)

end

end
