(* ===== verification/Cmlib.thy ===== *)
theory Cmlib
  imports Environment
begin

text \<open>
  \<open>cmlib/cmlib.go\<close>: writing labels and annotations to a ConfigMap in one update.
\<close>

section \<open>The operations\<close>

definition no_entries :: "'v gomap \<Rightarrow> bool" where
  "no_entries m \<longleftrightarrow> fmdom (mentries m) = {||}"

text \<open>A nil map is made non-nil first; then every entry of the second map is written to it.\<close>

definition write_entries :: "string gomap \<Rightarrow> string gomap \<Rightarrow> string gomap" where
  "write_entries current updated =
     (if no_entries updated then current
      else Some (mentries current ++\<^sub>f mentries updated))"

definition with_updates :: "ConfigMap \<Rightarrow> string gomap \<Rightarrow> string gomap \<Rightarrow> ConfigMap" where
  "with_updates configMap updatedLabels updatedAnnotations =
     configMap\<lparr>Labels := write_entries (Labels configMap) updatedLabels,
               Annotations := write_entries (Annotations configMap) updatedAnnotations\<rparr>"

definition BatchUpdateCM ::
  "'c environment \<Rightarrow> ConfigMap \<Rightarrow> string gomap \<Rightarrow> string gomap \<Rightarrow> ('c, go_error + unit) comp" where
  "BatchUpdateCM E configMap updatedLabels updatedAnnotations =
     (if no_entries updatedLabels \<and> no_entries updatedAnnotations
      then ret (Inl (Error ''no updates passed to BatchUpdateCM''))
      else attempt (UpdateConfigMap E (with_updates configMap updatedLabels updatedAnnotations))
             (\<lambda>err. ret (Inl err))
             (\<lambda>_. ret (Inr ())))"

definition LabelCM ::
  "'c environment \<Rightarrow> ConfigMap \<Rightarrow> string \<Rightarrow> string \<Rightarrow> ('c, go_error + unit) comp" where
  "LabelCM E configMap labelKey labelValue =
     BatchUpdateCM E configMap (gomap_of [(labelKey, labelValue)]) None"

definition AnnotateCM ::
  "'c environment \<Rightarrow> ConfigMap \<Rightarrow> string \<Rightarrow> string \<Rightarrow> ('c, go_error + unit) comp" where
  "AnnotateCM E configMap annotationKey annotationValue =
     BatchUpdateCM E configMap None (gomap_of [(annotationKey, annotationValue)])"

section \<open>Lemmas\<close>

lemma no_entries_simps [simp]:
  "no_entries None"
  "no_entries (Some m) \<longleftrightarrow> fmdom m = {||}"
  by (simp_all add: no_entries_def)

lemma no_entries_mlookup: "no_entries m \<Longrightarrow> mlookup m k = None"
  unfolding no_entries_def by (metis fempty_iff fmdom_notD fmlookup_mentries)

text \<open>The updates win, everything else stays.\<close>

lemma mlookup_write_entries:
  "mlookup (write_entries cur upd) k =
     (case mlookup upd k of None \<Rightarrow> mlookup cur k | Some v \<Rightarrow> Some v)"
proof (cases "no_entries upd")
  case True
  then show ?thesis by (simp add: write_entries_def no_entries_mlookup)
next
  case False
  show ?thesis
  proof (cases "mlookup upd k")
    case None
    then have "k |\<notin>| fmdom (mentries upd)" by (intro fmdom_notI) simp
    with False None show ?thesis by (simp add: write_entries_def)
  next
    case (Some v)
    then have "k |\<in>| fmdom (mentries upd)" by (intro fmdomI) simp
    with False Some show ?thesis by (simp add: write_entries_def)
  qed
qed

lemma write_entries_Some [simp]:
  "fmdom m \<noteq> {||} \<Longrightarrow> write_entries cur (Some m) = Some (mentries cur ++\<^sub>f m)"
  by (simp add: write_entries_def)

text \<open>Only labels and annotations of the object change.\<close>

lemma with_updates_frame [simp]:
  "Name (with_updates cm ul ua) = Name cm"
  "Namespace (with_updates cm ul ua) = Namespace cm"
  "Data (with_updates cm ul ua) = Data cm"
  "BinaryData (with_updates cm ul ua) = BinaryData cm"
  "key (with_updates cm ul ua) = key cm"
  by (simp_all add: with_updates_def key_def)

lemma with_updates_lookup [simp]:
  "mlookup (Labels (with_updates cm ul ua)) k =
     (case mlookup ul k of None \<Rightarrow> mlookup (Labels cm) k | Some v \<Rightarrow> Some v)"
  "mlookup (Annotations (with_updates cm ul ua)) k =
     (case mlookup ua k of None \<Rightarrow> mlookup (Annotations cm) k | Some v \<Rightarrow> Some v)"
  by (simp_all add: with_updates_def mlookup_write_entries)

lemma BatchUpdateCM_emits [emits_rules]:
  "A (KUpdateConfigMap (with_updates cm ul ua)) \<Longrightarrow> emits A (BatchUpdateCM E cm ul ua)"
  unfolding BatchUpdateCM_def by (intro emits_rules)

lemma BatchUpdateCM_run:
  assumes "\<not> (no_entries ul \<and> no_entries ua)"
  shows "BatchUpdateCM E cm ul ua w =
    (case update_configmap E (with_updates cm ul ua) (outside w) of
       (r, c) \<Rightarrow> (Returns r,
          w\<lparr>outside := c, calls := calls w @ [KUpdateConfigMap (with_updates cm ul ua)]\<rparr>))"
  using assms
  by (auto simp: BatchUpdateCM_def UpdateConfigMap_def monad_defs
      split: prod.splits sum.splits)

end
