(* ===== verification/Post_Process.thy ===== *)
theory Post_Process
  imports Environment
begin

text \<open>
  The interface \<open>internal/postprocess/postprocess.go\<close>, its first implementation, which forwards
  a message to Lagoon core (\<open>internal/postprocess/insights_core\<close>), and the broker connection of
  \<open>cmd/main.go\<close> it writes to. The JSON encoder is a parameter, and so is the broker.
\<close>

section \<open>Writing to the broker\<close>

type_synonym 'c writer = "bytes \<Rightarrow> ('c, go_error + unit) comp"

definition NewMQ :: "'c environment \<Rightarrow> ('c, go_error + unit) comp" where
  "NewMQ E = invoke MqNew (mq_new E)"

definition SyncProducer :: "'c environment \<Rightarrow> string \<Rightarrow> ('c, go_error + unit) comp" where
  "SyncProducer E name = invoke (MqSyncProducer name) (mq_sync_producer E name)"

definition Produce :: "'c environment \<Rightarrow> bytes \<Rightarrow> ('c, go_error + unit) comp" where
  "Produce E data = invoke (MqProduce data) (mq_produce E data)"

definition CloseMQ :: "'c environment \<Rightarrow> ('c, unit) comp" where
  "CloseMQ E = invoke MqClose (mq_close E)"

lemmas mq_ops = NewMQ_def SyncProducer_def Produce_def CloseMQ_def

text \<open>\<open>defer messageQ.Close()\<close>: the connection is closed on every way out after it was opened.\<close>

definition closing :: "'c environment \<Rightarrow> ('c, 'a) comp \<Rightarrow> ('c, 'a) comp" where
  "closing E m = bind m (\<lambda>r. bind (CloseMQ E) (\<lambda>_. ret r))"

definition mqWriteObject :: "'c environment \<Rightarrow> 'c writer" where
  "mqWriteObject E data =
     attempt (NewMQ E) (\<lambda>err. ret (Inl err)) (\<lambda>_.
     closing E
       (attempt (SyncProducer E ''lagoon-insights'') (\<lambda>err. ret (Inl err)) (\<lambda>_.
        attempt (Produce E data) (\<lambda>err. ret (Inl err)) (\<lambda>_.
        ret (Inr ())))))"

lemma mq_ops_emit [emits_rules]:
  "A MqNew \<Longrightarrow> emits A (NewMQ E)"
  "A (MqSyncProducer n) \<Longrightarrow> emits A (SyncProducer E n)"
  "A (MqProduce b) \<Longrightarrow> emits A (Produce E b)"
  "A MqClose \<Longrightarrow> emits A (CloseMQ E)"
  by (simp_all add: mq_ops emits_invoke)

lemma mq_ops_frame [keeps_rules]:
  assumes "cm_store E view"
  shows "keeps (\<lambda>c. view c = v) (NewMQ E)"
    and "keeps (\<lambda>c. view c = v) (SyncProducer E n)"
    and "keeps (\<lambda>c. view c = v) (Produce E b)"
    and "keeps (\<lambda>c. view c = v) (CloseMQ E)"
  using assms
  by (auto simp: cm_store_def cm_frame_def mq_ops intro!: keeps_unaffected_invoke)

lemma mqWriteObject_emits:
  "emits (\<lambda>e. mq_effect e \<and> (\<forall>b. e = MqProduce b \<longrightarrow> b = data)) (mqWriteObject E data)"
  unfolding mqWriteObject_def closing_def by (intro emits_rules) simp_all

lemma mqWriteObject_frames: "cm_store E view \<Longrightarrow> frames view (mqWriteObject E data)"
  unfolding mqWriteObject_def closing_def by (intro framesI keeps_rules) assumption+

text \<open>
  What a write did, from its result: the message was handed to the broker exactly when the write
  got as far as a producer, and every opened connection was closed again.
\<close>

lemma mqWriteObject_log:
  assumes "mqWriteObject E data w = (r, w')"
  obtains
    (Closed) err where "r = Returns (Inl err)" "calls w' = calls w @ [MqNew]"
  | (NoProducer) err where "r = Returns (Inl err)"
      "calls w' = calls w @ [MqNew, MqSyncProducer ''lagoon-insights'', MqClose]"
  | (Written) res where "r = Returns res"
      "calls w' = calls w @ [MqNew, MqSyncProducer ''lagoon-insights'', MqProduce data, MqClose]"
proof -
  note run = mqWriteObject_def closing_def mq_ops monad_defs
  obtain r0 c0 where new: "mq_new E (outside w) = (r0, c0)" by fastforce
  show thesis
  proof (cases r0)
    case (Inl err)
    with assms new show ?thesis by (intro Closed [of err]) (auto simp: run)
  next
    case opened: (Inr u)
    obtain r1 c1 where prod: "mq_sync_producer E ''lagoon-insights'' c0 = (r1, c1)" by fastforce
    show ?thesis
    proof (cases r1)
      case (Inl err)
      with assms new opened prod show ?thesis
        by (intro NoProducer [of err]) (auto simp: run split: prod.splits)
    next
      case (Inr u')
      obtain r2 c2 where put: "mq_produce E data c1 = (r2, c2)" by fastforce
      obtain c3 where "mq_close E c2 = ((), c3)" by (cases "mq_close E c2") auto
      with assms new opened prod Inr put
      have "(r, w') = (Returns r2, w\<lparr>outside := c3, calls := calls w @
          [MqNew, MqSyncProducer ''lagoon-insights'', MqProduce data, MqClose]\<rparr>)"
        by (cases r2) (simp_all add: run)
      then show ?thesis by (intro Written [of r2]) simp_all
    qed
  qed
qed

section \<open>Post-processors\<close>

text \<open>The Go interface; a nil interface value is \<open>None\<close> in a list of processors.\<close>

record 'c post_processor =
  ProcessorLabel :: string
  PostProcess :: "LagoonInsightsMessage \<Rightarrow> ('c, go_error + unit) comp"

text \<open>
  The contract the controller relies on: a processor never writes to the Kubernetes API, and where
  the cluster stores ConfigMaps as documented, it leaves them as they are.
\<close>

locale confined_processor =
  fixes E :: "'c environment" and p :: "'c post_processor"
  assumes no_kube_write: "emits (\<lambda>e. \<not> kube_write e) (PostProcess p msg)"
    and frames_store: "cm_store E view \<Longrightarrow> frames view (PostProcess p msg)"
begin

lemma log_has_no_write:
  assumes "PostProcess p msg w = (r, w')"
  shows "filter kube_write (calls w') = filter kube_write (calls w)"
proof -
  from emitsE [OF no_kube_write assms] obtain es
    where "calls w' = calls w @ es" "list_all (\<lambda>e. \<not> kube_write e) es" .
  then show ?thesis by (simp add: filter_empty_conv list_all_iff)
qed

end

text \<open>Wrapping with \<open>%w\<close> keeps what kind of error it is.\<close>

fun wrap_error :: "string \<Rightarrow> go_error \<Rightarrow> go_error" where
  "wrap_error msg (NotFound s) = NotFound (msg @ s)"
| "wrap_error msg (Error s) = Error (msg @ s)"

section \<open>Forwarding to Lagoon core\<close>

type_synonym encoder = "document \<Rightarrow> go_error + bytes"

definition coreLabel :: string where
  "coreLabel = ''core.insights.lagoon.sh/status''"

definition corePostProcess ::
  "encoder \<Rightarrow> 'c writer \<Rightarrow> LagoonInsightsMessage \<Rightarrow> ('c, go_error + unit) comp" where
  "corePostProcess marshal messageQWriter message =
     (if mget (MsgAnnotations message) ''core.insights.lagoon.sh/enabled'' \<noteq> ''true''
      then ret (Inr ())
      else attempt (ret (marshal (DocInsights message)))
             (\<lambda>err. ret (Inl (wrap_error ''unable to marshall config data: '' err))) (\<lambda>marshalledData.
           attempt (messageQWriter marshalledData)
             (\<lambda>err. ret (Inl (wrap_error ''unable to write to message broker: '' err))) (\<lambda>_.
           ret (Inr ()))))"

definition NewCorePostProcessor ::
  "encoder \<Rightarrow> bool \<Rightarrow> 'c writer \<Rightarrow> 'c post_processor option" where
  "NewCorePostProcessor marshal mqEnable writer =
     (if \<not> mqEnable then None
      else Some \<lparr>ProcessorLabel = coreLabel, PostProcess = corePostProcess marshal writer\<rparr>)"

lemma corePostProcess_emits:
  assumes "\<And>b. emits A (writer b)"
  shows "emits A (corePostProcess marshal writer msg)"
  unfolding corePostProcess_def by (intro emits_rules assms)

lemma corePostProcess_frames:
  assumes "\<And>b. frames view (writer b)"
  shows "frames view (corePostProcess marshal writer msg)"
  using assms unfolding frames_def corePostProcess_def
  by (auto intro!: keeps_rules)

text \<open>The core processor over the program's broker connection meets the contract.\<close>

definition core_processor :: "'c environment \<Rightarrow> encoder \<Rightarrow> 'c post_processor" where
  "core_processor E marshal =
     \<lparr>ProcessorLabel = coreLabel, PostProcess = corePostProcess marshal (mqWriteObject E)\<rparr>"

lemma mq_effect_no_write: "mq_effect e \<Longrightarrow> \<not> kube_write e"
  by (cases e) simp_all

lemma NewCorePostProcessor_mq:
  "NewCorePostProcessor marshal mqEnable (mqWriteObject E) =
     (if mqEnable then Some (core_processor E marshal) else None)"
  by (simp add: NewCorePostProcessor_def core_processor_def)

interpretation core: confined_processor E "core_processor E marshal" for E marshal
proof unfold_locales
  fix msg
  have "emits (\<lambda>e. \<not> kube_write e) (mqWriteObject E b)" for b
    by (rule emits_mono [OF mqWriteObject_emits]) (auto dest: mq_effect_no_write)
  then show "emits (\<lambda>e. \<not> kube_write e) (PostProcess (core_processor E marshal) msg)"
    by (simp add: core_processor_def corePostProcess_emits)
next
  fix view msg
  assume "cm_store E view"
  then show "frames view (PostProcess (core_processor E marshal) msg)"
    by (simp add: core_processor_def corePostProcess_frames mqWriteObject_frames)
qed

end
