(* ===== verification/Go_Stdlib.thy ===== *)
theory Go_Stdlib
  imports Prelude
begin

text \<open>
  The parts of Go's standard library the program computes with: \<open>strconv\<close> (decimal integers
  at a bit width, with the two ways of failing, and booleans), \<open>strings\<close>, the rendering of
  a UTC time as RFC 3339 and the standard base-64 encoding. The interface the retry counter and
  the deferral stamps rely on, that a number written is the number read back, is the locale
  \<open>decimal_codec\<close>, interpreted at the two widths the program uses.
\<close>

section \<open>Decimal integers\<close>

datatype num_error = ErrSyntax | ErrRange

definition digit_val :: "char \<Rightarrow> nat option" where
  "digit_val c =
     (let n = of_char c :: nat in if 48 \<le> n \<and> n \<le> 57 then Some (n - 48) else None)"

definition digit_char :: "nat \<Rightarrow> char" where
  "digit_char d = char_of (48 + d)"

text \<open>
  The loop of \<open>strconv.ParseUint\<close> in base 10: it stops at the first byte that is not a digit
  and at the first digit with which the number no longer fits, whichever comes first.
\<close>

fun parse_uint :: "nat \<Rightarrow> nat \<Rightarrow> string \<Rightarrow> num_error + nat" where
  "parse_uint maxVal n [] = Inr n"
| "parse_uint maxVal n (c # cs) =
     (case digit_val c of
        None \<Rightarrow> Inl ErrSyntax
      | Some d \<Rightarrow>
          if n * 10 + d > maxVal then Inl ErrRange else parse_uint maxVal (n * 10 + d) cs)"

text \<open>
  \<open>strconv.ParseInt(s, 10, bits)\<close>: the value and the error, both of which Go returns. A text
  out of range gives the nearest value of the width together with the error.
\<close>

definition signed_value :: "nat \<Rightarrow> bool \<Rightarrow> nat \<Rightarrow> int \<times> num_error option" where
  "signed_value bits neg un =
     (let cutoff = 2 ^ (bits - 1)
      in if \<not> neg \<and> int un \<ge> cutoff then (cutoff - 1, Some ErrRange)
         else if neg \<and> int un > cutoff then (- cutoff, Some ErrRange)
         else (if neg then - int un else int un, None))"

definition ParseInt :: "nat \<Rightarrow> string \<Rightarrow> int \<times> num_error option" where
  "ParseInt bits s =
     (let neg = (take 1 s = ''-'');
          body = (if take 1 s = ''-'' \<or> take 1 s = ''+'' then drop 1 s else s)
      in if body = [] then (0, Some ErrSyntax)
         else case parse_uint (2 ^ bits - 1) 0 body of
                Inl ErrSyntax \<Rightarrow> (0, Some ErrSyntax)
              | Inl ErrRange \<Rightarrow> signed_value bits neg (2 ^ bits - 1)
              | Inr un \<Rightarrow> signed_value bits neg un)"

definition Atoi :: "string \<Rightarrow> int \<times> num_error option" where
  "Atoi s = ParseInt 64 s"

fun format_nat :: "nat \<Rightarrow> string" where
  "format_nat n =
     (if n < 10 then [digit_char n] else format_nat (n div 10) @ [digit_char (n mod 10)])"

declare format_nat.simps [simp del]

text \<open>\<open>strconv.FormatInt(n, 10)\<close>.\<close>

definition FormatInt :: "int \<Rightarrow> string" where
  "FormatInt n = (if n < 0 then ''-'' @ format_nat (nat (- n)) else format_nat (nat n))"

text \<open>
  The text of a \<open>strconv.NumError\<close>: function, quoted input, reason. Bytes from 0x80 up are
  printed as they are.
\<close>

definition hex_digit :: "nat \<Rightarrow> char" where
  "hex_digit d = (if d < 10 then char_of (48 + d) else char_of (87 + d))"

definition quote_char :: "char \<Rightarrow> string" where
  "quote_char c =
     (let n = of_char c :: nat in
      if n = 34 \<or> n = 92 then [CHR 0x5C, c]
      else if n = 7 then [CHR 0x5C, CHR ''a'']
      else if n = 8 then [CHR 0x5C, CHR ''b'']
      else if n = 12 then [CHR 0x5C, CHR ''f'']
      else if n = 10 then [CHR 0x5C, CHR ''n'']
      else if n = 13 then [CHR 0x5C, CHR ''r'']
      else if n = 9 then [CHR 0x5C, CHR ''t'']
      else if n = 11 then [CHR 0x5C, CHR ''v'']
      else if n < 32 \<or> n = 127
        then [CHR 0x5C, CHR ''x'', hex_digit (n div 16), hex_digit (n mod 16)]
      else [c])"

definition go_quote :: "string \<Rightarrow> string" where
  "go_quote s = [CHR 0x22] @ concat (map quote_char s) @ [CHR 0x22]"

definition num_error_as_error :: "string \<Rightarrow> string \<Rightarrow> num_error \<Rightarrow> go_error" where
  "num_error_as_error fn s e =
     Error (''strconv.'' @ fn @ '': parsing '' @ go_quote s @ '': '' @
       (case e of ErrSyntax \<Rightarrow> ''invalid syntax'' | ErrRange \<Rightarrow> ''value out of range''))"

text \<open>\<open>ParseInt\<close> as used where the error is returned to the caller.\<close>

definition parse_int :: "nat \<Rightarrow> string \<Rightarrow> go_error + int" where
  "parse_int bits s =
     (case ParseInt bits s of
        (n, None) \<Rightarrow> Inr n
      | (n, Some e) \<Rightarrow> Inl (num_error_as_error ''ParseInt'' s e))"

subsection \<open>What is written is read back\<close>

lemma digit_val_digit_char [simp]: "d < 10 \<Longrightarrow> digit_val (digit_char d) = Some d"
  by (simp add: digit_val_def digit_char_def of_char_of)

lemma digit_val_sign: "digit_val c = Some d \<Longrightarrow> c \<noteq> CHR ''-'' \<and> c \<noteq> CHR ''+''"
  by (auto simp: digit_val_def split: if_splits)

lemma digit_val_less: "digit_val c = Some d \<Longrightarrow> d < 10"
  by (auto simp: digit_val_def Let_def split: if_splits)

lemma parse_uint_append:
  "parse_uint M n (xs @ ys) =
     (case parse_uint M n xs of Inl e \<Rightarrow> Inl e | Inr k \<Rightarrow> parse_uint M k ys)"
  by (induction M n xs rule: parse_uint.induct) (auto split: option.split)

lemma parse_uint_le: "parse_uint M n s = Inr u \<Longrightarrow> n \<le> M \<Longrightarrow> u \<le> M"
  by (induction M n s rule: parse_uint.induct) (auto split: option.splits if_splits)

lemma parse_format_nat: "n \<le> M \<Longrightarrow> parse_uint M 0 (format_nat n) = Inr n"
proof (induction n rule: format_nat.induct)
  case (1 n)
  show ?case
  proof (cases "n < 10")
    case True
    with "1.prems" show ?thesis by (simp add: format_nat.simps [of n])
  next
    case False
    moreover from "1.prems" have "n div 10 \<le> M" by linarith
    ultimately have "parse_uint M 0 (format_nat (n div 10)) = Inr (n div 10)"
      by (rule "1.IH")
    with False "1.prems" show ?thesis
      by (simp add: format_nat.simps [of n] parse_uint_append)
  qed
qed

lemma format_nat_not_Nil [simp]: "format_nat n \<noteq> []"
  by (subst format_nat.simps) simp

lemma format_nat_digits: "c \<in> set (format_nat n) \<Longrightarrow> \<exists>d. digit_val c = Some d"
proof (induction n rule: format_nat.induct)
  case (1 n)
  show ?case
  proof (cases "n < 10")
    case True
    with "1.prems" show ?thesis by (auto simp: format_nat.simps [of n])
  next
    case False
    with "1.prems" "1.IH" show ?thesis
      by (auto simp: format_nat.simps [of n])
  qed
qed

lemma take1_format_nat: "take 1 (format_nat n) \<noteq> ''-''" "take 1 (format_nat n) \<noteq> ''+''"
  by (cases "format_nat n"; use format_nat_digits [of _ n] digit_val_sign in fastforce)+

text \<open>Numbers of the width, as two's complement has them.\<close>

definition fits :: "nat \<Rightarrow> int \<Rightarrow> bool" where
  "fits bits n \<longleftrightarrow> - (2 ^ (bits - 1)) \<le> n \<and> n < 2 ^ (bits - 1)"

lemma half_range: "0 < bits \<Longrightarrow> (2::nat) ^ (bits - 1) \<le> 2 ^ bits - 1"
  by (cases bits) (simp_all add: Suc_leI)

lemma fits_0: "fits bits 0"
  by (simp add: fits_def)

lemma fits_signed_value: "fits bits (fst (signed_value bits neg un))"
proof -
  define p :: int where "p = 2 ^ (bits - 1)"
  have p: "0 < p" by (simp add: p_def)
  show ?thesis
    unfolding signed_value_def fits_def Let_def p_def [symmetric] using p by auto
qed

lemma ParseInt_FormatInt:
  assumes "0 < bits" and "fits bits n"
  shows "ParseInt bits (FormatInt n) = (n, None)"
proof (cases "n < 0")
  case True
  from assms(2) have "- n \<le> 2 ^ (bits - 1)" by (simp add: fits_def)
  with True have le: "nat (- n) \<le> 2 ^ (bits - 1)" by (simp add: nat_le_iff)
  also note half_range [OF assms(1)]
  finally show ?thesis
    using True le parse_format_nat [of "nat (- n)" "2 ^ bits - 1"] \<open>- n \<le> 2 ^ (bits - 1)\<close>
    by (simp add: ParseInt_def FormatInt_def signed_value_def)
next
  case False
  from assms(2) False have lt: "n < 2 ^ (bits - 1)" by (simp add: fits_def)
  then have "nat n \<le> 2 ^ (bits - 1)" using False by (simp add: nat_le_iff)
  also note half_range [OF assms(1)]
  finally show ?thesis
    using False lt parse_format_nat [of "nat n" "2 ^ bits - 1"]
      take1_format_nat [of "nat n"]
    by (simp add: ParseInt_def FormatInt_def signed_value_def)
qed

lemma ParseInt_fits: "0 < bits \<Longrightarrow> fits bits (fst (ParseInt bits s))"
  by (simp add: ParseInt_def fits_signed_value fits_0 Let_def split: sum.split num_error.split)

lemma ParseInt_out_of_range:
  assumes "0 < bits" and "2 ^ (bits - 1) \<le> n"
  shows "ParseInt bits (FormatInt n) = (2 ^ (bits - 1) - 1, Some ErrRange)"
proof -
  have "(0::int) < 2 ^ (bits - 1)" by simp
  with assms have n: "0 < n" by linarith
  have big: "parse_uint M 0 (format_nat k) = Inl ErrRange" if "M < k" for M k
    using that
  proof (induction k rule: format_nat.induct)
    case (1 k)
    show ?case
    proof (cases "k < 10")
      case True
      with "1.prems" show ?thesis by (simp add: format_nat.simps [of k])
    next
      case False
      show ?thesis
      proof (cases "M < k div 10")
        case True
        with False "1.IH" show ?thesis
          by (simp add: format_nat.simps [of k] parse_uint_append)
      next
        case below: False
        then have "parse_uint M 0 (format_nat (k div 10)) = Inr (k div 10)"
          by (intro parse_format_nat) simp
        with False "1.prems" show ?thesis
          by (simp add: format_nat.simps [of k] parse_uint_append)
      qed
    qed
  qed
  show ?thesis
  proof (cases "nat n \<le> 2 ^ bits - 1")
    case True
    with assms n parse_format_nat [OF True] take1_format_nat [of "nat n"] show ?thesis
      by (simp add: ParseInt_def FormatInt_def signed_value_def)
  next
    case False
    with assms n big [of "2 ^ bits - 1" "nat n"] take1_format_nat [of "nat n"] show ?thesis
      by (simp add: ParseInt_def FormatInt_def signed_value_def)
  qed
qed

text \<open>
  The interface: a number stored as text is the number read, within the range the reader
  accepts. Its clients are the retry counter (64 bits) and the deferral stamp (32 bits).
\<close>

locale decimal_codec =
  fixes parse :: "string \<Rightarrow> int \<times> num_error option"
    and fmt :: "int \<Rightarrow> string"
    and in_range :: "int \<Rightarrow> bool"
  assumes parse_fmt: "in_range n \<Longrightarrow> parse (fmt n) = (n, None)"
    and parse_in_range: "in_range (fst (parse s))"
begin

lemma fmt_inject: "in_range m \<Longrightarrow> in_range n \<Longrightarrow> fmt m = fmt n \<Longrightarrow> m = n"
  by (metis Pair_inject parse_fmt)

lemma parse_stable: "fst (parse (fmt (fst (parse s)))) = fst (parse s)"
  by (simp add: parse_fmt parse_in_range)

lemma parse_fmt_value: "in_range n \<Longrightarrow> fst (parse (fmt n)) = n"
  by (simp add: parse_fmt)

end

interpretation int64: decimal_codec "ParseInt 64" FormatInt "fits 64"
  by unfold_locales (simp_all add: ParseInt_FormatInt ParseInt_fits)

interpretation int32: decimal_codec "ParseInt 32" FormatInt "fits 32"
  by unfold_locales (simp_all add: ParseInt_FormatInt ParseInt_fits)

subsection \<open>Machine arithmetic\<close>

text \<open>Go's \<open>int64\<close> addition and multiplication wrap around at the width.\<close>

definition int64_of :: "int \<Rightarrow> int" where
  "int64_of n = sint (word_of_int n :: 64 word)"

lemma int64_of_fits [simp]: "fits 64 (int64_of n)"
  using sint_greater_eq [of "word_of_int n :: 64 word"] sint_less [of "word_of_int n :: 64 word"]
  by (simp add: fits_def int64_of_def)

lemma int64_of_id: "fits 64 n \<Longrightarrow> int64_of n = n"
  by (simp add: int64_of_def fits_def signed_take_bit_int_eq_self_iff sint_sbintrunc')

lemma int64_of_wraps: "int64_of (2 ^ 63) = - (2 ^ 63)"
  by (simp add: int64_of_def)

section \<open>Booleans and strings\<close>

text \<open>\<open>strconv.ParseBool\<close>.\<close>

definition ParseBool :: "string \<Rightarrow> bool option" where
  "ParseBool s =
     (if s \<in> {''1'', ''t'', ''T'', ''true'', ''TRUE'', ''True''} then Some True
      else if s \<in> {''0'', ''f'', ''F'', ''false'', ''FALSE'', ''False''} then Some False
      else None)"

text \<open>\<open>strings.Join\<close>, \<open>strings.Cut\<close> and \<open>strings.Split\<close> at a one-byte separator.\<close>

fun Join :: "string list \<Rightarrow> string \<Rightarrow> string" where
  "Join [] sep = ''''"
| "Join [s] sep = s"
| "Join (s # ss) sep = s @ sep @ Join ss sep"

fun Cut :: "string \<Rightarrow> char \<Rightarrow> string \<times> string \<times> bool" where
  "Cut [] sep = ([], [], False)"
| "Cut (c # cs) sep =
     (if c = sep then ([], cs, True)
      else case Cut cs sep of (before, after, found) \<Rightarrow> (c # before, after, found))"

fun Split :: "string \<Rightarrow> char \<Rightarrow> string list" where
  "Split [] sep = [[]]"
| "Split (c # cs) sep =
     (if c = sep then [] # Split cs sep
      else case Split cs sep of [] \<Rightarrow> [[c]] | s # ss \<Rightarrow> (c # s) # ss)"

lemma Cut_found:
  "Cut s sep = (k, v, True) \<longleftrightarrow> s = k @ [sep] @ v \<and> sep \<notin> set k"
proof (induction s arbitrary: k)
  case Nil
  then show ?case by simp
next
  case (Cons c s)
  obtain b a f where cut: "Cut s sep = (b, a, f)" by (cases "Cut s sep")
  show ?case
  proof (cases k)
    case Nil
    then show ?thesis by (auto simp: cut)
  next
    case k: (Cons d k')
    have "b = k' \<and> a = v \<and> f \<longleftrightarrow> s = k' @ [sep] @ v \<and> sep \<notin> set k'"
      using Cons.IH [of k'] by (simp add: cut)
    then show ?thesis by (auto simp: cut k)
  qed
qed

lemma Split_not_Nil [simp]: "Split s sep \<noteq> []"
  by (cases s) (auto split: list.split)

lemma Join_Cons: "ss \<noteq> [] \<Longrightarrow> Join (s # ss) sep = s @ sep @ Join ss sep"
  by (cases ss) simp_all

lemma Join_head: "Join ((c # s) # ss) sep = c # Join (s # ss) sep"
  by (cases ss) simp_all

lemma Join_Split: "Join (Split s sep) [sep] = s"
proof (induction s)
  case Nil
  then show ?case by simp
next
  case (Cons c s)
  then show ?case
    by (cases "Split s sep") (auto simp: Join_Cons Join_head)
qed

lemma Split_Join:
  "ss \<noteq> [] \<Longrightarrow> \<forall>s\<in>set ss. sep \<notin> set s \<Longrightarrow> Split (Join ss [sep]) sep = ss"
proof (induction ss)
  case Nil
  then show ?case by simp
next
  case (Cons s ss)
  have plain: "sep \<notin> set t \<Longrightarrow> Split t sep = [t]" for t
    by (induction t) auto
  have step: "sep \<notin> set t \<Longrightarrow> Split (t @ sep # u) sep = t # Split u sep" for t u
    by (induction t) (auto split: list.split)
  show ?case
    using Cons by (cases "ss = []") (auto simp: plain step Join_Cons)
qed

text \<open>
  \<open>strings.TrimSpace\<close> strips the UTF-8 encodings of the code points with the Unicode white
  space property at both ends.
\<close>

definition space_encodings :: "string list" where
  "space_encodings =
     [[CHR 0x20], [CHR 0x09], [CHR 0x0A], [CHR 0x0B], [CHR 0x0C], [CHR 0x0D],
      [CHR 0xC2, CHR 0x85], [CHR 0xC2, CHR 0xA0], [CHR 0xE1, CHR 0x9A, CHR 0x80],
      [CHR 0xE2, CHR 0x80, CHR 0x80], [CHR 0xE2, CHR 0x80, CHR 0x81],
      [CHR 0xE2, CHR 0x80, CHR 0x82], [CHR 0xE2, CHR 0x80, CHR 0x83],
      [CHR 0xE2, CHR 0x80, CHR 0x84], [CHR 0xE2, CHR 0x80, CHR 0x85],
      [CHR 0xE2, CHR 0x80, CHR 0x86], [CHR 0xE2, CHR 0x80, CHR 0x87],
      [CHR 0xE2, CHR 0x80, CHR 0x88], [CHR 0xE2, CHR 0x80, CHR 0x89],
      [CHR 0xE2, CHR 0x80, CHR 0x8A], [CHR 0xE2, CHR 0x80, CHR 0xA8],
      [CHR 0xE2, CHR 0x80, CHR 0xA9], [CHR 0xE2, CHR 0x80, CHR 0xAF],
      [CHR 0xE2, CHR 0x81, CHR 0x9F], [CHR 0xE3, CHR 0x80, CHR 0x80]]"

definition leading :: "string list \<Rightarrow> string \<Rightarrow> string option" where
  "leading encs s = find (\<lambda>e. e \<noteq> [] \<and> take (length e) s = e) encs"

lemma leading_shorter:
  assumes "leading encs s = Some e"
  shows "length (drop (length e) s) < length s"
proof -
  from assms have "e \<noteq> []" and "take (length e) s = e"
    by (auto simp: leading_def find_Some_iff)
  then show ?thesis by (cases s) auto
qed

function strip :: "string list \<Rightarrow> string \<Rightarrow> string" where
  "strip encs s =
     (case leading encs s of None \<Rightarrow> s | Some e \<Rightarrow> strip encs (drop (length e) s))"
  by pat_completeness auto
termination
  by (relation "measure (\<lambda>(encs, s). length s)") (auto dest: leading_shorter)

declare strip.simps [simp del]

definition TrimSpace :: "string \<Rightarrow> string" where
  "TrimSpace s = rev (strip (map rev space_encodings) (rev (strip space_encodings s)))"

text \<open>Text of printable ASCII characters is left as it is.\<close>

definition graphic :: "char \<Rightarrow> bool" where
  "graphic c \<longleftrightarrow> 0x21 \<le> (of_char c :: nat) \<and> (of_char c :: nat) \<le> 0x7E"

lemma leading_graphic:
  assumes "list_all (\<lambda>e. e \<noteq> [] \<and> \<not> graphic (hd e)) encs" and "list_all graphic s"
  shows "leading encs s = None"
proof -
  have "\<not> (e \<noteq> [] \<and> take (length e) s = e)" if "e \<in> set encs" for e
  proof
    assume e: "e \<noteq> [] \<and> take (length e) s = e"
    then have "set e \<subseteq> set s" by (metis set_take_subset)
    moreover from e have "hd e \<in> set e" by simp
    ultimately have "graphic (hd e)" using assms(2) by (auto simp: list_all_iff)
    with assms(1) that show False by (auto simp: list_all_iff)
  qed
  then show ?thesis by (auto simp: leading_def find_None_iff)
qed

lemma TrimSpace_graphic:
  assumes "list_all graphic s"
  shows "TrimSpace s = s"
proof -
  have "list_all (\<lambda>e. e \<noteq> [] \<and> \<not> graphic (hd e)) space_encodings"
    "list_all (\<lambda>e. e \<noteq> [] \<and> \<not> graphic (hd e)) (map rev space_encodings)"
    by (simp_all add: space_encodings_def graphic_def)
  from this [THEN leading_graphic] assms
  have "strip space_encodings s = s" "strip (map rev space_encodings) (rev s) = rev s"
    by (simp_all add: strip.simps [of _ s] strip.simps [of _ "rev s"] list_all_iff)
  then show ?thesis by (simp add: TrimSpace_def)
qed

section \<open>Times and encodings\<close>

text \<open>
  \<open>t.UTC().Format(time.RFC3339)\<close> for a time given in seconds since the epoch: the civil date
  in the proleptic Gregorian calendar, then the time of day.
\<close>

definition civil_from_days :: "int \<Rightarrow> int \<times> int \<times> int" where
  "civil_from_days days =
     (let z = days + 719468;
          era = z div 146097;
          doe = z mod 146097;
          yoe = (doe - doe div 1460 + doe div 36524 - doe div 146096) div 365;
          doy = doe - (365 * yoe + yoe div 4 - yoe div 100);
          mp = (5 * doy + 2) div 153;
          d = doy - (153 * mp + 2) div 5 + 1;
          m = (if mp < 10 then mp + 3 else mp - 9);
          y = yoe + era * 400 + (if m \<le> 2 then 1 else 0)
      in (y, m, d))"

definition zero_pad :: "nat \<Rightarrow> int \<Rightarrow> string" where
  "zero_pad width n =
     (let ds = format_nat (nat \<bar>n\<bar>)
      in (if n < 0 then ''-'' else '''') @ replicate (width - length ds) (CHR ''0'') @ ds)"

definition rfc3339_utc :: "int \<Rightarrow> string" where
  "rfc3339_utc secs =
     (case civil_from_days (secs div 86400) of
        (y, m, d) \<Rightarrow>
          let s = secs mod 86400
          in zero_pad 4 y @ ''-'' @ zero_pad 2 m @ ''-'' @ zero_pad 2 d @ ''T'' @
             zero_pad 2 (s div 3600) @ '':'' @ zero_pad 2 (s mod 3600 div 60) @ '':'' @
             zero_pad 2 (s mod 60) @ ''Z'')"

lemma rfc3339_examples:
  "rfc3339_utc 0 = ''1970-01-01T00:00:00Z''"
  "rfc3339_utc 1709164799 = ''2024-02-28T23:59:59Z''"
  "rfc3339_utc 1709164800 = ''2024-02-29T00:00:00Z''"
  by code_simp+

text \<open>\<open>base64.StdEncoding.EncodeToString\<close>.\<close>

definition base64_char :: "nat \<Rightarrow> char" where
  "base64_char n =
     (if n < 26 then char_of (65 + n)
      else if n < 52 then char_of (71 + n)
      else if n < 62 then char_of (n - 4)
      else if n = 62 then CHR ''+'' else CHR ''/'')"

fun base64 :: "bytes \<Rightarrow> string" where
  "base64 [] = ''''"
| "base64 [a] =
     (let x = of_char a :: nat
      in [base64_char (x div 4), base64_char (x mod 4 * 16), CHR ''='', CHR ''=''])"
| "base64 [a, b] =
     (let x = of_char a :: nat; y = of_char b :: nat
      in [base64_char (x div 4), base64_char (x mod 4 * 16 + y div 16),
          base64_char (y mod 16 * 4), CHR ''=''])"
| "base64 (a # b # c # rest) =
     (let x = of_char a :: nat; y = of_char b :: nat; z = of_char c :: nat
      in [base64_char (x div 4), base64_char (x mod 4 * 16 + y div 16),
          base64_char (y mod 16 * 4 + z div 64), base64_char (z mod 64)] @ base64 rest)"

lemma base64_examples:
  "base64 ''foobar'' = ''Zm9vYmFy''"
  "base64 ''fooba'' = ''Zm9vYmE=''"
  "base64 ''foob'' = ''Zm9vYg==''"
  by code_simp+

end
