(* ===== verification/ConfigMap_Controller.thy ===== *)
theory ConfigMap_Controller
  imports Events Cmlib Post_Process Go_Stdlib
begin

text \<open>
  \<open>internal/controller/configmap_controller.go\<close>: a ConfigMap with insights is turned into a
  message, every post-processor that has not yet succeeded is run on it, and one update of the
  ConfigMap records the outcome: processed, or deferred to a later retry. The processors are those
  of a reconciler value; what the lemmas need of them is the locale \<open>processor_set\<close>, which is
  interpreted where the program's list of processors is defined.
\<close>

section \<open>Constants and state\<close>

definition postProcRetriesAnnotationKey :: string where
  "postProcRetriesAnnotationKey = ''insights.lagoon.sh/retries''"

definition maxRetryExceededLabelKey :: string where
  "maxRetryExceededLabelKey = ''insights.lagoon.sh/max-retry-exceeded''"

definition successfulPostProcessRun :: string where
  "successfulPostProcessRun = ''success''"

definition failedPostProcessRun :: string where
  "failedPostProcessRun = ''failure''"

record 'c ConfigMapReconciler =
  PostProcessors :: "'c post_processor option list"
  MinutesBetweenRetries :: int
  MaxNumberOfRetries :: int

section \<open>The message\<close>

text \<open>An explicit type label wins; otherwise the kind of data decides.\<close>

definition insightsTypeOf :: "string gomap \<Rightarrow> string" where
  "insightsTypeOf labels =
     (case mlookup labels ''insights.lagoon.sh/type'' of
        Some t \<Rightarrow> t
      | None \<Rightarrow>
          (case mlookup labels ''lagoon.sh/insightsType'' of
             None \<Rightarrow> InsightsTypeUnclassified
           | Some v \<Rightarrow>
               if v = ''sbom-gz'' then InsightsTypeSBOM
               else if v = ''image-gz'' then InsightsTypeInspect
               else InsightsTypeUnclassified))"

definition newInsightsMessage ::
  "ConfigMap \<Rightarrow> NamespaceObject \<Rightarrow> string \<Rightarrow> LagoonInsightsMessage" where
  "newInsightsMessage configMap nameSpace insightsType =
     \<lparr>MsgPayload = Data configMap,
      MsgBinaryPayload = BinaryData configMap,
      MsgAnnotations = Annotations configMap,
      MsgLabels = Labels configMap,
      MsgNamespace = Namespace configMap,
      MsgEnvironment = mget (Labels nameSpace) ''lagoon.sh/environment'',
      MsgService = mget (Labels configMap) ''lagoon.sh/service'',
      MsgProject = mget (Labels nameSpace) ''lagoon.sh/project'',
      MsgType = insightsType\<rparr>"

text \<open>The retry counter of a set of annotations; unreadable counts as a first run.\<close>

definition initialRetries :: "string gomap \<Rightarrow> int" where
  "initialRetries annotations =
     (case mlookup annotations postProcRetriesAnnotationKey of
        None \<Rightarrow> 0
      | Some retriesAnnotation \<Rightarrow>
          (case ParseInt 64 retriesAnnotation of
             (n, None) \<Rightarrow> n
           | (n, Some err) \<Rightarrow> 0))"

section \<open>Running the processors\<close>

text \<open>The loop, with the labels to retry and the annotations to write as accumulators.\<close>

fun runPostProcessors ::
  "'c post_processor option list \<Rightarrow> LagoonInsightsMessage \<Rightarrow> string list \<Rightarrow> (string, string) fmap
    \<Rightarrow> ('c, string list \<times> (string, string) fmap) comp" where
  "runPostProcessors [] msg retry annotations = ret (retry, annotations)"
| "runPostProcessors (None # processors) msg retry annotations =
     runPostProcessors processors msg retry annotations"
| "runPostProcessors (Some processor # processors) msg retry annotations =
     (if mlookup (MsgAnnotations msg) (ProcessorLabel processor) = Some successfulPostProcessRun
      then runPostProcessors processors msg retry annotations
      else
        bind (PostProcess processor msg) (\<lambda>result.
        case result of
          Inl err \<Rightarrow>
            runPostProcessors processors msg (retry @ [ProcessorLabel processor])
              (fmupd (ProcessorLabel processor @ ''-error'') (error_text err)
                (fmupd (ProcessorLabel processor) failedPostProcessRun annotations))
        | Inr _ \<Rightarrow>
            runPostProcessors processors msg retry
              (fmupd (ProcessorLabel processor) successfulPostProcessRun annotations)))"

text \<open>\<open>time.Minute * time.Duration(mins)\<close> is a product of 64-bit integers, in nanoseconds.\<close>

definition minutesFromNow :: "'c environment \<Rightarrow> int \<Rightarrow> ('c, string) comp" where
  "minutesFromNow E mins =
     bind (TimeNow E) (\<lambda>now.
     ret (FormatInt ((now + int64_of (60000000000 * mins)) div 1000000000)))"

text \<open>
  What is written after the loop: the labels, the annotations and the number of retries, which
  wraps at 64 bits.
\<close>

definition retryLabels :: "int \<Rightarrow> int \<Rightarrow> string \<Rightarrow> (string, string) fmap" where
  "retryLabels maxRetries numberOfRetries stamp =
     (let labels = fmap_of_list [(InsightsWriteDeferred, stamp)]
      in if numberOfRetries > maxRetries
         then fmupd maxRetryExceededLabelKey ''MAX_RETRY_EXCEEDED'' labels
         else labels)"

definition outcomeUpdates ::
  "'c environment \<Rightarrow> 'c ConfigMapReconciler \<Rightarrow> int \<Rightarrow> string list \<Rightarrow> (string, string) fmap
    \<Rightarrow> ('c, (string, string) fmap \<times> (string, string) fmap) comp" where
  "outcomeUpdates E R numberOfRetries retry annotations =
     (if retry \<noteq> []
      then
        bind (minutesFromNow E (MinutesBetweenRetries R)) (\<lambda>stamp.
        let retries = int64_of (numberOfRetries + 1) in
        ret (retryLabels (MaxNumberOfRetries R) retries stamp,
             fmupd postProcRetriesAnnotationKey (FormatInt retries) annotations))
      else
        bind (TimeNow E) (\<lambda>now.
        ret (fmempty,
             fmupd postProcRetriesAnnotationKey (FormatInt numberOfRetries)
               (fmupd InsightsUpdatedAnnotationLabel (rfc3339_utc (now div 1000000000))
                 annotations))))"

definition processConfigMap ::
  "'c environment \<Rightarrow> 'c ConfigMapReconciler \<Rightarrow> ConfigMap \<Rightarrow> LagoonInsightsMessage
    \<Rightarrow> ('c, go_error + unit) comp" where
  "processConfigMap E R configMap msg =
     bind (runPostProcessors (PostProcessors R) msg [] fmempty) (\<lambda>(retry, annotations).
     bind (outcomeUpdates E R (initialRetries (MsgAnnotations msg)) retry annotations)
       (\<lambda>(updateLabels, updateAnnotations).
     attempt (BatchUpdateCM E configMap (Some updateLabels) (Some updateAnnotations))
       (\<lambda>err. ret (Inl err)) (\<lambda>_. ret (Inr ()))))"

section \<open>Reconcile\<close>

definition reconcileConfigMap ::
  "'c environment \<Rightarrow> 'c ConfigMapReconciler \<Rightarrow> NamespacedName \<Rightarrow> ('c, go_error + unit) comp" where
  "reconcileConfigMap E R req =
     attempt (GetConfigMap E req) (\<lambda>err. ret (IgnoreNotFound err)) (\<lambda>configMap.
     attempt (GetNamespace E (KeyNamespace req)) (\<lambda>err. ret (IgnoreNotFound err)) (\<lambda>nameSpace.
     let insightsType = insightsTypeOf (Labels configMap) in
     if insightsType \<noteq> InsightsTypeSBOM \<and> insightsType \<noteq> InsightsTypeInspect
     then ret (Inl (Error
            (''insightsType '' @ [CHR 0x27] @ insightsType @ [CHR 0x27] @
             '' unrecognized - rejecting configMap'')))
     else processConfigMap E R configMap (newInsightsMessage configMap nameSpace insightsType)))"

section \<open>Event filters\<close>

definition labelExists :: "string \<Rightarrow> 'a ObjectMeta_scheme \<Rightarrow> bool" where
  "labelExists label obj =
     (\<exists>k\<in>fset (fmdom (mentries (Labels obj))). k = label \<or> mlookup (Labels obj) k = Some label)"

definition insightsProcessedAnnotationExists :: "'a ObjectMeta_scheme \<Rightarrow> bool" where
  "insightsProcessedAnnotationExists obj \<longleftrightarrow>
     mlookup (Annotations obj) InsightsUpdatedAnnotationLabel \<noteq> None"

definition insightLabelsOnlyPredicate :: "'a ObjectMeta_scheme predicate_funcs" where
  "insightLabelsOnlyPredicate =
     \<lparr>CreateFunc = Some (\<lambda>obj.
        labelExists InsightsLabel obj \<and> \<not> labelExists InsightsWriteDeferred obj \<and>
        \<not> insightsProcessedAnnotationExists obj),
      UpdateFunc = Some (\<lambda>old new.
        labelExists InsightsLabel new \<and> \<not> labelExists InsightsWriteDeferred new \<and>
        \<not> insightsProcessedAnnotationExists new),
      DeleteFunc = Some (\<lambda>obj. False),
      GenericFunc = None\<rparr>"

definition insightMaxRetryPredicate :: "'a ObjectMeta_scheme predicate_funcs" where
  "insightMaxRetryPredicate =
     \<lparr>CreateFunc = Some (\<lambda>obj. \<not> labelExists maxRetryExceededLabelKey obj),
      UpdateFunc = Some (\<lambda>old new. \<not> labelExists maxRetryExceededLabelKey new),
      DeleteFunc = Some (\<lambda>obj. False),
      GenericFunc = None\<rparr>"

text \<open>The filters \<open>SetupWithManager\<close> installs.\<close>

definition configMapFilters :: "'a ObjectMeta_scheme predicate_funcs list" where
  "configMapFilters = [insightLabelsOnlyPredicate, insightMaxRetryPredicate]"

definition setupConfigMapController :: "int \<Rightarrow> ConfigMap controller_setup" where
  "setupConfigMapController maxConcurrentReconciles =
     \<lparr>ForKind = ''ConfigMap'', EventFilters = configMapFilters,
      MaxConcurrentReconciles = Some maxConcurrentReconciles\<rparr>"

lemma labelExists_key: "mlookup (Labels obj) label = Some v \<Longrightarrow> labelExists label obj"
  unfolding labelExists_def by (intro bexI [of _ label]) (auto intro: fmdomI)

interpretation insight_labels: level_filter insightLabelsOnlyPredicate
  by unfold_locales (simp_all add: insightLabelsOnlyPredicate_def)

interpretation max_retry: level_filter insightMaxRetryPredicate
  by unfold_locales (simp_all add: insightMaxRetryPredicate_def)

text \<open>An object in this state is reconciled when it is created or updated.\<close>

definition eligible :: "'a ObjectMeta_scheme \<Rightarrow> bool" where
  "eligible obj = admitted configMapFilters (CreateEvent obj)"

lemma admitted_update_iff: "admitted configMapFilters (UpdateEvent old new) = eligible new"
  by (simp add: admitted_def eligible_def configMapFilters_def
      insight_labels.update_iff_create max_retry.update_iff_create del: admits.simps)

lemma eligible_iff:
  "eligible obj \<longleftrightarrow>
     labelExists InsightsLabel obj \<and> \<not> labelExists InsightsWriteDeferred obj \<and>
     \<not> insightsProcessedAnnotationExists obj \<and> \<not> labelExists maxRetryExceededLabelKey obj"
  by (simp add: eligible_def admitted_def configMapFilters_def insightLabelsOnlyPredicate_def
      insightMaxRetryPredicate_def)

end
