(* ===== verification/Processing.thy ===== *)
theory Processing
  imports ConfigMap_Controller
begin

text \<open>
  What the controller's loop over the post-processors computes, stated without its accumulators:
  run the pending processors in order, then record one outcome per processor. The equations hold
  for every list of processors; what more is known for a list with separate labels of confined
  processors is proved in the locale \<open>processor_set\<close>.
\<close>

section \<open>The specification\<close>

fun processors :: "'c post_processor option list \<Rightarrow> 'c post_processor list" where
  "processors [] = []"
| "processors (None # ps) = processors ps"
| "processors (Some p # ps) = p # processors ps"

text \<open>A processor is pending until its label is annotated with success.\<close>

definition succeeded :: "string gomap \<Rightarrow> string \<Rightarrow> bool" where
  "succeeded annotations label \<longleftrightarrow>
     mlookup annotations label = Some successfulPostProcessRun"

definition pending :: "string gomap \<Rightarrow> 'c post_processor option list \<Rightarrow> 'c post_processor list" where
  "pending annotations ps =
     filter (\<lambda>p. \<not> succeeded annotations (ProcessorLabel p)) (processors ps)"

type_synonym outcomes = "(string \<times> (go_error + unit)) list"

fun runAll ::
  "'c post_processor list \<Rightarrow> LagoonInsightsMessage \<Rightarrow> ('c, outcomes) comp" where
  "runAll [] msg = ret []"
| "runAll (p # ps) msg =
     bind (PostProcess p msg) (\<lambda>r. bind (runAll ps msg) (\<lambda>rs. ret ((ProcessorLabel p, r) # rs)))"

definition failures :: "outcomes \<Rightarrow> string list" where
  "failures rs = map fst (filter (\<lambda>(l, r). \<exists>err. r = Inl err) rs)"

fun outcomeAnnotations :: "outcomes \<Rightarrow> (string, string) fmap \<Rightarrow> (string, string) fmap" where
  "outcomeAnnotations [] m = m"
| "outcomeAnnotations ((l, Inl err) # rs) m =
     outcomeAnnotations rs
       (fmupd (l @ ''-error'') (error_text err) (fmupd l failedPostProcessRun m))"
| "outcomeAnnotations ((l, Inr u) # rs) m =
     outcomeAnnotations rs (fmupd l successfulPostProcessRun m)"

text \<open>The ConfigMap after a run with given outcomes, at a time in nanoseconds.\<close>

definition finishedAnnotations :: "int \<Rightarrow> outcomes \<Rightarrow> int \<Rightarrow> (string, string) fmap" where
  "finishedAnnotations retries rs now =
     fmupd postProcRetriesAnnotationKey (FormatInt retries)
       (fmupd InsightsUpdatedAnnotationLabel (rfc3339_utc (now div 1000000000))
          (outcomeAnnotations rs fmempty))"

definition deferredStamp :: "int \<Rightarrow> int \<Rightarrow> string" where
  "deferredStamp mins now = FormatInt ((now + int64_of (60000000000 * mins)) div 1000000000)"

definition recorded :: "'c ConfigMapReconciler \<Rightarrow> ConfigMap \<Rightarrow> outcomes \<Rightarrow> int \<Rightarrow> ConfigMap" where
  "recorded R configMap rs now =
     (let retries = initialRetries (Annotations configMap) in
      if failures rs = []
      then with_updates configMap (Some fmempty) (Some (finishedAnnotations retries rs now))
      else
        with_updates configMap
          (Some (retryLabels (MaxNumberOfRetries R) (int64_of (retries + 1))
                   (deferredStamp (MinutesBetweenRetries R) now)))
          (Some (fmupd postProcRetriesAnnotationKey (FormatInt (int64_of (retries + 1)))
                   (outcomeAnnotations rs fmempty))))"

section \<open>The loop refines it\<close>

lemma failures_simps [simp]:
  "failures [] = []"
  "failures ((l, Inl err) # rs) = l # failures rs"
  "failures ((l, Inr u) # rs) = failures rs"
  by (simp_all add: failures_def)

lemma runPostProcessors_eq:
  "runPostProcessors ps msg retry annotations =
     bind (runAll (pending (MsgAnnotations msg) ps) msg) (\<lambda>rs.
     ret (retry @ failures rs, outcomeAnnotations rs annotations))"
proof (induction ps msg retry annotations rule: runPostProcessors.induct)
  case (3 p ps msg retry annotations)
  show ?case
  proof (cases "succeeded (MsgAnnotations msg) (ProcessorLabel p)")
    case True
    with 3 show ?thesis by (simp add: succeeded_def pending_def)
  next
    case False
    let ?rest = "runAll (pending (MsgAnnotations msg) ps) msg"
    let ?done = "\<lambda>rs. ret (retry @ failures rs, outcomeAnnotations rs annotations)"
    from False 3 have
      "runPostProcessors (Some p # ps) msg retry annotations =
        bind (PostProcess p msg) (\<lambda>r. bind ?rest (\<lambda>rs. ?done ((ProcessorLabel p, r) # rs)))"
      by (auto simp: succeeded_def split: sum.split intro!: arg_cong [where f = "bind _"])
    also have "\<dots> = bind (PostProcess p msg) (\<lambda>r.
        bind (bind ?rest (\<lambda>rs. ret ((ProcessorLabel p, r) # rs))) ?done)"
      by (simp add: bind_assoc)
    also from False have "\<dots> = bind (runAll (pending (MsgAnnotations msg) (Some p # ps)) msg) ?done"
      by (simp add: pending_def bind_assoc)
    finally show ?thesis .
  qed
qed (simp_all add: pending_def)

lemma attempt_identity: "attempt m (\<lambda>err. ret (Inl err)) (\<lambda>u. ret (Inr ())) = m"
  by (rule ext) (auto simp: monad_defs split: prod.splits exec.splits sum.splits)

lemma BatchUpdateCM_nonempty:
  "\<not> (no_entries ul \<and> no_entries ua) \<Longrightarrow>
     BatchUpdateCM E cm ul ua = UpdateConfigMap E (with_updates cm ul ua)"
  by (auto simp: BatchUpdateCM_def attempt_identity)

lemma fmupd_not_empty [simp]: "fmdom (fmupd k v m) \<noteq> {||}"
  by simp

text \<open>The code's bookkeeping after the loop writes exactly the recorded ConfigMap.\<close>

lemma processConfigMap_eq:
  assumes "MsgAnnotations msg = Annotations configMap"
  shows "processConfigMap E R configMap msg =
    bind (runAll (pending (Annotations configMap) (PostProcessors R)) msg) (\<lambda>rs.
    bind (TimeNow E) (\<lambda>now.
    UpdateConfigMap E (recorded R configMap rs now)))"
  unfolding processConfigMap_def runPostProcessors_eq bind_assoc
  by (auto simp: assms bind_assoc outcomeUpdates_def minutesFromNow_def recorded_def
      finishedAnnotations_def deferredStamp_def Let_def BatchUpdateCM_nonempty attempt_identity
      intro!: arg_cong [where f = "bind _"])

section \<open>What the outcomes leave in the annotations\<close>

fun status :: "go_error + unit \<Rightarrow> string" where
  "status (Inl err) = failedPostProcessRun"
| "status (Inr u) = successfulPostProcessRun"

lemma status_values [simp]:
  "status r = successfulPostProcessRun \<longleftrightarrow> (\<exists>u. r = Inr u)"
  "failedPostProcessRun \<noteq> successfulPostProcessRun"
  by (cases r; simp add: successfulPostProcessRun_def failedPostProcessRun_def)+

lemma failures_empty: "failures rs = [] \<longleftrightarrow> (\<forall>(l, r)\<in>set rs. r = Inr ())"
proof (induction rs)
  case (Cons x rs)
  then show ?case by (cases x; cases "snd x") auto
qed simp

lemma outcomeAnnotations_untouched:
  assumes "\<forall>l\<in>fst ` set rs. k \<noteq> l \<and> k \<noteq> l @ ''-error''"
  shows "fmlookup (outcomeAnnotations rs m) k = fmlookup m k"
  using assms by (induction rs m rule: outcomeAnnotations.induct) auto

text \<open>Labels that are distinct and not the error annotation of one another keep their statuses.\<close>

definition separate_labels :: "string list \<Rightarrow> bool" where
  "separate_labels ls \<longleftrightarrow> distinct ls \<and> (\<forall>l\<in>set ls. \<forall>l'\<in>set ls. l \<noteq> l' @ ''-error'')"

lemma separate_labels_Cons:
  "separate_labels (l # ls) \<Longrightarrow>
     separate_labels ls \<and> (\<forall>l'\<in>set ls. l \<noteq> l' \<and> l \<noteq> l' @ ''-error'' \<and> l' \<noteq> l @ ''-error'')"
  by (auto simp: separate_labels_def)

lemma outcomeAnnotations_status:
  assumes "separate_labels (map fst rs)" and "(l, r) \<in> set rs"
  shows "fmlookup (outcomeAnnotations rs m) l = Some (status r)"
  using assms
proof (induction rs m rule: outcomeAnnotations.induct)
  case (2 k err rs m)
  note sep = separate_labels_Cons [OF 2(2) [simplified]]
  show ?case
  proof (cases "(l, r) = (k, Inl err)")
    case True
    with sep show ?thesis by (subst outcomeAnnotations.simps, subst outcomeAnnotations_untouched) auto
  next
    case False
    with 2 sep show ?thesis by auto
  qed
next
  case (3 k u rs m)
  note sep = separate_labels_Cons [OF 3(2) [simplified]]
  show ?case
  proof (cases "(l, r) = (k, Inr u)")
    case True
    with sep show ?thesis by (subst outcomeAnnotations.simps, subst outcomeAnnotations_untouched) auto
  next
    case False
    with 3 sep show ?thesis by auto
  qed
qed simp

lemma outcomeAnnotations_error:
  assumes "separate_labels (map fst rs)" and "(l, Inl err) \<in> set rs"
  shows "fmlookup (outcomeAnnotations rs m) (l @ ''-error'') = Some (error_text err)"
  using assms
proof (induction rs m rule: outcomeAnnotations.induct)
  case (2 k e rs m)
  note sep = separate_labels_Cons [OF 2(2) [simplified]]
  show ?case
  proof (cases "(l, Inl err) = (k, Inl e :: go_error + unit)")
    case True
    with sep show ?thesis by (subst outcomeAnnotations.simps, subst outcomeAnnotations_untouched) auto
  next
    case False
    with 2 sep show ?thesis by auto
  qed
next
  case (3 k u rs m)
  from separate_labels_Cons [OF 3(2) [simplified]] 3 show ?case by simp
qed simp

section \<open>A set of processors\<close>

text \<open>
  The contract of a reconciler's processors: each is confined, and what they write about
  themselves stays apart from one another and from the controller's own annotations.
\<close>

locale processor_set =
  fixes E :: "'c environment" and ps :: "'c post_processor option list"
  assumes confined: "p \<in> set (processors ps) \<Longrightarrow> confined_processor E p"
    and labels_separate: "separate_labels (map ProcessorLabel (processors ps))"
    and labels_unreserved: "p \<in> set (processors ps) \<Longrightarrow>
      k \<in> {postProcRetriesAnnotationKey, InsightsUpdatedAnnotationLabel} \<Longrightarrow>
      ProcessorLabel p \<noteq> k \<and> ProcessorLabel p @ ''-error'' \<noteq> k"
begin

lemma pending_processors: "set (pending annotations ps) \<subseteq> set (processors ps)"
  by (auto simp: pending_def)

lemma pending_separate: "separate_labels (map ProcessorLabel (pending annotations ps))"
  using labels_separate
  by (auto simp: separate_labels_def pending_def distinct_map intro: inj_on_subset)

lemma runAll_no_write: "set qs \<subseteq> set (processors ps) \<Longrightarrow> emits (\<lambda>e. \<not> kube_write e) (runAll qs msg)"
  by (induction qs)
    (auto intro!: emits_rules confined_processor.no_kube_write [OF confined])

lemma runAll_frames:
  "cm_store E view \<Longrightarrow> set qs \<subseteq> set (processors ps) \<Longrightarrow> frames view (runAll qs msg)"
proof (induction qs)
  case (Cons q qs)
  then have "frames view (PostProcess q msg)"
    by (auto intro: confined_processor.frames_store [OF confined])
  with Cons show ?case unfolding frames_def by (auto intro!: keeps_rules)
qed (auto simp: frames_def intro: keeps_rules)

end

lemma runAll_labels:
  "runAll qs msg w = (Returns rs, w') \<Longrightarrow> map fst rs = map ProcessorLabel qs"
proof (induction qs arbitrary: w rs w')
  case Nil
  then show ?case by (simp add: ret_def)
next
  case (Cons q qs)
  from Cons.prems obtain r w1 rs' where "runAll qs msg w1 = (Returns rs', w')"
    and "rs = (ProcessorLabel q, r) # rs'"
    by (auto simp: bind_def ret_def split: prod.splits exec.splits)
  with Cons.IH show ?case by simp
qed

section \<open>A reconciliation\<close>

text \<open>How a run ends: before any processor, in a processor's panic, or with one update.\<close>

definition accepted_type :: "ConfigMap \<Rightarrow> bool" where
  "accepted_type cm \<longleftrightarrow> insightsTypeOf (Labels cm) \<in> {InsightsTypeSBOM, InsightsTypeInspect}"

lemma newInsightsMessage_annotations [simp]:
  "MsgAnnotations (newInsightsMessage cm ns t) = Annotations cm"
  "MsgType (newInsightsMessage cm ns t) = t"
  by (simp_all add: newInsightsMessage_def)

lemma processConfigMap_cases:
  assumes "processConfigMap E R cm msg w = (r, w')" and msg: "MsgAnnotations msg = Annotations cm"
  obtains
    (Panicked) p where "runAll (pending (Annotations cm) (PostProcessors R)) msg w = (Panics p, w')"
      "r = Panics p"
  | (Recorded) rs w1 now c1 res c2 where
      "runAll (pending (Annotations cm) (PostProcessors R)) msg w = (Returns rs, w1)"
      "now_nanos E (outside w1) = (now, c1)"
      "update_configmap E (recorded R cm rs now) c1 = (res, c2)"
      "r = Returns res"
      "w' = w1\<lparr>outside := c2, calls := calls w1 @ [KUpdateConfigMap (recorded R cm rs now)]\<rparr>"
  using assms(1) unfolding processConfigMap_eq [OF msg]
proof (cases rule: bind_cases)
  case (Return rs w1)
  obtain now c1 where now: "now_nanos E (outside w1) = (now, c1)" by fastforce
  obtain res c2 where "update_configmap E (recorded R cm rs now) c1 = (res, c2)" by fastforce
  with Return now show thesis
    by (intro Recorded [OF Return(1) now])
      (auto simp: TimeNow_def UpdateConfigMap_def monad_defs)
qed (auto intro: Panicked)

lemma reconcileConfigMap_cases:
  assumes run: "reconcileConfigMap E R req w = (r, w')"
  obtains
    (Stopped) err where "fst (get_configmap E req (outside w)) = Inl err"
      "r = Returns (IgnoreNotFound err)" "calls w' = calls w @ [KGetConfigMap req]"
      "outside w' = snd (get_configmap E req (outside w))"
  | (NoNamespace) cm c1 err where "get_configmap E req (outside w) = (Inr cm, c1)"
      "fst (get_namespace E (KeyNamespace req) c1) = Inl err" "r = Returns (IgnoreNotFound err)"
      "calls w' = calls w @ [KGetConfigMap req, KGetNamespace (KeyNamespace req)]"
      "outside w' = snd (get_namespace E (KeyNamespace req) c1)"
  | (Rejected) cm c1 ns c2 where "get_configmap E req (outside w) = (Inr cm, c1)"
      "get_namespace E (KeyNamespace req) c1 = (Inr ns, c2)" "\<not> accepted_type cm"
      "\<exists>msg. r = Returns (Inl (Error msg))"
      "w' = w\<lparr>outside := c2,
         calls := calls w @ [KGetConfigMap req, KGetNamespace (KeyNamespace req)]\<rparr>"
  | (Processed) cm c1 ns c2 where "get_configmap E req (outside w) = (Inr cm, c1)"
      "get_namespace E (KeyNamespace req) c1 = (Inr ns, c2)" "accepted_type cm"
      "processConfigMap E R cm (newInsightsMessage cm ns (insightsTypeOf (Labels cm)))
         (w\<lparr>outside := c2,
            calls := calls w @ [KGetConfigMap req, KGetNamespace (KeyNamespace req)]\<rparr>) = (r, w')"
proof -
  obtain g c1 where get: "get_configmap E req (outside w) = (g, c1)" by fastforce
  note defs = reconcileConfigMap_def GetConfigMap_def GetNamespace_def monad_defs
  show thesis
  proof (cases g)
    case (Inl err)
    with run get show ?thesis by (intro Stopped [of err]) (auto simp: defs)
  next
    case (Inr cm)
    obtain n c2 where ns: "get_namespace E (KeyNamespace req) c1 = (n, c2)" by fastforce
    show ?thesis
    proof (cases n)
      case (Inl err)
      with run get Inr ns show ?thesis by (intro NoNamespace [of cm c1 err]) (auto simp: defs)
    next
      case ns': (Inr nameSpace)
      show ?thesis
      proof (cases "accepted_type cm")
        case True
        with run get Inr ns ns' show ?thesis
          by (intro Processed [of cm c1 nameSpace c2]) (auto simp: defs accepted_type_def)
      next
        case False
        with run get Inr ns ns' show ?thesis
          by (intro Rejected [of cm c1 nameSpace c2]) (auto simp: defs accepted_type_def)
      qed
    qed
  qed
qed

context processor_set
begin

text \<open>All a reconciliation writes is one ConfigMap, the recorded one.\<close>

lemma reconcile_writes:
  assumes R: "PostProcessors R = ps" and run: "reconcileConfigMap E R req w = (r, w')"
  shows "\<exists>ws. filter kube_write (calls w') = filter kube_write (calls w) @ ws \<and>
    (ws = [] \<or>
     (\<exists>cm rs now. fst (get_configmap E req (outside w)) = Inr cm \<and> accepted_type cm \<and>
        map fst rs = map ProcessorLabel (pending (Annotations cm) ps) \<and>
        ws = [KUpdateConfigMap (recorded R cm rs now)]))"
  using run
proof (cases rule: reconcileConfigMap_cases)
  case (Processed cm c1 ns c2)
  let ?msg = "newInsightsMessage cm ns (insightsTypeOf (Labels cm))"
  let ?w = "w\<lparr>outside := c2,
    calls := calls w @ [KGetConfigMap req, KGetNamespace (KeyNamespace req)]\<rparr>"
  have quiet: "filter kube_write (calls w1) = filter kube_write (calls w)"
    if "runAll (pending (Annotations cm) ps) ?msg ?w = (out, w1)" for out w1
  proof -
    from emitsE [OF runAll_no_write [OF pending_processors] that] obtain es
      where "calls w1 = calls ?w @ es" "list_all (\<lambda>e. \<not> kube_write e) es" .
    then show ?thesis by (simp add: filter_empty_conv list_all_iff)
  qed
  from Processed(4) newInsightsMessage_annotations(1) [of cm] show ?thesis
  proof (cases rule: processConfigMap_cases)
    case (Panicked p)
    with quiet R show ?thesis by (intro exI [of _ "[]"]) simp
  next
    case (Recorded rs w1 now d1 res d2)
    with quiet [of "Returns rs" w1] R runAll_labels [OF Recorded(1)] Processed show ?thesis
      by (intro exI [of _ "[KUpdateConfigMap (recorded R cm rs now)]"]) auto
  qed
qed (intro exI [of _ "[]"]; simp)+

text \<open>The same on what is stored.\<close>

lemma key_recorded [simp]: "key (recorded R cm rs now) = key cm"
  by (simp add: recorded_def Let_def)

lemma reconcile_effect:
  assumes store: "cm_store E view" and R: "PostProcessors R = ps"
    and run: "reconcileConfigMap E R req w = (r, w')"
  shows "view (outside w') = view (outside w) \<or>
    (\<exists>cm rs now. view (outside w) req = Some cm \<and> accepted_type cm \<and>
       map fst rs = map ProcessorLabel (pending (Annotations cm) ps) \<and>
       view (outside w') = (view (outside w))(req \<mapsto> recorded R cm rs now) \<and>
       r = Returns (Inr ()))"
proof -
  have get: "view (snd (get_configmap E req (outside w))) = view (outside w)"
    and ns: "view (snd (get_namespace E n c)) = view c" for n c
    using store by (auto simp: cm_store_def cm_reads_def cm_frame_def unaffected_def)
  from run show ?thesis
  proof (cases rule: reconcileConfigMap_cases)
    case (Stopped err)
    with get show ?thesis by simp
  next
    case (NoNamespace cm c1 err)
    with get ns show ?thesis by (metis snd_conv)
  next
    case (Rejected cm c1 ns' c2)
    with get ns [of "KeyNamespace req" c1] show ?thesis by simp
  next
    case (Processed cm c1 ns' c2)
    with get ns [of "KeyNamespace req" c1] have c2: "view c2 = view (outside w)" by simp
    from Processed(1) store have cm: "view (outside w) req = Some cm" and key: "key cm = req"
      by (metis cm_reads_def cm_store_def fst_conv)+
    let ?msg = "newInsightsMessage cm ns' (insightsTypeOf (Labels cm))"
    have quiet: "view (outside w1) = view (outside w)"
      if "runAll (pending (Annotations cm) ps) ?msg (w\<lparr>outside := c2, calls := cs\<rparr>) = (out, w1)"
      for out w1 cs
      using framesD [OF runAll_frames [OF store pending_processors] that] c2 by simp
    from Processed(4) newInsightsMessage_annotations(1) [of cm] show ?thesis
    proof (cases rule: processConfigMap_cases)
      case (Panicked p)
      with quiet R show ?thesis by auto
    next
      case (Recorded rs w1 now d1 res d2)
      from Recorded(1) quiet R have w1: "view (outside w1) = view (outside w)" by auto
      with Recorded(2) store have d1: "view d1 = view (outside w)"
        by (metis cm_store_def cm_frame_def unaffected_def snd_conv)
      show ?thesis
      proof (cases res)
        case (Inl err)
        with Recorded d1 store show ?thesis by (auto simp: cm_store_def cm_writes_def)
      next
        case (Inr u)
        with Recorded(3) store have "view d2 = (view d1)(key (recorded R cm rs now) \<mapsto> recorded R cm rs now)"
          by (simp add: cm_store_def cm_writes_def)
        with d1 key cm Inr Recorded(4,5) Processed(3) runAll_labels [OF Recorded(1)] R show ?thesis
          by auto
      qed
    qed
  qed
qed

end

section \<open>What is recorded\<close>

lemma mlookup_recorded_label:
  "mlookup (Labels (recorded R cm rs now)) k =
     (if failures rs \<noteq> [] \<and> k = InsightsWriteDeferred
      then Some (deferredStamp (MinutesBetweenRetries R) now)
      else if failures rs \<noteq> [] \<and> k = maxRetryExceededLabelKey \<and>
        int64_of (initialRetries (Annotations cm) + 1) > MaxNumberOfRetries R
      then Some ''MAX_RETRY_EXCEEDED''
      else mlookup (Labels cm) k)"
  by (simp add: recorded_def retryLabels_def maxRetryExceededLabelKey_def InsightsWriteDeferred_def
      fmlookup_of_list Let_def)

definition retriesAfter :: "outcomes \<Rightarrow> int \<Rightarrow> int" where
  "retriesAfter rs n = (if failures rs = [] then n else int64_of (n + 1))"

lemma mlookup_recorded_annotation:
  "mlookup (Annotations (recorded R cm rs now)) k =
     (if k = postProcRetriesAnnotationKey
      then Some (FormatInt (retriesAfter rs (initialRetries (Annotations cm))))
      else if failures rs = [] \<and> k = InsightsUpdatedAnnotationLabel
      then Some (rfc3339_utc (now div 1000000000))
      else
        (case fmlookup (outcomeAnnotations rs fmempty) k of
           None \<Rightarrow> mlookup (Annotations cm) k
         | Some v \<Rightarrow> Some v))"
  by (simp add: recorded_def retriesAfter_def finishedAnnotations_def Let_def
      postProcRetriesAnnotationKey_def InsightsUpdatedAnnotationLabel_def)

lemma recorded_content [simp]:
  "Data (recorded R cm rs now) = Data cm" "BinaryData (recorded R cm rs now) = BinaryData cm"
  by (simp_all add: recorded_def Let_def)

lemma initialRetries_fits: "fits 64 (initialRetries annotations)"
proof (cases "mlookup annotations postProcRetriesAnnotationKey")
  case None
  then show ?thesis by (simp add: initialRetries_def fits_0)
next
  case (Some v)
  obtain n e where p: "ParseInt 64 v = (n, e)" by fastforce
  with ParseInt_fits [of 64 v] have "fits 64 n" by simp
  with Some p show ?thesis by (cases e) (simp_all add: initialRetries_def fits_0)
qed

lemma retriesAfter_fits: "fits 64 n \<Longrightarrow> fits 64 (retriesAfter rs n)"
  by (simp add: retriesAfter_def)

lemma initialRetries_recorded:
  "initialRetries (Annotations (recorded R cm rs now)) =
     retriesAfter rs (initialRetries (Annotations cm))"
  using retriesAfter_fits [OF initialRetries_fits, of rs "Annotations cm"]
  by (simp add: initialRetries_def [of "Annotations (recorded R cm rs now)"]
      mlookup_recorded_annotation ParseInt_FormatInt)

context processor_set
begin

lemma outcome_keys:
  assumes "map fst rs = map ProcessorLabel (pending annotations ps)"
    and "k \<in> {postProcRetriesAnnotationKey, InsightsUpdatedAnnotationLabel}"
  shows "fmlookup (outcomeAnnotations rs fmempty) k = None"
proof -
  have "k \<noteq> l \<and> k \<noteq> l @ ''-error''" if "l \<in> fst ` set rs" for l
  proof -
    from that assms(1) have "l \<in> set (map ProcessorLabel (pending annotations ps))"
      by (metis set_map)
    then obtain p where "p \<in> set (processors ps)" "l = ProcessorLabel p"
      using pending_processors by auto
    with labels_unreserved [OF _ assms(2)] show ?thesis by auto
  qed
  then have "fmlookup (outcomeAnnotations rs fmempty) k = fmlookup fmempty k"
    by (intro outcomeAnnotations_untouched) blast
  then show ?thesis by simp
qed

text \<open>A processor's own annotation: its new status, or the success it had.\<close>

lemma recorded_status:
  assumes rs: "map fst rs = map ProcessorLabel (pending (Annotations cm) ps)"
    and p: "p \<in> set (processors ps)"
  shows "mlookup (Annotations (recorded R cm rs now)) (ProcessorLabel p) =
    (if succeeded (Annotations cm) (ProcessorLabel p) then Some successfulPostProcessRun
     else map_option status (map_of rs (ProcessorLabel p)))"
proof -
  let ?l = "ProcessorLabel p"
  have sep: "separate_labels (map fst rs)" using rs pending_separate by simp
  from labels_unreserved [OF p] have free:
    "?l \<noteq> postProcRetriesAnnotationKey" "?l \<noteq> InsightsUpdatedAnnotationLabel" by auto
  show ?thesis
  proof (cases "succeeded (Annotations cm) ?l")
    case True
    have "?l \<noteq> l \<and> ?l \<noteq> l @ ''-error''" if "l \<in> fst ` set rs" for l
    proof -
      from that rs have "l \<in> set (map ProcessorLabel (pending (Annotations cm) ps))"
        by (metis set_map)
      then obtain q where q: "q \<in> set (processors ps)" "l = ProcessorLabel q"
        "\<not> succeeded (Annotations cm) l" by (auto simp: pending_def)
      with True p labels_separate show ?thesis by (auto simp: separate_labels_def)
    qed
    then have "fmlookup (outcomeAnnotations rs fmempty) ?l = fmlookup fmempty ?l"
      by (intro outcomeAnnotations_untouched) blast
    with True free show ?thesis by (simp add: mlookup_recorded_annotation succeeded_def)
  next
    case False
    with p have "p \<in> set (pending (Annotations cm) ps)" by (simp add: pending_def)
    then have "?l \<in> fst ` set rs" by (metis image_eqI rs set_map)
    then obtain x where x: "(?l, x) \<in> set rs" by auto
    moreover from sep x have "map_of rs ?l = Some x" by (simp add: separate_labels_def)
    ultimately show ?thesis
      using False free outcomeAnnotations_status [OF sep x]
      by (simp add: mlookup_recorded_annotation)
  qed
qed

lemma recorded_processed:
  assumes "map fst rs = map ProcessorLabel (pending (Annotations cm) ps)"
  shows "insightsProcessedAnnotationExists (recorded R cm rs now) \<longleftrightarrow>
    failures rs = [] \<or> insightsProcessedAnnotationExists cm"
  using outcome_keys [OF assms, of InsightsUpdatedAnnotationLabel]
  by (simp add: insightsProcessedAnnotationExists_def mlookup_recorded_annotation
      postProcRetriesAnnotationKey_def InsightsUpdatedAnnotationLabel_def)

text \<open>A run without failures leaves every processor succeeded.\<close>

lemma recorded_all_succeeded:
  assumes "map fst rs = map ProcessorLabel (pending (Annotations cm) ps)" and "failures rs = []"
    and "p \<in> set (processors ps)"
  shows "succeeded (Annotations (recorded R cm rs now)) (ProcessorLabel p)"
proof (cases "succeeded (Annotations cm) (ProcessorLabel p)")
  case True
  with recorded_status [OF assms(1,3), of R now] show ?thesis by (simp add: succeeded_def)
next
  case False
  with assms(3) have "p \<in> set (pending (Annotations cm) ps)" by (simp add: pending_def)
  then have "ProcessorLabel p \<in> fst ` set rs" by (metis image_eqI assms(1) set_map)
  then obtain x where "map_of rs (ProcessorLabel p) = Some x"
    by (metis map_of_eq_None_iff not_None_eq)
  moreover from this assms(2) have "x = Inr ()" by (auto simp: failures_empty dest: map_of_SomeD)
  ultimately show ?thesis
    using recorded_status [OF assms(1,3), of R now] False by (simp add: succeeded_def)
qed

end

end
