(* ===== verification/Dependency_Track.thy ===== *)
theory Dependency_Track
  imports Post_Process Go_Stdlib
begin

text \<open>
  \<open>internal/postprocess/dependency_track\<close>: naming a project from templates, finding or creating
  the projects above it, uploading the SBOM and waiting for it to be processed; the processor for
  the central instance and the one for an instance configured by a namespace. Parameters are the
  Dependency Track client (part of the environment), the template engine, gzip, and which entry a
  range over a map sees first, which Go leaves open.
\<close>

section \<open>Templates\<close>

record Templates =
  ParentProjectNameTemplates :: "string list"
  ProjectNameTemplate :: string
  VersionTemplate :: string

record writeInfo =
  ParentProjectNames :: "string list"
  WriteProjectName :: string
  ProjectVersion :: string

record templateValues =
  TvServiceName :: string
  TvEnvironmentType :: string
  TvProjectName :: string
  TvEnvironmentName :: string
  TvVersion :: string

record deptrack_lib =
  template_parse :: "string \<Rightarrow> go_error + (templateValues \<Rightarrow> go_error + string)"
  gzip_open :: "bytes \<Rightarrow> go_error + (go_error + bytes)"
  map_first :: "(string, bytes) fmap \<Rightarrow> bytes"

definition lagoonShEnvironmentTypeProd :: string where
  "lagoonShEnvironmentTypeProd = ''production''"

definition newTemplate :: "string \<Rightarrow> string \<Rightarrow> string \<Rightarrow> string \<Rightarrow> Templates" where
  "newTemplate root parent project version =
     \<lparr>ParentProjectNameTemplates =
        (if parent \<noteq> '''' then (if root \<noteq> '''' then [root] else []) @ [parent] else []),
      ProjectNameTemplate = project,
      VersionTemplate = version\<rparr>"

text \<open>A parsed template is what executing it on values gives.\<close>

definition processTemplate :: "deptrack_lib \<Rightarrow> string \<Rightarrow> templateValues \<Rightarrow> go_error + string" where
  "processTemplate D templateString info =
     (case template_parse D templateString of
        Inl err \<Rightarrow> Inl err
      | Inr tmpl \<Rightarrow> tmpl info)"

fun processTemplates :: "deptrack_lib \<Rightarrow> string list \<Rightarrow> templateValues \<Rightarrow> go_error + string list" where
  "processTemplates D [] info = Inr []"
| "processTemplates D (t # ts) info =
     (case processTemplate D t info of
        Inl err \<Rightarrow> Inl err
      | Inr n \<Rightarrow>
          (case processTemplates D ts info of Inl err \<Rightarrow> Inl err | Inr ns \<Rightarrow> Inr (n # ns)))"

section \<open>What to write where\<close>

definition templateValuesOf :: "LagoonInsightsMessage \<Rightarrow> go_error + templateValues" where
  "templateValuesOf message =
     (case (if MsgProject message = '''' then mlookup (MsgLabels message) ''lagoon.sh/project''
            else Some (MsgProject message)) of
        None \<Rightarrow> Inl (Error ''no project name found - unable to populate info for dependency track'')
      | Some projectName \<Rightarrow>
     (case (if MsgEnvironment message = ''''
            then mlookup (MsgLabels message) ''lagoon.sh/environment''
            else Some (MsgEnvironment message)) of
        None \<Rightarrow>
          Inl (Error ''no environment name found - unable to populate info for dependency track'')
      | Some environmentName \<Rightarrow>
     (case mlookup (MsgLabels message) ''lagoon.sh/service'' of
        None \<Rightarrow>
          Inl (Error ''no service annotation found - unable to populate info for dependency track'')
      | Some serviceName \<Rightarrow>
          Inr \<lparr>TvServiceName = serviceName,
               TvEnvironmentType =
                 (case mlookup (MsgLabels message) ''lagoon.sh/environmentType'' of
                    None \<Rightarrow> ''unknown'' | Some val \<Rightarrow> val),
               TvProjectName = projectName,
               TvEnvironmentName = environmentName,
               TvVersion = ''''\<rparr>)))"

definition getWriteInfo ::
  "deptrack_lib \<Rightarrow> LagoonInsightsMessage \<Rightarrow> Templates \<Rightarrow> go_error + writeInfo" where
  "getWriteInfo D message templates =
     (case templateValuesOf message of
        Inl err \<Rightarrow> Inl err
      | Inr values \<Rightarrow>
     (case processTemplates D (ParentProjectNameTemplates templates) values of
        Inl err \<Rightarrow> Inl err
      | Inr parents \<Rightarrow>
     (case processTemplate D (ProjectNameTemplate templates) values of
        Inl err \<Rightarrow> Inl err
      | Inr projectName \<Rightarrow>
     (case processTemplate D (VersionTemplate templates) values of
        Inl err \<Rightarrow> Inl err
      | Inr version \<Rightarrow>
          Inr \<lparr>ParentProjectNames = parents, WriteProjectName = projectName,
               ProjectVersion = version\<rparr>))))"

section \<open>Projects\<close>

text \<open>The loop over the projects of a name: the first whose full object has the parent.\<close>

fun findChild ::
  "'c environment \<Rightarrow> dt_client \<Rightarrow> string \<Rightarrow> string \<Rightarrow> dt_project list
    \<Rightarrow> ('c, go_error + dt_project) comp" where
  "findChild E client projectName parent [] =
     ret (Inl (Error (''parent project '' @ parent @ '' not found for '' @ projectName)))"
| "findChild E client projectName parent (project # projects) =
     attempt (GetProject E client (ProjectUUID project)) (\<lambda>err. ret (Inl err)) (\<lambda>fullProject.
     if ProjectParent fullProject = Some parent then ret (Inr fullProject)
     else findChild E client projectName parent projects)"

definition getOrCreateProject ::
  "'c environment \<Rightarrow> dt_client \<Rightarrow> string \<Rightarrow> string option \<Rightarrow> bool
    \<Rightarrow> ('c, go_error + dt_project) comp" where
  "getOrCreateProject E client projectName parentProject leafProject =
     attempt (GetProjectsForName E client projectName) (\<lambda>err. ret (Inl err)) (\<lambda>projects.
     case projects of
       [] \<Rightarrow>
         attempt
           (CreateProject E client
              \<lparr>ProjectUUID = '''', ProjectName = projectName, ProjectActive = True,
               ProjectParent = parentProject, LastBOMImport = 0,
               CollectionLogic =
                 Some (if \<not> leafProject then CollectionLogicAggregateDirectChildren
                       else CollectionLogicNone)\<rparr>)
           (\<lambda>err. ret (Inl err)) (\<lambda>project. ret (Inr project))
     | first # _ \<Rightarrow>
         (case parentProject of
            Some parent \<Rightarrow> findChild E client projectName parent projects
          | None \<Rightarrow> ret (Inr first)))"

text \<open>The loop over the parent names; \<open>project\<close> is the one of the name before.\<close>

fun createParents ::
  "'c environment \<Rightarrow> dt_client \<Rightarrow> string list \<Rightarrow> dt_project option
    \<Rightarrow> ('c, go_error + dt_project option) comp" where
  "createParents E client [] project = ret (Inr project)"
| "createParents E client (projectName # projectNames) project =
     attempt (getOrCreateProject E client projectName (map_option ProjectUUID project) False)
       (\<lambda>err. ret (Inl err)) (\<lambda>projectObj.
     createParents E client projectNames (Some projectObj))"

section \<open>Uploading\<close>

definition unzipByteStream :: "deptrack_lib \<Rightarrow> bytes \<Rightarrow> go_error + bytes" where
  "unzipByteStream D input =
     (case gzip_open D input of Inl err \<Rightarrow> Inl err | Inr copied \<Rightarrow> copied)"

text \<open>
  The goroutine that polls until the upload is processed, and the \<open>select\<close> that receives its
  outcome. Once the timeout has fired, both channels of the goroutine's own \<open>select\<close> can be ready
  and Go picks either, so how many ticks are taken before the timeout is, is the environment's. This
  is the outcome as a function of that number; theory \<open>Polling\<close> has the two threads, the ticker,
  the timeout and the channels, and shows that they have exactly these outcomes.
\<close>

fun awaitProcessing ::
  "'c environment \<Rightarrow> dt_client \<Rightarrow> string \<Rightarrow> nat \<Rightarrow> ('c, go_error + unit) comp" where
  "awaitProcessing E client uploadToken 0 = ret (Inl (Error ''timeout exceeded''))"
| "awaitProcessing E client uploadToken (Suc ticks) =
     attempt (IsBeingProcessed E client uploadToken) (\<lambda>err. ret (Inl err)) (\<lambda>processing.
     if \<not> processing then ret (Inr ())
     else awaitProcessing E client uploadToken ticks)"

definition environmentTypeTags :: "LagoonInsightsMessage \<Rightarrow> string list" where
  "environmentTypeTags message =
     (case mlookup (MsgLabels message) ''lagoon.sh/environmentType'' of
        None \<Rightarrow> []
      | Some val \<Rightarrow> [''lagoon-environmenttype-'' @ val])"

definition firstPayload :: "deptrack_lib \<Rightarrow> LagoonInsightsMessage \<Rightarrow> bytes" where
  "firstPayload D message =
     (if fmdom (mentries (MsgBinaryPayload message)) = {||} then []
      else map_first D (mentries (MsgBinaryPayload message)))"

text \<open>\<open>&project.UUID\<close> panics for a nil \<open>project\<close>: no parent template, no project.\<close>

definition postProcess ::
  "'c environment \<Rightarrow> deptrack_lib \<Rightarrow> LagoonInsightsMessage \<Rightarrow> bool \<Rightarrow> Templates \<Rightarrow> dt_client
    \<Rightarrow> ('c, go_error + unit) comp" where
  "postProcess E D message pushProdOnly templates client =
     attempt (ret (getWriteInfo D message templates)) (\<lambda>err. ret (Inl err)) (\<lambda>info.
     let environmentType = mget (MsgLabels message) ''lagoon.sh/environmentType'' in
     if pushProdOnly \<and> environmentType \<noteq> lagoonShEnvironmentTypeProd then ret (Inr ())
     else
       attempt (createParents E client (ParentProjectNames info) None)
         (\<lambda>err. ret (Inl err)) (\<lambda>project.
       attempt (ret (unzipByteStream D (firstPayload D message)))
         (\<lambda>err. ret (Inl err)) (\<lambda>unzippedPayload.
       case project of
         None \<Rightarrow> panic ''runtime error: invalid memory address or nil pointer dereference''
       | Some p \<Rightarrow>
           attempt
             (Upload E client
                \<lparr>BomProjectName = WriteProjectName info, BomParentUUID = Some (ProjectUUID p),
                 BomAutoCreate = True, BomProjectVersion = ProjectVersion info,
                 BomBOM = base64 unzippedPayload,
                 BomProjectTags = environmentTypeTags message\<rparr>)
             (\<lambda>err. ret (Inl err)) (\<lambda>uploadToken.
           bind (TicksBeforeTimeout E) (\<lambda>ticks.
           awaitProcessing E client uploadToken ticks)))))"

section \<open>The two processors\<close>

record DefaultPostProcess =
  DefaultApiEndpoint :: string
  DefaultApiKey :: string
  DefaultTemplates :: Templates
  DefaultPushProdOnly :: bool

record CustomPostProcess =
  CustomTemplates :: Templates
  CustomPushProdOnly :: bool

definition defaultLabel :: string where
  "defaultLabel = ''dependencytrack.insights.lagoon.sh/default-status''"

definition customLabel :: string where
  "customLabel = ''dependencytrack.insights.lagoon.sh/custom-status''"

definition defaultPostProcess ::
  "'c environment \<Rightarrow> deptrack_lib \<Rightarrow> DefaultPostProcess \<Rightarrow> LagoonInsightsMessage
    \<Rightarrow> ('c, go_error + unit) comp" where
  "defaultPostProcess E D d message =
     (if MsgType message \<noteq> InsightsTypeSBOM then ret (Inr ())
      else attempt (DtClient E (DefaultApiEndpoint d) (DefaultApiKey d))
             (\<lambda>err. ret (Inl err)) (\<lambda>client.
           postProcess E D message (DefaultPushProdOnly d) (DefaultTemplates d) client))"

definition NewDefaultPostProcessor ::
  "bool \<Rightarrow> string \<Rightarrow> string \<Rightarrow> bool \<Rightarrow> string \<Rightarrow> string \<Rightarrow> string \<Rightarrow> string
    \<Rightarrow> DefaultPostProcess option" where
  "NewDefaultPostProcessor enable endpoint apiKey pushProdOnly root parent project version =
     (if \<not> enable then None
      else if endpoint = '''' \<or> apiKey = '''' then None
      else Some \<lparr>DefaultApiEndpoint = endpoint, DefaultApiKey = apiKey,
                 DefaultTemplates = newTemplate root parent project version,
                 DefaultPushProdOnly = pushProdOnly\<rparr>)"

definition lagoonEnvDTAPIKey :: string where
  "lagoonEnvDTAPIKey = ''LAGOON_FEATURE_FLAG_INSIGHTS_DEPENDENCY_TRACK_API_KEY''"

definition lagoonEnvDTPushProdOnly :: string where
  "lagoonEnvDTPushProdOnly = ''LAGOON_FEATURE_FLAG_INSIGHTS_DEPENDENCY_TRACK_PUSH_PROD_ONLY''"

definition resolvePushProdOnly :: "bool \<Rightarrow> bytes gomap \<Rightarrow> bool" where
  "resolvePushProdOnly globalDefault secretData =
     (case mlookup secretData lagoonEnvDTPushProdOnly of
        None \<Rightarrow> globalDefault
      | Some val \<Rightarrow>
          if val = [] then globalDefault
          else (case ParseBool val of None \<Rightarrow> globalDefault | Some parsed \<Rightarrow> parsed))"

definition customPostProcess ::
  "'c environment \<Rightarrow> deptrack_lib \<Rightarrow> CustomPostProcess \<Rightarrow> LagoonInsightsMessage
    \<Rightarrow> ('c, go_error + unit) comp" where
  "customPostProcess E D d message =
     (if MsgType message \<noteq> InsightsTypeSBOM then ret (Inr ())
      else
        let apiEndpoint =
              mget (MsgAnnotations message) ''dependencytrack.insights.lagoon.sh/custom-endpoint''
        in
        if apiEndpoint = '''' then ret (Inr ())
        else
          attempt (GetSecret E (NamespacedName (MsgNamespace message) ''lagoon-env''))
            (\<lambda>err. ret (Inl (wrap_error ''failed to load custom key: '' err))) (\<lambda>secret.
          let apiKey = mget (SecretData secret) lagoonEnvDTAPIKey in
          if apiKey = [] then ret (Inl (Error ''failed to load custom key''))
          else
            attempt (DtClient E apiEndpoint apiKey) (\<lambda>err. ret (Inl err)) (\<lambda>client.
            postProcess E D message
              (resolvePushProdOnly (CustomPushProdOnly d) (SecretData secret))
              (CustomTemplates d) client)))"

definition NewCustomPostProcessor ::
  "bool \<Rightarrow> bool \<Rightarrow> string \<Rightarrow> string \<Rightarrow> string \<Rightarrow> string \<Rightarrow> CustomPostProcess option" where
  "NewCustomPostProcessor enable pushProdOnly root parent project version =
     (if \<not> enable then None
      else Some \<lparr>CustomTemplates = newTemplate root parent project version,
                 CustomPushProdOnly = pushProdOnly\<rparr>)"

definition default_processor ::
  "'c environment \<Rightarrow> deptrack_lib \<Rightarrow> DefaultPostProcess \<Rightarrow> 'c post_processor" where
  "default_processor E D d =
     \<lparr>ProcessorLabel = defaultLabel, PostProcess = defaultPostProcess E D d\<rparr>"

definition custom_processor ::
  "'c environment \<Rightarrow> deptrack_lib \<Rightarrow> CustomPostProcess \<Rightarrow> 'c post_processor" where
  "custom_processor E D d =
     \<lparr>ProcessorLabel = customLabel, PostProcess = customPostProcess E D d\<rparr>"

section \<open>The calls they make\<close>

lemma findChild_emits:
  "(\<And>u. A (DtGetProject client u)) \<Longrightarrow> emits A (findChild E client n par ps)"
  by (induction ps) (auto intro!: emits_rules)

lemma getOrCreateProject_emits:
  assumes "\<And>u. A (DtGetProject client u)" and "A (DtGetProjectsForName client n)"
    and "\<And>p. ProjectName p = n \<Longrightarrow> ProjectParent p = par \<Longrightarrow> A (DtCreateProject client p)"
  shows "emits A (getOrCreateProject E client n par leaf)"
  unfolding getOrCreateProject_def
  by (intro emits_rules findChild_emits) (auto intro: assms)

lemma createParents_emits:
  assumes "\<And>e. dt_effect e \<Longrightarrow> A e"
  shows "emits A (createParents E client ns project)"
  by (induction ns arbitrary: project)
    (auto intro!: emits_rules getOrCreateProject_emits simp: assms)

lemma awaitProcessing_emits:
  assumes "A (DtIsBeingProcessed client t)"
  shows "emits A (awaitProcessing E client t n)"
  by (induction n) (auto intro!: emits_rules assms)

lemma postProcess_emits:
  assumes "\<And>e. dt_effect e \<Longrightarrow> A e"
  shows "emits A (postProcess E D message only templates client)"
  unfolding postProcess_def Let_def
  by (intro emits_rules createParents_emits awaitProcessing_emits) (simp_all add: assms)

lemma dt_effect_no_write: "dt_effect e \<Longrightarrow> \<not> kube_write e"
  by (cases e) simp_all

lemma findChild_keeps:
  assumes "cm_store E view"
  shows "keeps (\<lambda>c. view c = v) (findChild E client n par ps)"
  by (induction ps) (auto intro!: keeps_rules assms)

lemma createParents_keeps:
  assumes "cm_store E view"
  shows "keeps (\<lambda>c. view c = v) (createParents E client ns project)"
proof (induction ns arbitrary: project)
  case Nil
  then show ?case by (simp add: keeps_ret)
next
  case (Cons n ns)
  then show ?case
    by (auto simp: getOrCreateProject_def intro!: keeps_rules findChild_keeps assms)
qed

lemma awaitProcessing_keeps:
  assumes "cm_store E view"
  shows "keeps (\<lambda>c. view c = v) (awaitProcessing E client t n)"
  by (induction n) (auto intro!: keeps_rules assms)

lemma postProcess_keeps:
  assumes "cm_store E view"
  shows "keeps (\<lambda>c. view c = v) (postProcess E D message only templates client)"
  unfolding postProcess_def Let_def
  by (intro keeps_rules createParents_keeps awaitProcessing_keeps assms)

interpretation default: confined_processor E "default_processor E D d" for E D d
proof unfold_locales
  fix msg
  show "emits (\<lambda>e. \<not> kube_write e) (PostProcess (default_processor E D d) msg)"
    by (auto simp: default_processor_def defaultPostProcess_def
        intro!: emits_rules postProcess_emits dest: dt_effect_no_write)
next
  fix view msg
  assume "cm_store E view"
  then show "frames view (PostProcess (default_processor E D d) msg)"
    by (auto simp: default_processor_def defaultPostProcess_def
        intro!: framesI keeps_rules postProcess_keeps)
qed

interpretation custom: confined_processor E "custom_processor E D d" for E D d
proof unfold_locales
  fix msg
  show "emits (\<lambda>e. \<not> kube_write e) (PostProcess (custom_processor E D d) msg)"
    by (auto simp: custom_processor_def customPostProcess_def Let_def
        intro!: emits_rules postProcess_emits dest: dt_effect_no_write)
next
  fix view msg
  assume "cm_store E view"
  then show "frames view (PostProcess (custom_processor E D d) msg)"
    by (auto simp: custom_processor_def customPostProcess_def Let_def
        intro!: framesI keeps_rules postProcess_keeps)
qed

end
