(* ===== verification/Tokens.thy ===== *)
theory Tokens
  imports Prelude
begin

text \<open>
  \<open>internal/tokens/jwt.go\<close>: the tokens that tell the web service which namespace a request
  speaks for. The JWT library is a parameter, \<open>jwt_lib\<close>; what the code relies on is
  \<open>jwt_round_trip\<close> and \<open>jwt_checks\<close>. The model follows the code in dereferencing the parsed token before looking at
  the error, which panics where the library returns no token at all.
\<close>

section \<open>The library's interface\<close>

text \<open>
  A claim as decoded from JSON. \<open>COther\<close> carries what \<open>%v\<close> prints of a number, an array or
  an object.
\<close>

datatype claim_value = CString string | CBool bool | CNil | COther string

fun sprint_v :: "claim_value \<Rightarrow> string" where
  "sprint_v (CString s) = s"
| "sprint_v (CBool b) = (if b then ''true'' else ''false'')"
| "sprint_v CNil = ''<nil>''"
| "sprint_v (COther s) = s"

datatype signing_method = SigningMethodHMAC string | OtherSigningMethod string

text \<open>\<open>MapClaims\<close> is \<open>None\<close> where the claims are of another Go type.\<close>

record jwt_token =
  Method :: signing_method
  HeaderAlg :: string
  MapClaims :: "(string, claim_value) fmap option"
  Valid :: bool

type_synonym keyfunc = "jwt_token \<Rightarrow> go_error + bytes"

record jwt_lib =
  jwt_signed_string ::
    "signing_method \<Rightarrow> (string, claim_value) fmap \<Rightarrow> bytes \<Rightarrow> string \<times> go_error option"
  jwt_parse :: "string \<Rightarrow> keyfunc \<Rightarrow> jwt_token option \<times> go_error option"

section \<open>Issuing and validating\<close>

record NamespaceDetails =
  TokenNamespace :: string
  TokenEnvironmentId :: string
  TokenProjectName :: string
  TokenEnvironmentName :: string

definition no_details :: NamespaceDetails where
  "no_details =
     \<lparr>TokenNamespace = '''', TokenEnvironmentId = '''', TokenProjectName = '''',
      TokenEnvironmentName = ''''\<rparr>"

definition namespace_claims :: "NamespaceDetails \<Rightarrow> (string, claim_value) fmap" where
  "namespace_claims d =
     fmap_of_list
       [(''Namespace'', CString (TokenNamespace d)),
        (''EnvironmentId'', CString (TokenEnvironmentId d)),
        (''ProjectName'', CString (TokenProjectName d)),
        (''EnvironmentName'', CString (TokenEnvironmentName d))]"

definition GenerateTokenForNamespace ::
  "jwt_lib \<Rightarrow> string \<Rightarrow> NamespaceDetails \<Rightarrow> string \<times> go_error option" where
  "GenerateTokenForNamespace L secret details =
     jwt_signed_string L (SigningMethodHMAC ''HS256'') (namespace_claims details) secret"

text \<open>The key is only given out for the HMAC family.\<close>

definition hmacKeyFunc :: "string \<Rightarrow> keyfunc" where
  "hmacKeyFunc k t =
     (case Method t of
        SigningMethodHMAC alg \<Rightarrow> Inr k
      | OtherSigningMethod alg \<Rightarrow> Inl (Error (''unexpected signing method: '' @ HeaderAlg t)))"

text \<open>
  The four lookups, in the code's order; the details read before a missing one are returned with
  the error.
\<close>

definition extractDetails ::
  "(string, claim_value) fmap \<Rightarrow> NamespaceDetails \<times> go_error option" where
  "extractDetails claims =
     (case fmlookup claims ''EnvironmentId'' of
        None \<Rightarrow> (no_details, Some (Error ''unable to find key 'EnvironmentId' in valid token''))
      | Some environmentId \<Rightarrow>
     let d1 = no_details\<lparr>TokenEnvironmentId := sprint_v environmentId\<rparr> in
     (case fmlookup claims ''Namespace'' of
        None \<Rightarrow> (d1, Some (Error ''unable to find key 'Namespace' in valid token''))
      | Some namespace \<Rightarrow>
     let d2 = d1\<lparr>TokenNamespace := sprint_v namespace\<rparr> in
     (case fmlookup claims ''EnvironmentName'' of
        None \<Rightarrow> (d2, Some (Error ''unable to find key 'EnvironmentName' in valid token''))
      | Some environmentName \<Rightarrow>
     let d3 = d2\<lparr>TokenEnvironmentName := sprint_v environmentName\<rparr> in
     (case fmlookup claims ''ProjectName'' of
        None \<Rightarrow> (d3, Some (Error ''unable to find key 'ProjectName' in valid token''))
      | Some projectName \<Rightarrow> (d3\<lparr>TokenProjectName := sprint_v projectName\<rparr>, None)))))"

definition nil_dereference :: string where
  "nil_dereference = ''runtime error: invalid memory address or nil pointer dereference''"

definition ValidateAndExtractNamespaceDetailsFromToken ::
  "jwt_lib \<Rightarrow> string \<Rightarrow> string \<Rightarrow> (NamespaceDetails \<times> go_error option) exec" where
  "ValidateAndExtractNamespaceDetailsFromToken L k token =
     (case jwt_parse L token (hmacKeyFunc k) of
        (None, err) \<Rightarrow> Panics nil_dereference
      | (Some outToken, err) \<Rightarrow>
          (case MapClaims outToken of
             None \<Rightarrow> Returns (no_details, err)
           | Some claims \<Rightarrow>
               if Valid outToken then Returns (extractDetails claims)
               else Returns (no_details, err)))"

section \<open>What the code relies on\<close>

text \<open>
  Details made of 7-bit characters, which JSON carries unchanged, signed with HS256 under a key,
  parse, under a key function that gives this key, to the claims that were signed, valid and
  without error. A token is only ever valid if the key function gave a key for it and the error is
  nil, and its claims are the \<open>MapClaims\<close> that \<open>jwt.Parse\<close> asks for; an invalid one comes
  with an error.
\<close>

definition plain_text :: "string \<Rightarrow> bool" where
  "plain_text s \<longleftrightarrow> list_all (\<lambda>c. \<not> digit7 c) s"

definition plain_details :: "NamespaceDetails \<Rightarrow> bool" where
  "plain_details d \<longleftrightarrow>
     plain_text (TokenNamespace d) \<and> plain_text (TokenEnvironmentId d) \<and>
     plain_text (TokenProjectName d) \<and> plain_text (TokenEnvironmentName d)"

definition signed_token :: "(string, claim_value) fmap \<Rightarrow> bool \<Rightarrow> jwt_token" where
  "signed_token claims v =
     \<lparr>Method = SigningMethodHMAC ''HS256'', HeaderAlg = ''HS256'', MapClaims = Some claims,
      Valid = v\<rparr>"

definition jwt_round_trip :: "jwt_lib \<Rightarrow> bool" where
  "jwt_round_trip L \<longleftrightarrow>
     (\<forall>k d tok kf.
        plain_details d \<longrightarrow>
        jwt_signed_string L (SigningMethodHMAC ''HS256'') (namespace_claims d) k = (tok, None) \<longrightarrow>
        kf (signed_token (namespace_claims d) False) = Inr k \<longrightarrow>
        jwt_parse L tok kf = (Some (signed_token (namespace_claims d) True), None))"

definition jwt_checks :: "jwt_lib \<Rightarrow> bool" where
  "jwt_checks L \<longleftrightarrow>
     (\<forall>tok kf t e. jwt_parse L tok kf = (Some t, e) \<longrightarrow>
        (if Valid t
         then MapClaims t \<noteq> None \<and> e = None \<and> (\<exists>k. kf (t\<lparr>Valid := False\<rparr>) = Inr k)
         else e \<noteq> None))"

section \<open>Lemmas\<close>

lemma hmacKeyFunc_signed [simp]: "hmacKeyFunc k (signed_token claims v) = Inr k"
  by (simp add: hmacKeyFunc_def signed_token_def)

lemma signed_token_simps [simp]:
  "MapClaims (signed_token claims v) = Some claims"
  "Valid (signed_token claims v) = v"
  by (simp_all add: signed_token_def)

lemma extract_namespace_claims [simp]: "extractDetails (namespace_claims d) = (d, None)"
  by (simp add: extractDetails_def namespace_claims_def no_details_def)

lemma validate_parsed:
  "jwt_parse L token (hmacKeyFunc k) = (Some t, err) \<Longrightarrow> Valid t \<Longrightarrow> MapClaims t = Some claims \<Longrightarrow>
     ValidateAndExtractNamespaceDetailsFromToken L k token = Returns (extractDetails claims)"
  by (simp add: ValidateAndExtractNamespaceDetailsFromToken_def)

lemma validate_issued:
  assumes "jwt_round_trip L" and "plain_details d"
    and "GenerateTokenForNamespace L k d = (tok, None)"
  shows "ValidateAndExtractNamespaceDetailsFromToken L k tok = Returns (d, None)"
proof -
  from assms have "jwt_parse L tok (hmacKeyFunc k) =
      (Some (signed_token (namespace_claims d) True), None)"
    unfolding jwt_round_trip_def GenerateTokenForNamespace_def by simp
  then show ?thesis
    by (simp add: ValidateAndExtractNamespaceDetailsFromToken_def)
qed

lemma extractDetails_complete:
  "extractDetails claims = (d, None) \<longleftrightarrow>
     (\<exists>e n en p. fmlookup claims ''EnvironmentId'' = Some e \<and> fmlookup claims ''Namespace'' = Some n \<and>
        fmlookup claims ''EnvironmentName'' = Some en \<and> fmlookup claims ''ProjectName'' = Some p \<and>
        d = \<lparr>TokenNamespace = sprint_v n, TokenEnvironmentId = sprint_v e,
             TokenProjectName = sprint_v p, TokenEnvironmentName = sprint_v en\<rparr>)"
  by (auto simp: extractDetails_def no_details_def Let_def split: option.splits)

text \<open>An accepted token: the library found it valid, signed by the HMAC family.\<close>

lemma validate_accepts:
  assumes "jwt_checks L"
    and acc: "ValidateAndExtractNamespaceDetailsFromToken L k tok = Returns (d, None)"
  obtains t claims alg where
    "jwt_parse L tok (hmacKeyFunc k) = (Some t, None)" "Valid t" "MapClaims t = Some claims"
    "Method t = SigningMethodHMAC alg" "extractDetails claims = (d, None)"
proof -
  obtain ot e where parse: "jwt_parse L tok (hmacKeyFunc k) = (ot, e)" by fastforce
  with acc obtain t where t: "ot = Some t"
    by (auto simp: ValidateAndExtractNamespaceDetailsFromToken_def split: option.splits)
  with assms(1) parse have chk:
    "if Valid t
     then MapClaims t \<noteq> None \<and> e = None \<and> (\<exists>k'. hmacKeyFunc k (t\<lparr>Valid := False\<rparr>) = Inr k')
     else e \<noteq> None"
    unfolding jwt_checks_def by blast
  from acc parse t chk have v: "Valid t"
    by (auto simp: ValidateAndExtractNamespaceDetailsFromToken_def
        split: option.splits if_splits)
  with chk have chk: "MapClaims t \<noteq> None"
    and "e = None" and "\<exists>k'. hmacKeyFunc k (t\<lparr>Valid := False\<rparr>) = Inr k'" by simp_all
  then obtain alg where "Method t = SigningMethodHMAC alg"
    by (auto simp: hmacKeyFunc_def split: signing_method.splits)
  moreover from acc parse t v \<open>e = None\<close> chk
  obtain claims where "MapClaims t = Some claims" "extractDetails claims = (d, None)"
    by (cases "MapClaims t") (auto simp: ValidateAndExtractNamespaceDetailsFromToken_def)
  ultimately show thesis using that parse t v \<open>e = None\<close> by blast
qed

end
