(* ===== verification/Namespace_Controller.thy ===== *)
theory Namespace_Controller
  imports Events Tokens "HOL-Library.Sublist"
begin

text \<open>
  \<open>internal/controller/namespace_controller.go\<close>: every active namespace gets a secret with a
  token for the web service; secrets whose token does not validate are deleted. The model keeps the
  loop as written: the message that asks for a deletion is set once and never reset, and the
  namespaces are compared only when it is set.
\<close>

section \<open>State and messages\<close>

record NamespaceReconciler =
  InsightsJWTSecret :: string

definition insightsTokenLabel :: string where
  "insightsTokenLabel = ''lagoon.sh/insights-token''"

definition quoted :: "string \<Rightarrow> string" where
  "quoted s = [CHR 0x27] @ s @ [CHR 0x27]"

definition mismatchMessage :: "string \<Rightarrow> string \<Rightarrow> string" where
  "mismatchMessage nsName tokenNs =
     ''Token is invalid - namespaces '' @ quoted nsName @ ''!='' @ quoted tokenNs @ ''.''"

definition missingTokenMessage :: string where
  "missingTokenMessage = ''key INSIGHTS_TOKEN does not exist. Secret is invalid.''"

section \<open>Reconcile\<close>

text \<open>One turn of the loop, up to the deletion: \<open>foundItem\<close> and \<open>deleteSecretMessage\<close>.\<close>

definition secretVerdict ::
  "jwt_lib \<Rightarrow> string \<Rightarrow> string \<Rightarrow> Secret \<Rightarrow> bool \<Rightarrow> string \<Rightarrow> (bool \<times> string) exec" where
  "secretVerdict L jwtSecret nsName v foundItem deleteSecretMessage =
     (case mlookup (SecretData v) ''INSIGHTS_TOKEN'' of
        None \<Rightarrow> Returns (foundItem, missingTokenMessage)
      | Some val \<Rightarrow>
          (case ValidateAndExtractNamespaceDetailsFromToken L jwtSecret val of
             Panics msg \<Rightarrow> Panics msg
           | Returns (namespaceDetails, err) \<Rightarrow>
               let mismatch = mismatchMessage nsName (TokenNamespace namespaceDetails);
                   message = (if err \<noteq> None then mismatch else deleteSecretMessage)
               in
                 if message \<noteq> '''' \<and> TokenNamespace namespaceDetails \<noteq> nsName
                 then Returns (foundItem, mismatch)
                 else Returns (True, message)))"

fun checkSecrets ::
  "'c environment \<Rightarrow> jwt_lib \<Rightarrow> string \<Rightarrow> string \<Rightarrow> Secret list \<Rightarrow> bool \<Rightarrow> string
    \<Rightarrow> ('c, go_error + bool) comp" where
  "checkSecrets E L jwtSecret nsName [] foundItem deleteSecretMessage = ret (Inr foundItem)"
| "checkSecrets E L jwtSecret nsName (v # vs) foundItem deleteSecretMessage =
     bind (lift_exec (secretVerdict L jwtSecret nsName v foundItem deleteSecretMessage))
       (\<lambda>(found, message).
     if message \<noteq> ''''
     then attempt (DeleteSecret E v) (\<lambda>err. ret (Inl err)) (\<lambda>_.
          checkSecrets E L jwtSecret nsName vs found message)
     else checkSecrets E L jwtSecret nsName vs found message)"

definition tokenDetails :: "NamespaceObject \<Rightarrow> go_error + NamespaceDetails" where
  "tokenDetails ns =
     (case getValueFromMap (Labels ns) ''lagoon.sh/environmentId'' of
        Inl err \<Rightarrow> Inl (Error (''Unable to find lagoon.sh/environmentId label in namespace '' @
                     Name ns @ '' failed creating insights token''))
      | Inr environmentId \<Rightarrow>
     (case getValueFromMap (Labels ns) ''lagoon.sh/project'' of
        Inl err \<Rightarrow> Inl (Error (''Unable to find lagoon.sh/project label in namespace'' @
                     Name ns @ '' failed creating insights token''))
      | Inr projectName \<Rightarrow>
     (case getValueFromMap (Labels ns) ''lagoon.sh/environment'' of
        Inl err \<Rightarrow> Inl (Error (''Unable to find lagoon.sh/environment label in namespace '' @
                     Name ns @ '' failed creating insights token''))
      | Inr environmentName \<Rightarrow>
          Inr \<lparr>TokenNamespace = Name ns, TokenEnvironmentId = environmentId,
               TokenProjectName = projectName, TokenEnvironmentName = environmentName\<rparr>)))"

definition tokenSecret :: "string \<Rightarrow> string \<Rightarrow> Secret" where
  "tokenSecret nsName jwt =
     \<lparr>Name = ''insights-token'', Namespace = nsName,
      Labels = gomap_of [(insightsTokenLabel, ''true''),
                         (''lagoon.sh/dynamic-secret'', ''insights-token'')],
      Annotations = Some fmempty,
      SecretData = gomap_of [(''INSIGHTS_TOKEN'', jwt)]\<rparr>"

text \<open>An error of the signer is only logged: the secret is created with what it returned.\<close>

definition createToken ::
  "'c environment \<Rightarrow> jwt_lib \<Rightarrow> string \<Rightarrow> NamespaceObject \<Rightarrow> ('c, go_error + unit) comp" where
  "createToken E L jwtSecret ns =
     attempt (ret (tokenDetails ns)) (\<lambda>err. ret (Inl err)) (\<lambda>details.
     let (jwt, err) = GenerateTokenForNamespace L jwtSecret details in
     attempt (CreateSecret E (tokenSecret (Name ns) jwt)) (\<lambda>err. ret (Inl err)) (\<lambda>_.
     ret (Inr ())))"

definition reconcileNamespace ::
  "'c environment \<Rightarrow> jwt_lib \<Rightarrow> NamespaceReconciler \<Rightarrow> string \<Rightarrow> ('c, go_error + unit) comp" where
  "reconcileNamespace E L R req =
     attempt (GetNamespace E req) (\<lambda>err. ret (IgnoreNotFound err)) (\<lambda>ns.
     if NamespacePhase ns = ''Terminating'' then ret (Inr ())
     else
       attempt (ListSecrets E insightsTokenLabel (Name ns)) (\<lambda>err. ret (Inl err)) (\<lambda>items.
       attempt (checkSecrets E L (InsightsJWTSecret R) (Name ns) items False '''')
         (\<lambda>err. ret (Inl err)) (\<lambda>foundItem.
       if \<not> foundItem then createToken E L (InsightsJWTSecret R) ns
       else ret (Inr ()))))"

section \<open>Event filter\<close>

definition activeNamespace :: "string \<Rightarrow> 'a ObjectMeta_scheme \<Rightarrow> bool" where
  "activeNamespace tokenTargetLabel obj =
     (if isl (getValueFromMap (Labels obj) ''lagoon.sh/environmentId'') then False
      else if isl (getValueFromMap (Labels obj) ''lagoon.sh/project'') then False
      else if isl (getValueFromMap (Labels obj) ''lagoon.sh/environment'') then False
      else if tokenTargetLabel \<noteq> '''' \<and> isl (getValueFromMap (Labels obj) tokenTargetLabel)
      then False
      else True)"

definition activeNamespacePredicate :: "string \<Rightarrow> 'a ObjectMeta_scheme predicate_funcs" where
  "activeNamespacePredicate tokenTargetLabel =
     \<lparr>CreateFunc = Some (activeNamespace tokenTargetLabel),
      UpdateFunc = Some (\<lambda>old new. activeNamespace tokenTargetLabel new),
      DeleteFunc = Some (\<lambda>obj. False),
      GenericFunc = Some (\<lambda>obj. False)\<rparr>"

definition setupNamespaceController :: "string \<Rightarrow> NamespaceObject controller_setup" where
  "setupNamespaceController tokenTargetLabel =
     \<lparr>ForKind = ''Namespace'', EventFilters = [activeNamespacePredicate tokenTargetLabel],
      MaxConcurrentReconciles = None\<rparr>"

interpretation active_namespaces: level_filter "activeNamespacePredicate tokenTargetLabel"
  for tokenTargetLabel
  by unfold_locales (simp_all add: activeNamespacePredicate_def)

section \<open>The loop as a function\<close>

text \<open>Which secrets the loop deletes, and how it ends, if no deletion fails.\<close>

fun tokenLoop ::
  "jwt_lib \<Rightarrow> string \<Rightarrow> string \<Rightarrow> Secret list \<Rightarrow> bool \<Rightarrow> string \<Rightarrow> Secret list \<times> bool exec" where
  "tokenLoop L k n [] found msg = ([], Returns found)"
| "tokenLoop L k n (v # vs) found msg =
     (case secretVerdict L k n v found msg of
        Panics p \<Rightarrow> ([], Panics p)
      | Returns (found', msg') \<Rightarrow>
          (case tokenLoop L k n vs found' msg' of
             (ds, r) \<Rightarrow> (if msg' \<noteq> '''' then v # ds else ds, r)))"

abbreviation deletion :: "Secret \<Rightarrow> effect" where
  "deletion s \<equiv> KDeleteSecret (key s)"

text \<open>A run of the loop follows it up to the first deletion that fails.\<close>

lemma checkSecrets_log:
  assumes "checkSecrets E L k n vs found msg w = (r, w')"
    and "tokenLoop L k n vs found msg = (ds, res)"
  shows "\<exists>m. calls w' = calls w @ map deletion (take m ds) \<and>
    (case r of
       Returns (Inl err) \<Rightarrow> take m ds \<noteq> []
     | Returns (Inr f) \<Rightarrow> res = Returns f \<and> take m ds = ds
     | Panics p \<Rightarrow> res = Panics p \<and> take m ds = ds)"
  using assms
proof (induction vs arbitrary: found msg w ds)
  case Nil
  then show ?case by (auto simp: ret_def)
next
  case (Cons v vs)
  show ?case
  proof (cases "secretVerdict L k n v found msg")
    case (Panics p)
    with Cons.prems show ?thesis by (auto simp: monad_defs)
  next
    case (Returns verdict)
    obtain found' msg' where verdict: "verdict = (found', msg')" by fastforce
    obtain ds' res' where loop: "tokenLoop L k n vs found' msg' = (ds', res')" by fastforce
    with Returns verdict Cons.prems(2)
    have ds: "ds = (if msg' \<noteq> '''' then v # ds' else ds')" and res: "res' = res" by auto
    from loop res have loop: "tokenLoop L k n vs found' msg' = (ds', res)" by simp
    show ?thesis
    proof (cases "msg' = ''''")
      case True
      with Cons.prems(1) Returns verdict
      have "checkSecrets E L k n vs found' msg' w = (r, w')" by (simp add: monad_defs)
      note IH = Cons.IH [OF this loop]
      from True ds have "ds = ds'" by simp
      with IH show ?thesis by blast
    next
      case False
      obtain d c where del: "delete_secret E (key v) (outside w) = (d, c)" by fastforce
      show ?thesis
      proof (cases d)
        case (Inl err)
        with Cons.prems(1) Returns verdict False del
        have "calls w' = calls w @ [deletion v]" "r = Returns (Inl err)"
          by (auto simp: DeleteSecret_def monad_defs)
        with False ds show ?thesis by (intro exI [of _ 1]) simp
      next
        case (Inr u)
        let ?w = "w\<lparr>outside := c, calls := calls w @ [deletion v]\<rparr>"
        from Cons.prems(1) Returns verdict False del Inr
        have "checkSecrets E L k n vs found' msg' ?w = (r, w')"
          by (simp add: DeleteSecret_def monad_defs)
        from Cons.IH [OF this loop] obtain m where
          "calls w' = calls ?w @ map deletion (take m ds')"
          "case r of Returns (Inl err) \<Rightarrow> take m ds' \<noteq> []
             | Returns (Inr f) \<Rightarrow> res = Returns f \<and> take m ds' = ds'
             | Panics p \<Rightarrow> res = Panics p \<and> take m ds' = ds'" by blast
        with False ds show ?thesis
          by (intro exI [of _ "Suc m"]) (simp split: exec.splits sum.splits)
      qed
    qed
  qed
qed

section \<open>What the loop decides\<close>

text \<open>The secret holds a token that validates to these details.\<close>

definition holds_token :: "jwt_lib \<Rightarrow> string \<Rightarrow> Secret \<Rightarrow> NamespaceDetails \<Rightarrow> bool" where
  "holds_token L k v d \<longleftrightarrow>
     (case mlookup (SecretData v) ''INSIGHTS_TOKEN'' of
        None \<Rightarrow> False
      | Some val \<Rightarrow> ValidateAndExtractNamespaceDetailsFromToken L k val = Returns (d, None))"

lemma mismatchMessage_not_empty [simp]: "mismatchMessage n m \<noteq> ''''"
  by (simp add: mismatchMessage_def)

lemma missingTokenMessage_not_empty [simp]: "missingTokenMessage \<noteq> ''''"
  by (simp add: missingTokenMessage_def)

lemma verdict_valid:
  "holds_token L k v d \<Longrightarrow> secretVerdict L k n v found '''' = Returns (True, '''')"
  by (auto simp: holds_token_def secretVerdict_def split: option.splits)

text \<open>Once set, the message stays set.\<close>

lemma verdict_sticky:
  "secretVerdict L k n v found msg = Returns (found', msg') \<Longrightarrow> msg \<noteq> '''' \<Longrightarrow> msg' \<noteq> ''''"
  by (auto simp: secretVerdict_def Let_def split: option.splits exec.splits if_splits)

lemma tokenLoop_all_valid:
  assumes "\<forall>v\<in>set vs. \<exists>d. holds_token L k v d"
  shows "tokenLoop L k n vs found '''' = ([], Returns (found \<or> vs \<noteq> []))"
  using assms
proof (induction vs arbitrary: found)
  case (Cons v vs)
  then obtain d where "holds_token L k v d" by auto
  with Cons show ?case by (simp add: verdict_valid [of L k v d])
qed simp

text \<open>Secrets that all hold a token that validates pass the loop without any call.\<close>

lemma checkSecrets_all_valid:
  assumes "\<forall>v\<in>set vs. \<exists>d. holds_token L k v d"
  shows "checkSecrets E L k n vs found '''' w = (Returns (Inr (found \<or> vs \<noteq> [])), w)"
  using assms
proof (induction vs arbitrary: found)
  case (Cons v vs)
  then obtain d where "holds_token L k v d" by auto
  with Cons show ?case by (simp add: verdict_valid monad_defs)
qed (simp add: ret_def)

lemma tokenLoop_sticky:
  assumes "tokenLoop L k n vs found msg = (ds, Returns f)" and "msg \<noteq> ''''"
  shows "ds = vs"
  using assms
proof (induction vs arbitrary: found msg ds)
  case (Cons v vs)
  then obtain found' msg' ds' where v: "secretVerdict L k n v found msg = Returns (found', msg')"
    and loop: "tokenLoop L k n vs found' msg' = (ds', Returns f)" and ds: "msg' \<noteq> '''' \<longrightarrow> ds = v # ds'"
    by (auto split: exec.splits prod.splits)
  from verdict_sticky [OF v Cons.prems(2)] have "msg' \<noteq> ''''" .
  with Cons.IH [OF loop] ds show ?case by simp
qed simp

lemma tokenLoop_deletes_subset:
  "tokenLoop L k n vs found msg = (ds, res) \<Longrightarrow> set ds \<subseteq> set vs"
proof (induction vs arbitrary: found msg ds)
  case (Cons v vs)
  then show ?case
    by (fastforce split: exec.splits prod.splits if_splits)
qed simp

text \<open>A secret the loop does not delete holds a token that validates, and counts as found.\<close>

lemma tokenLoop_found: "tokenLoop L k n vs True msg = (ds, Returns f) \<Longrightarrow> f"
proof (induction vs arbitrary: msg ds)
  case (Cons v vs)
  then obtain found' msg' ds' where v: "secretVerdict L k n v True msg = Returns (found', msg')"
    and loop: "tokenLoop L k n vs found' msg' = (ds', Returns f)"
    by (auto split: exec.splits prod.splits)
  from v have "found'"
    by (auto simp: secretVerdict_def Let_def split: option.splits exec.splits if_splits)
  with loop Cons.IH show ?case by simp
qed simp

lemma verdict_kept:
  "secretVerdict L k n v found '''' = Returns (found', '''') \<Longrightarrow> found' \<and> (\<exists>d. holds_token L k v d)"
  by (auto simp: secretVerdict_def holds_token_def Let_def split: option.splits exec.splits if_splits)

lemma tokenLoop_keeps:
  assumes "tokenLoop L k n vs found '''' = (ds, Returns f)" and "u \<in> set vs" and "u \<notin> set ds"
  shows "f \<and> (\<exists>d. holds_token L k u d)"
  using assms
proof (induction vs arbitrary: found ds)
  case (Cons v vs)
  then obtain found' msg' ds' where v: "secretVerdict L k n v found '''' = Returns (found', msg')"
    and loop: "tokenLoop L k n vs found' msg' = (ds', Returns f)"
    and ds: "ds = (if msg' \<noteq> '''' then v # ds' else ds')"
    by (auto split: exec.splits prod.splits)
  show ?case
  proof (cases "msg' = ''''")
    case True
    with verdict_kept [of L k n v found found'] v
    have found: "found'" and valid: "\<exists>d. holds_token L k v d" by simp_all
    from loop found have f by (auto dest: tokenLoop_found)
    with valid Cons loop ds True show ?thesis by auto
  next
    case False
    with tokenLoop_sticky [OF loop] ds Cons.prems(2,3) show ?thesis by simp
  qed
qed simp

text \<open>A secret without a token is deleted, and with it every secret that is listed after it.\<close>

lemma tokenLoop_bad_head:
  assumes "mlookup (SecretData v) ''INSIGHTS_TOKEN'' = None"
    and "tokenLoop L k n (v # vs) found msg = (ds, Returns f)"
  shows "ds = v # vs"
proof -
  from assms obtain ds' where loop: "tokenLoop L k n vs found missingTokenMessage = (ds', Returns f)"
    and "ds = v # ds'"
    by (auto simp: secretVerdict_def split: prod.splits)
  with tokenLoop_sticky [OF loop] show ?thesis by simp
qed

text \<open>
  The loop against what it is for. As long as the secrets are good the loop passes on; the first
  one that is not is deleted together with all that follow, unless a token makes it panic.
\<close>

definition good_secret :: "jwt_lib \<Rightarrow> string \<Rightarrow> Secret \<Rightarrow> bool" where
  "good_secret L k v \<longleftrightarrow>
     (case mlookup (SecretData v) ''INSIGHTS_TOKEN'' of
        None \<Rightarrow> False
      | Some val \<Rightarrow>
          (case ValidateAndExtractNamespaceDetailsFromToken L k val of
             Returns (d, err) \<Rightarrow> err = None
           | Panics p \<Rightarrow> False))"

lemma good_secret_iff: "good_secret L k v \<longleftrightarrow> (\<exists>d. holds_token L k v d)"
  by (auto simp: good_secret_def holds_token_def split: option.split exec.split)

text \<open>The token names the namespace, whether it validates or not.\<close>

definition names_namespace :: "jwt_lib \<Rightarrow> string \<Rightarrow> string \<Rightarrow> Secret \<Rightarrow> bool" where
  "names_namespace L k n v \<longleftrightarrow>
     (case mlookup (SecretData v) ''INSIGHTS_TOKEN'' of
        None \<Rightarrow> False
      | Some val \<Rightarrow>
          (case ValidateAndExtractNamespaceDetailsFromToken L k val of
             Returns (d, err) \<Rightarrow> TokenNamespace d = n
           | Panics p \<Rightarrow> False))"

lemma verdict_not_found:
  "secretVerdict L k n v found msg = Returns (False, msg') \<Longrightarrow> \<not> found \<and> \<not> names_namespace L k n v"
  by (auto simp: secretVerdict_def names_namespace_def Let_def split: option.splits exec.splits if_splits)

lemma tokenLoop_not_found:
  "tokenLoop L k n vs found msg = (ds, Returns False) \<Longrightarrow>
     \<not> found \<and> list_all (\<lambda>v. \<not> names_namespace L k n v) vs"
proof (induction vs arbitrary: found msg ds)
  case (Cons v vs)
  then obtain found' msg' ds' where v: "secretVerdict L k n v found msg = Returns (found', msg')"
    and loop: "tokenLoop L k n vs found' msg' = (ds', Returns False)"
    by (auto split: exec.splits prod.splits)
  from Cons.IH [OF loop] v verdict_not_found [of L k n v found msg msg'] show ?case by auto
qed simp

lemma tokenLoop_after_bad:
  "tokenLoop L k n vs found msg = (ds, res) \<Longrightarrow> msg \<noteq> '''' \<Longrightarrow> prefix ds vs"
proof (induction vs arbitrary: found msg ds)
  case (Cons v vs)
  show ?case
  proof (cases "secretVerdict L k n v found msg")
    case (Panics p)
    with Cons.prems(1) show ?thesis by simp
  next
    case (Returns verdict)
    obtain found' msg' where verdict: "verdict = (found', msg')" by fastforce
    from verdict_sticky [OF Returns [unfolded verdict] Cons.prems(2)] have "msg' \<noteq> ''''" .
    with Cons.prems(1) Returns verdict Cons.IH show ?thesis by (auto split: prod.splits)
  qed
qed simp

lemma tokenLoop_deletes:
  "tokenLoop L k n vs found '''' = (ds, res) \<Longrightarrow> prefix ds (dropWhile (good_secret L k) vs)"
proof (induction vs arbitrary: found ds)
  case (Cons v vs)
  show ?case
  proof (cases "good_secret L k v")
    case True
    then obtain d where "holds_token L k v d" by (auto simp: good_secret_iff)
    with Cons True show ?thesis by (auto simp: verdict_valid split: prod.splits)
  next
    case bad: False
    show ?thesis
    proof (cases "secretVerdict L k n v found ''''")
      case (Panics p)
      with Cons.prems show ?thesis by simp
    next
      case (Returns verdict)
      obtain found' msg' where verdict: "verdict = (found', msg')" by fastforce
      with Returns bad verdict_kept [of L k n v found found'] have msg': "msg' \<noteq> ''''"
        by (auto simp: good_secret_iff)
      obtain ds' res' where loop: "tokenLoop L k n vs found' msg' = (ds', res')" by fastforce
      from tokenLoop_after_bad [OF loop msg'] Cons.prems Returns verdict loop msg' bad show ?thesis
        by auto
    qed
  qed
qed simp

text \<open>If no panic ends it, the loop deletes all secrets from the first on that is not good.\<close>

lemma tokenLoop_ends:
  "tokenLoop L k n vs found '''' = (ds, Returns f) \<Longrightarrow> ds = dropWhile (good_secret L k) vs"
proof (induction vs arbitrary: found ds)
  case (Cons v vs)
  then obtain found' msg' ds' where v: "secretVerdict L k n v found '''' = Returns (found', msg')"
    and loop: "tokenLoop L k n vs found' msg' = (ds', Returns f)"
    and ds: "ds = (if msg' \<noteq> '''' then v # ds' else ds')"
    by (auto split: exec.splits prod.splits)
  show ?case
  proof (cases "good_secret L k v")
    case True
    then obtain d where "holds_token L k v d" by (auto simp: good_secret_iff)
    with v have "msg' = ''''" by (simp add: verdict_valid)
    with True ds Cons.IH [of found' ds'] loop show ?thesis by simp
  next
    case False
    with v verdict_kept [of L k n v found found'] have msg': "msg' \<noteq> ''''"
      by (auto simp: good_secret_iff)
    from tokenLoop_sticky [OF loop msg'] ds msg' False show ?thesis by simp
  qed
qed simp

text \<open>Something was found: a secret with a token that is good or names the namespace.\<close>

lemma verdict_found:
  "secretVerdict L k n v False msg = Returns (True, msg') \<Longrightarrow> good_secret L k v \<or> names_namespace L k n v"
  by (auto simp: secretVerdict_def good_secret_def names_namespace_def Let_def
      split: option.splits exec.splits if_splits)

lemma tokenLoop_found_some:
  "tokenLoop L k n vs False msg = (ds, Returns True) \<Longrightarrow>
     list_ex (\<lambda>v. good_secret L k v \<or> names_namespace L k n v) vs"
proof (induction vs arbitrary: msg ds)
  case (Cons v vs)
  then obtain found' msg' ds' where v: "secretVerdict L k n v False msg = Returns (found', msg')"
    and loop: "tokenLoop L k n vs found' msg' = (ds', Returns True)"
    by (auto split: exec.splits prod.splits)
  show ?case
  proof (cases found')
    case True
    with v verdict_found [of L k n v msg msg'] show ?thesis by simp
  next
    case False
    with loop Cons.IH show ?thesis by simp
  qed
qed simp

text \<open>Nothing was found: then every secret has been deleted.\<close>

lemma tokenLoop_not_found_deletes:
  assumes "tokenLoop L k n vs False '''' = (ds, Returns False)"
  shows "ds = vs"
proof (cases vs)
  case (Cons v vs')
  with assms obtain found' msg' ds' where v: "secretVerdict L k n v False '''' = Returns (found', msg')"
    and loop: "tokenLoop L k n vs' found' msg' = (ds', Returns False)"
    and ds: "ds = (if msg' \<noteq> '''' then v # ds' else ds')"
    by (auto split: exec.splits prod.splits)
  from tokenLoop_not_found [OF loop] have "\<not> found'" by simp
  with v verdict_kept [of L k n v False found'] have msg': "msg' \<noteq> ''''" by auto
  from tokenLoop_sticky [OF loop msg'] ds msg' Cons show ?thesis by simp
qed (use assms in simp)

section \<open>Tokens that do not parse\<close>

definition unparsed_token :: "jwt_lib \<Rightarrow> string \<Rightarrow> Secret \<Rightarrow> bool" where
  "unparsed_token L k v \<longleftrightarrow>
     (case mlookup (SecretData v) ''INSIGHTS_TOKEN'' of
        None \<Rightarrow> False
      | Some val \<Rightarrow> fst (jwt_parse L val (hmacKeyFunc k)) = None)"

lemma verdict_panics:
  "unparsed_token L k v \<Longrightarrow> secretVerdict L k n v found msg = Panics nil_dereference"
  by (auto simp: unparsed_token_def secretVerdict_def ValidateAndExtractNamespaceDetailsFromToken_def
      split: option.splits prod.splits)

lemma verdict_only_panic: "secretVerdict L k n v found msg = Panics p \<Longrightarrow> p = nil_dereference"
  by (auto simp: secretVerdict_def ValidateAndExtractNamespaceDetailsFromToken_def Let_def
      split: option.splits prod.splits if_splits exec.splits)

lemma tokenLoop_prefix_only:
  "\<exists>ds' res'. tokenLoop L k n us found msg = (ds', res') \<and>
     (unparsed_token L k v \<longrightarrow> tokenLoop L k n (us @ v # vs) found msg = (ds', Panics nil_dereference))"
proof (induction us arbitrary: found msg)
  case Nil
  then show ?case by (simp add: verdict_panics)
next
  case (Cons u us)
  show ?case
  proof (cases "secretVerdict L k n u found msg")
    case (Panics p)
    then show ?thesis by (simp add: verdict_only_panic [OF Panics])
  next
    case (Returns verdict)
    obtain found' msg' where verdict: "verdict = (found', msg')" by fastforce
    from Cons.IH [of found' msg'] show ?thesis by (auto simp: Returns verdict)
  qed
qed

lemma tokenLoop_unparsed:
  assumes "unparsed_token L k v" and "tokenLoop L k n (us @ v # vs) found '''' = (ds, res)"
  shows "res = Panics nil_dereference" and "prefix ds (dropWhile (good_secret L k) us)"
proof -
  from tokenLoop_prefix_only [of L k n us found "''''" v vs] assms obtain res' where
    loop: "tokenLoop L k n us found '''' = (ds, res')" and "res = Panics nil_dereference" by auto
  then show "res = Panics nil_dereference" by simp
  show "prefix ds (dropWhile (good_secret L k) us)" by (rule tokenLoop_deletes [OF loop])
qed

section \<open>Runs\<close>

lemma reconcileNamespace_active:
  assumes "get_namespace E req (outside w) = (Inr ns, c1)" and "NamespacePhase ns \<noteq> ''Terminating''"
    and "list_secrets E insightsTokenLabel (Name ns) c1 = (Inr items, c2)"
  shows "reconcileNamespace E L R req w =
    attempt (checkSecrets E L (InsightsJWTSecret R) (Name ns) items False '''')
      (\<lambda>err. ret (Inl err))
      (\<lambda>foundItem. if \<not> foundItem then createToken E L (InsightsJWTSecret R) ns else ret (Inr ()))
      (w\<lparr>outside := c2,
         calls := calls w @ [KGetNamespace req, KListSecrets insightsTokenLabel (Name ns)]\<rparr>)"
  using assms
  by (simp add: reconcileNamespace_def GetNamespace_def ListSecrets_def attempt_def bind_def invoke_def)

definition freshSecret :: "jwt_lib \<Rightarrow> string \<Rightarrow> string \<Rightarrow> NamespaceDetails \<Rightarrow> Secret" where
  "freshSecret L k n d = tokenSecret n (fst (GenerateTokenForNamespace L k d))"

lemma fresh_holds_token:
  assumes "jwt_round_trip L" and "plain_details d" and "snd (GenerateTokenForNamespace L k d) = None"
  shows "holds_token L k (freshSecret L k n d) d"
proof -
  obtain tok where tok: "GenerateTokenForNamespace L k d = (tok, None)"
    using assms(3) by (cases "GenerateTokenForNamespace L k d") simp
  from validate_issued [OF assms(1,2) tok] tok show ?thesis
    by (simp add: holds_token_def freshSecret_def tokenSecret_def)
qed

lemma createToken_log:
  assumes "createToken E L k ns w = (r, w')"
  shows "case tokenDetails ns of
      Inl err \<Rightarrow> r = Returns (Inl err) \<and> w' = w
    | Inr d \<Rightarrow> calls w' = calls w @ [KCreateSecret (freshSecret L k (Name ns) d)]"
  using assms
  by (auto simp: createToken_def freshSecret_def CreateSecret_def monad_defs
      split: sum.splits prod.splits)

lemma createToken_no_panic: "createToken E L k ns w = (r, w') \<Longrightarrow> \<exists>res. r = Returns res"
  by (auto simp: createToken_def CreateSecret_def monad_defs split: sum.splits prod.splits)

text \<open>
  Everything a reconciliation of a namespace may write, and how that goes with its result, from the
  secrets that were listed: without the loop and its two variables.
\<close>

definition namespaceWrites ::
  "jwt_lib \<Rightarrow> string \<Rightarrow> NamespaceObject \<Rightarrow> Secret list \<Rightarrow> (go_error + unit) exec \<Rightarrow> effect list \<Rightarrow> bool" where
  "namespaceWrites L k ns items r ws \<longleftrightarrow>
     (let bad = map deletion (dropWhile (good_secret L k) items);
          replaced = (list_all (\<lambda>v. \<not> names_namespace L k (Name ns) v) items \<and>
            (\<exists>d. tokenDetails ns = Inr d \<and>
               ws = map deletion items @ [KCreateSecret (freshSecret L k (Name ns) d)]))
      in
        case r of
          Panics p \<Rightarrow> prefix ws bad
        | Returns (Inl err) \<Rightarrow> prefix ws bad \<or> replaced
        | Returns (Inr u) \<Rightarrow>
            ws = bad \<and> list_ex (\<lambda>v. good_secret L k v \<or> names_namespace L k (Name ns) v) items \<or>
            replaced)"

lemma filter_deletions [simp]: "filter kube_write (map deletion vs) = map deletion vs"
  by (rule filter_True) auto

lemma prefix_take_map: "prefix ds es \<Longrightarrow> prefix (map deletion (take m ds)) (map deletion es)"
  by (meson map_mono_prefix take_is_prefix prefix_order.order_trans)

text \<open>What the rest of a reconciliation writes, after the secrets are listed.\<close>

lemma secrets_writes:
  assumes run: "attempt (checkSecrets E L k (Name ns) items False '''') (\<lambda>err. ret (Inl err))
      (\<lambda>foundItem. if \<not> foundItem then createToken E L k ns else ret (Inr ())) w = (r, w')"
  shows "\<exists>ws. filter kube_write (calls w') = filter kube_write (calls w) @ ws \<and>
    namespaceWrites L k ns items r ws"
proof -
  obtain s w1 where check: "checkSecrets E L k (Name ns) items False '''' w = (s, w1)" by fastforce
  obtain ds res where loop: "tokenLoop L k (Name ns) items False '''' = (ds, res)" by fastforce
  from checkSecrets_log [OF check loop] obtain m where
    w1: "calls w1 = calls w @ map deletion (take m ds)" and
    out: "case s of Returns (Inl err) \<Rightarrow> take m ds \<noteq> []
       | Returns (Inr f) \<Rightarrow> res = Returns f \<and> take m ds = ds
       | Panics p \<Rightarrow> res = Panics p \<and> take m ds = ds" by blast
  note bad = prefix_take_map [OF tokenLoop_deletes [OF loop], of m]
  have w1': "filter kube_write (calls w1) = filter kube_write (calls w) @ map deletion (take m ds)"
    using w1 by simp
  consider (panics) p where "s = Panics p" | (fails) err where "s = Returns (Inl err)"
    | (found) "s = Returns (Inr True)" | (none) "s = Returns (Inr False)"
    by (cases s) (auto simp: all_bool_eq split: sum.splits, metis sumE)
  then show ?thesis
  proof cases
    case panics
    with run check have "r = Panics p" "w' = w1" by (simp_all add: monad_defs)
    with bad w1' show ?thesis by (auto simp: namespaceWrites_def Let_def)
  next
    case fails
    with run check have "r = Returns (Inl err)" "w' = w1" by (simp_all add: monad_defs)
    with bad w1' show ?thesis by (auto simp: namespaceWrites_def Let_def)
  next
    case found
    with run check have "r = Returns (Inr ())" "w' = w1" by (simp_all add: monad_defs)
    with found out w1' tokenLoop_ends [of L k "Name ns" items False ds True] loop
      tokenLoop_found_some [of L k "Name ns" items "''''" ds]
    show ?thesis by (auto simp: namespaceWrites_def Let_def)
  next
    case none
    with run check have create: "createToken E L k ns w1 = (r, w')"
      by (simp add: attempt_def bind_def)
    show ?thesis
    proof (cases "tokenDetails ns")
      case (Inl err)
      with createToken_log [OF create] bad w1' show ?thesis
        by (auto simp: namespaceWrites_def Let_def)
    next
      case d: (Inr d)
      from none out loop have loop': "tokenLoop L k (Name ns) items False '''' = (ds, Returns False)"
        and all: "take m ds = ds" by simp_all
      let ?ws = "map deletion items @ [KCreateSecret (freshSecret L k (Name ns) d)]"
      from createToken_log [OF create] d w1' all tokenLoop_not_found_deletes [OF loop']
      have "filter kube_write (calls w') = filter kube_write (calls w) @ ?ws" using w1 by simp
      moreover from tokenLoop_not_found [OF loop'] d createToken_no_panic [OF create]
      have "namespaceWrites L k ns items r ?ws"
        by (auto simp: namespaceWrites_def Let_def split: exec.split sum.split)
      ultimately show ?thesis by blast
    qed
  qed
qed

lemma reconcileNamespace_writes:
  assumes run: "reconcileNamespace E L R req w = (r, w')"
  shows "\<exists>ws. filter kube_write (calls w') = filter kube_write (calls w) @ ws \<and>
    (case get_namespace E req (outside w) of
       (Inl err, c1) \<Rightarrow> ws = []
     | (Inr ns, c1) \<Rightarrow>
         if NamespacePhase ns = ''Terminating'' then ws = []
         else
           (case list_secrets E insightsTokenLabel (Name ns) c1 of
              (Inl err, c2) \<Rightarrow> ws = []
            | (Inr items, c2) \<Rightarrow> namespaceWrites L (InsightsJWTSecret R) ns items r ws))"
proof -
  obtain g c1 where get: "get_namespace E req (outside w) = (g, c1)" by fastforce
  show ?thesis
  proof (cases g)
    case (Inl err)
    with run get show ?thesis by (auto simp: reconcileNamespace_def GetNamespace_def monad_defs)
  next
    case ns: (Inr ns)
    show ?thesis
    proof (cases "NamespacePhase ns = ''Terminating''")
      case True
      with run get ns show ?thesis by (auto simp: reconcileNamespace_def GetNamespace_def monad_defs)
    next
      case active: False
      obtain l c2 where list: "list_secrets E insightsTokenLabel (Name ns) c1 = (l, c2)" by fastforce
      show ?thesis
      proof (cases l)
        case (Inl err)
        with run get ns active list show ?thesis
          by (auto simp: reconcileNamespace_def GetNamespace_def ListSecrets_def monad_defs)
      next
        case items: (Inr items)
        note eq = reconcileNamespace_active
          [OF get [unfolded ns] active list [unfolded items], of L R, unfolded run]
        from secrets_writes [OF eq [symmetric]] get ns active list items show ?thesis by auto
      qed
    qed
  qed
qed

end
