(* ===== verification/Regexp.thy ===== *)
theory Regexp
  imports Prelude
begin

text \<open>
  The fragment of Go's \<open>regexp\<close> the program uses, as byte-level regular expressions
  matched by derivatives: literal characters (exactly, or under the flag \<open>(?i)\<close>), byte
  classes, and \<open>.+\<close>. Every match the program asks for is anchored at both ends, so a match is a
  match of the whole text. Case folding is Go's: besides the two ASCII cases, \<open>k\<close> also matches
  the Kelvin sign and \<open>s\<close> the long s, in UTF-8.
\<close>

section \<open>Matching by derivatives\<close>

datatype re =
    Never
  | Empty
  | Byte "char \<Rightarrow> bool"
  | Seq re re
  | Alt re re
  | Star re

primrec nullable :: "re \<Rightarrow> bool" where
  "nullable Never = False"
| "nullable Empty = True"
| "nullable (Byte p) = False"
| "nullable (Seq r s) = (nullable r \<and> nullable s)"
| "nullable (Alt r s) = (nullable r \<or> nullable s)"
| "nullable (Star r) = True"

primrec deriv :: "char \<Rightarrow> re \<Rightarrow> re" where
  "deriv c Never = Never"
| "deriv c Empty = Never"
| "deriv c (Byte p) = (if p c then Empty else Never)"
| "deriv c (Seq r s) =
     (if nullable r then Alt (Seq (deriv c r) s) (deriv c s) else Seq (deriv c r) s)"
| "deriv c (Alt r s) = Alt (deriv c r) (deriv c s)"
| "deriv c (Star r) = Seq (deriv c r) (Star r)"

fun matches :: "re \<Rightarrow> string \<Rightarrow> bool" where
  "matches r [] = nullable r"
| "matches r (c # cs) = matches (deriv c r) cs"

lemma matches_Never [simp]: "\<not> matches Never s"
  by (induction s) simp_all

lemma matches_Empty [simp]: "matches Empty s \<longleftrightarrow> s = []"
  by (cases s) simp_all

lemma matches_Byte [simp]: "matches (Byte p) s \<longleftrightarrow> (\<exists>c. s = [c] \<and> p c)"
  by (cases s) auto

lemma matches_Alt [simp]: "matches (Alt r q) s \<longleftrightarrow> matches r s \<or> matches q s"
  by (induction s arbitrary: r q) simp_all

lemma split_Cons_iff:
  "(\<exists>u v. c # s = u @ v \<and> P u v) \<longleftrightarrow> P [] (c # s) \<or> (\<exists>u v. s = u @ v \<and> P (c # u) v)"
  (is "?L \<longleftrightarrow> ?R")
proof
  assume ?L
  then obtain u v where "c # s = u @ v" "P u v" by blast
  then show ?R by (cases u) auto
next
  assume ?R
  then show ?L by (metis append_Cons append_Nil)
qed

lemma matches_Seq: "matches (Seq r q) s \<longleftrightarrow> (\<exists>u v. s = u @ v \<and> matches r u \<and> matches q v)"
proof (induction s arbitrary: r q)
  case Nil
  then show ?case by simp
next
  case (Cons c s)
  have "matches (Seq r q) (c # s) \<longleftrightarrow>
      nullable r \<and> matches (deriv c q) s \<or> matches (Seq (deriv c r) q) s"
    by auto
  then show ?case by (simp add: Cons.IH split_Cons_iff)
qed

lemma matches_Seq_Empty [simp]: "matches (Seq Empty r) s \<longleftrightarrow> matches r s"
  by (simp add: matches_Seq)

lemma matches_Seq_Never [simp]: "\<not> matches (Seq Never r) s"
  by (simp add: matches_Seq)

lemma matches_Star_Byte: "matches (Star (Byte p)) s \<longleftrightarrow> list_all p s"
  by (induction s) simp_all

section \<open>Go patterns\<close>

definition upper :: "char \<Rightarrow> char" where
  "upper c =
     (let n = of_char c :: nat in if 97 \<le> n \<and> n \<le> 122 then char_of (n - 32) else c)"

definition ascii :: "char \<Rightarrow> bool" where
  "ascii c \<longleftrightarrow> (of_char c :: nat) < 128"

text \<open>What one literal character matches under \<open>(?i)\<close>.\<close>

definition fold_char :: "char \<Rightarrow> re" where
  "fold_char c =
     Alt (Byte (\<lambda>x. upper x = upper c))
       (if upper c = CHR ''K''
        then Seq (Byte ((=) (CHR 0xE2))) (Seq (Byte ((=) (CHR 0x84))) (Byte ((=) (CHR 0xAA))))
        else if upper c = CHR ''S'' then Seq (Byte ((=) (CHR 0xC5))) (Byte ((=) (CHR 0xBF)))
        else Never)"

definition any_plus :: re where
  "any_plus = Seq (Byte (\<lambda>x. x \<noteq> CHR 0x0A)) (Star (Byte (\<lambda>x. x \<noteq> CHR 0x0A)))"

definition alpha :: "char \<Rightarrow> bool" where
  "alpha c \<longleftrightarrow>
     (let n = of_char c :: nat in 65 \<le> n \<and> n \<le> 90 \<or> 97 \<le> n \<and> n \<le> 122 \<or> c = CHR ''_'')"

definition alnum :: "char \<Rightarrow> bool" where
  "alnum c \<longleftrightarrow> alpha c \<or> (let n = of_char c :: nat in 48 \<le> n \<and> n \<le> 57)"

text \<open>
  \<open>regexp.Compile("(?i)^" + rgx + "$")\<close> for patterns made of ASCII letters, digits, underscores
  and \<open>.+\<close>; \<open>None\<close> for a pattern outside this fragment.
\<close>

fun compile_fold :: "string \<Rightarrow> re option" where
  "compile_fold [] = Some Empty"
| "compile_fold (CHR ''.'' # CHR ''+'' # cs) = map_option (Seq any_plus) (compile_fold cs)"
| "compile_fold (c # cs) =
     (if alnum c then map_option (Seq (fold_char c)) (compile_fold cs) else None)"

section \<open>What the patterns match\<close>

lemma upper_alnum: "alnum c \<Longrightarrow> ascii c"
  by (auto simp: alnum_def alpha_def ascii_def Let_def)

lemma fold_char_ascii:
  "list_all ascii s \<Longrightarrow> matches (fold_char c) s \<longleftrightarrow> (\<exists>x. s = [x] \<and> upper x = upper c)"
proof -
  assume s: "list_all ascii s"
  have no: "\<not> matches (Seq (Byte ((=) c)) r) s" if "\<not> ascii c" for c r
    using s that by (auto simp: matches_Seq)
  have "\<not> ascii (CHR 0xE2)" "\<not> ascii (CHR 0xC5)" by (simp_all add: ascii_def)
  with no show ?thesis by (simp add: fold_char_def)
qed

lemma fold_char_Seq:
  assumes "list_all ascii v"
  shows "matches (Seq (fold_char c) r) v \<longleftrightarrow>
     (\<exists>x w. v = x # w \<and> upper x = upper c \<and> matches r w)"
proof
  assume "matches (Seq (fold_char c) r) v"
  then obtain u w where "v = u @ w" "matches (fold_char c) u" "matches r w"
    by (auto simp: matches_Seq)
  with assms show "\<exists>x w. v = x # w \<and> upper x = upper c \<and> matches r w"
    by (auto simp: fold_char_ascii)
next
  assume "\<exists>x w. v = x # w \<and> upper x = upper c \<and> matches r w"
  then obtain x w where "v = [x] @ w" "upper x = upper c" "matches r w" by auto
  moreover from this assms have "matches (fold_char c) [x]"
    using fold_char_ascii [of "[x]" c] by (simp del: matches.simps)
  ultimately show "matches (Seq (fold_char c) r) v" unfolding matches_Seq by blast
qed

lemma any_plus_matches: "matches any_plus s \<longleftrightarrow> s \<noteq> [] \<and> CHR 0x0A \<notin> set s"
  by (cases s) (auto simp: any_plus_def matches_Star_Byte list_all_iff)

fun literal :: "string \<Rightarrow> bool" where
  "literal s = list_all alnum s"

lemma compile_fold_Cons:
  "alnum c \<Longrightarrow> compile_fold (c # cs) = map_option (Seq (fold_char c)) (compile_fold cs)"
  by (cases "(c # cs)" rule: compile_fold.cases) (auto simp: alnum_def alpha_def)

lemma compile_fold_append:
  "list_all alnum s \<Longrightarrow>
     compile_fold (s @ t) = map_option (\<lambda>r. foldr Seq (map fold_char s) r) (compile_fold t)"
  by (induction s) (simp_all add: compile_fold_Cons option.map_comp comp_def option.map_id0)

lemma fold_literal_matches:
  assumes "list_all ascii v"
  shows "matches (foldr Seq (map fold_char s) r) v \<longleftrightarrow>
     length s \<le> length v \<and> map upper (take (length s) v) = map upper s \<and>
     matches r (drop (length s) v)"
  using assms
proof (induction s arbitrary: v)
  case Nil
  then show ?case by simp
next
  case (Cons c s)
  have "matches (foldr Seq (map fold_char (c # s)) r) v \<longleftrightarrow>
      (\<exists>x w. v = x # w \<and> upper x = upper c \<and> matches (foldr Seq (map fold_char s) r) w)"
    using Cons.prems by (simp add: fold_char_Seq)
  also have "\<dots> \<longleftrightarrow>
      length (c # s) \<le> length v \<and>
      map upper (take (length (c # s)) v) = map upper (c # s) \<and>
      matches r (drop (length (c # s)) v)"
    using Cons by (cases v) auto
  finally show ?case .
qed

lemma compile_literal: "list_all alnum s \<Longrightarrow> compile_fold s = Some (foldr Seq (map fold_char s) Empty)"
  using compile_fold_append [of s "[]"] by simp

lemma compile_literal_any_plus:
  "list_all alnum s \<Longrightarrow>
     compile_fold (s @ ''.+'') = Some (foldr Seq (map fold_char s) (Seq any_plus Empty))"
  using compile_fold_append [of s "''.+''"] by simp

lemma matches_Seq_Empty_right [simp]: "matches (Seq r Empty) s \<longleftrightarrow> matches r s"
  by (auto simp: matches_Seq)

lemma literal_matches:
  assumes "list_all ascii v"
  shows "matches (foldr Seq (map fold_char s) Empty) v \<longleftrightarrow> map upper v = map upper s"
proof
  assume "matches (foldr Seq (map fold_char s) Empty) v"
  with fold_literal_matches [OF assms, of s Empty]
  have "length v = length s" "map upper (take (length s) v) = map upper s" by auto
  then show "map upper v = map upper s" by simp
next
  assume eq: "map upper v = map upper s"
  then have "length v = length s" by (rule map_eq_imp_length_eq)
  with eq fold_literal_matches [OF assms, of s Empty]
  show "matches (foldr Seq (map fold_char s) Empty) v" by simp
qed

lemma literal_any_plus_matches:
  assumes "list_all ascii v"
  shows "matches (foldr Seq (map fold_char s) (Seq any_plus Empty)) v \<longleftrightarrow>
     length s < length v \<and> map upper (take (length s) v) = map upper s \<and>
     CHR 0x0A \<notin> set (drop (length s) v)"
  using fold_literal_matches [OF assms, of s "Seq any_plus Empty"]
  by (auto simp: any_plus_matches)

end
