(* ===== verification/Build_Controller.thy ===== *)
theory Build_Controller
  imports Events Regexp Go_Stdlib "HOL-Library.Sublist"
begin

text \<open>
  \<open>internal/controller/build_controller.go\<close>: when a build pod has succeeded, the scan pods left
  in its namespace are deleted, a pod that scans the images of the namespace's deployments is
  created, and the build pod is labelled as scanned. The model keeps the code's two panics: a build
  pod without containers, and a write to the nil map of a build pod without labels.
\<close>

section \<open>Constants and state\<close>

definition insightsBuildPodScannedLabel :: string where
  "insightsBuildPodScannedLabel = ''insights.lagoon.sh/scanned''"

definition insightsScanPodLabel :: string where
  "insightsScanPodLabel = ''insights.lagoon.sh/scan-status''"

definition insightImageScannerPodLabel :: string where
  "insightImageScannerPodLabel = ''insights.lagoon.sh/imagescanner''"

definition dockerHostAnnotationKey :: string where
  "dockerHostAnnotationKey = ''dockerhost.lagoon.sh/name''"

definition defaultDockerhost :: string where
  "defaultDockerhost = ''docker-host.lagoon.svc''"

record BuildReconciler =
  BuildJWTSecret :: string
  ScanImageName :: string
  ExtraEnvVars :: "(string, string) fmap"

section \<open>The scan pod\<close>

definition imageScanPodLabels :: "(string, string) fmap" where
  "imageScanPodLabels =
     fmap_of_list [(insightsScanPodLabel, ''scanning''), (insightImageScannerPodLabel, ''true'')]"

definition scannerNameFromBuildname :: "string \<Rightarrow> string" where
  "scannerNameFromBuildname buildName = ''insights-scanner-'' @ buildName"

definition extractDockerHost :: "Pod \<Rightarrow> go_error + string" where
  "extractDockerHost buildPod =
     (case mlookup (Annotations buildPod) dockerHostAnnotationKey of
        Some val \<Rightarrow>
          if val \<noteq> '''' then Inr val
          else Inl (Error (''empty '' @ dockerHostAnnotationKey @ '' annotation found on build pod''))
      | None \<Rightarrow>
          Inl (Error (''no '' @ dockerHostAnnotationKey @ '' annotation found on build pod'')))"

text \<open>Whether \<open>v\<close> matches one of the patterns; one that does not compile is passed over.\<close>

fun containsRegex :: "string list \<Rightarrow> string \<Rightarrow> bool" where
  "containsRegex [] v = False"
| "containsRegex (rgx # rgxs) v =
     (case compile_fold rgx of
        None \<Rightarrow> containsRegex rgxs v
      | Some re \<Rightarrow> if matches re v then True else containsRegex rgxs v)"

definition copyVars :: "string list" where
  "copyVars =
     [''BRANCH'', ''BUILD_TYPE'', ''ENVIRONMENT'', ''ENVIRONMENT_TYPE'', ''PROJECT'',
      ''PR_BASE_BRANCH'', ''PR_HEAD_BRANCH'', ''PR_NUMBER'',
      ''LAGOON_ENVIRONMENT_VARIABLES'', ''LAGOON_FEATURE_FLAG_.+'']"

definition env_value :: "string \<Rightarrow> string \<Rightarrow> EnvVar" where
  "env_value name val = \<lparr>EnvVarName = name, EnvVarValue = val, EnvVarValueFrom = None\<rparr>"

definition ownEnv :: "Pod \<Rightarrow> string list \<Rightarrow> string \<Rightarrow> (string, EnvVar) fmap" where
  "ownEnv buildPod images dockerhost =
     fmap_of_list
       [(''INSIGHT_SCAN_IMAGES'', env_value ''INSIGHT_SCAN_IMAGES'' (Join images '','')),
        (''NAMESPACE'', env_value ''NAMESPACE'' (Namespace buildPod)),
        (''DOCKER_HOST'', env_value ''DOCKER_HOST'' dockerhost),
        (''LAGOON_BUILD_NAME'', env_value ''LAGOON_BUILD_NAME'' (Name buildPod))]"

fun copyEnv :: "EnvVar list \<Rightarrow> (string, EnvVar) fmap \<Rightarrow> (string, EnvVar) fmap" where
  "copyEnv [] envMap = envMap"
| "copyEnv (e # es) envMap =
     copyEnv es (if containsRegex copyVars (EnvVarName e) then fmupd (EnvVarName e) e envMap
                 else envMap)"

text \<open>Ranging over the extra variables writes each of them: the order does not matter.\<close>

definition extraEnv :: "(string, string) fmap \<Rightarrow> (string, EnvVar) fmap" where
  "extraEnv extraEnvVars = fmmap_keys env_value extraEnvVars"

definition envSlice :: "(string, EnvVar) fmap \<Rightarrow> EnvVar list" where
  "envSlice envMap = map (\<lambda>k. the (fmlookup envMap k)) (sorted_list_of_fset (fmdom envMap))"

definition scanPod :: "Pod \<Rightarrow> string \<Rightarrow> EnvVar list \<Rightarrow> Pod" where
  "scanPod buildPod scanImageName envVars =
     \<lparr>Name = scannerNameFromBuildname (Name buildPod),
      Namespace = Namespace buildPod,
      Labels = Some imageScanPodLabels,
      Annotations = None,
      ServiceAccountName = ''lagoon-deployer'',
      Containers =
        [\<lparr>ContainerName = ''scanner'', Image = scanImageName, ImagePullPolicy = ''Always'',
          Env = envVars,
          VolumeMounts =
            [\<lparr>VolumeMountName = ''lagoon-internal-registry-secret'',
              MountPath = ''/home/.docker/'', ReadOnly = True\<rparr>]\<rparr>],
      RestartPolicy = ''Never'',
      Volumes =
        [\<lparr>VolumeName = ''lagoon-internal-registry-secret'',
          VolumeSecretName = ''lagoon-internal-registry-secret'',
          VolumeItems = [(''.dockerconfigjson'', ''config.json'')]\<rparr>],
      PodPhase = ''''\<rparr>"

text \<open>\<open>buildPod.Spec.Containers[0]\<close> panics for a pod without containers.\<close>

definition index_out_of_range :: string where
  "index_out_of_range = ''runtime error: index out of range [0] with length 0''"

definition generateScanPodSpec ::
  "Pod \<Rightarrow> string list \<Rightarrow> string \<Rightarrow> string \<Rightarrow> (string, string) fmap \<Rightarrow> (go_error + Pod) exec" where
  "generateScanPodSpec buildPod images scanImageName dockerhost extraEnvVars =
     (if images = [] then Returns (Inl (Error ''no images to scan''))
      else
        (case Containers buildPod of
           [] \<Rightarrow> Panics index_out_of_range
         | container # _ \<Rightarrow>
             Returns (Inr (scanPod buildPod scanImageName
               (envSlice
                 (copyEnv (Env container) (ownEnv buildPod images dockerhost)
                    ++\<^sub>f extraEnv extraEnvVars))))))"

section \<open>Reconcile\<close>

definition scanDeployments :: "'c environment \<Rightarrow> string \<Rightarrow> ('c, go_error + string list) comp" where
  "scanDeployments E namespace =
     attempt (ListDeployments E namespace) (\<lambda>err. ret (Inl err)) (\<lambda>deployments.
     ret (Inr (concat (map (\<lambda>d. map Image (TemplateContainers d)) deployments))))"

fun deletePods :: "'c environment \<Rightarrow> Pod list \<Rightarrow> ('c, go_error + unit) comp" where
  "deletePods E [] = ret (Inr ())"
| "deletePods E (p # pods) =
     attempt (DeletePod E p) (\<lambda>err. ret (Inl err)) (\<lambda>_. deletePods E pods)"

definition killExistingScans :: "'c environment \<Rightarrow> string \<Rightarrow> ('c, go_error + unit) comp" where
  "killExistingScans E namespace =
     attempt (ListPods E namespace imageScanPodLabels) (\<lambda>err. ret (Inl err)) (\<lambda>pods.
     deletePods E pods)"

definition nil_map_write :: string where
  "nil_map_write = ''assignment to entry in nil map''"

definition labelScanned :: "'c environment \<Rightarrow> Pod \<Rightarrow> ('c, go_error + unit) comp" where
  "labelScanned E buildPod =
     (case Labels buildPod of
        None \<Rightarrow> panic nil_map_write
      | Some labels \<Rightarrow>
          attempt
            (UpdatePod E (buildPod\<lparr>Labels := Some (fmupd insightsBuildPodScannedLabel ''true'' labels)\<rparr>))
            (\<lambda>err. ret (IgnoreNotFound err)) (\<lambda>_. ret (Inr ())))"

definition dockerHostOf :: "Pod \<Rightarrow> string" where
  "dockerHostOf buildPod =
     (case extractDockerHost buildPod of Inl err \<Rightarrow> defaultDockerhost | Inr host \<Rightarrow> host)"

definition reconcileBuild ::
  "'c environment \<Rightarrow> BuildReconciler \<Rightarrow> NamespacedName \<Rightarrow> ('c, go_error + unit) comp" where
  "reconcileBuild E R req =
     attempt (GetPod E req) (\<lambda>err. ret (IgnoreNotFound err)) (\<lambda>buildPod.
     if PodPhase buildPod = ''Succeeded''
     then
       attempt (scanDeployments E (Namespace buildPod)) (\<lambda>err. ret (IgnoreNotFound err)) (\<lambda>imageList.
       attempt
         (lift_exec (generateScanPodSpec buildPod imageList (ScanImageName R)
            (dockerHostOf buildPod) (ExtraEnvVars R)))
         (\<lambda>err. ret (IgnoreNotFound err)) (\<lambda>podspec.
       attempt (killExistingScans E (Namespace buildPod)) (\<lambda>err. ret (IgnoreNotFound err)) (\<lambda>_.
       attempt (CreatePod E podspec) (\<lambda>err. ret (IgnoreNotFound err)) (\<lambda>_.
       labelScanned E buildPod))))
     else ret (Inr ()))"

section \<open>Event filter\<close>

definition buildPodEligible :: "'a ObjectMeta_scheme \<Rightarrow> bool" where
  "buildPodEligible obj =
     (if isl (getValueFromMap (Labels obj) ''lagoon.sh/buildName'') then False
      else if \<not> isl (getValueFromMap (Labels obj) insightsScanPodLabel) then False
      else if \<not> isl (getValueFromMap (Labels obj) insightsBuildPodScannedLabel) then False
      else True)"

definition successfulBuildPodsPredicate :: "'a ObjectMeta_scheme predicate_funcs" where
  "successfulBuildPodsPredicate =
     \<lparr>CreateFunc = Some (\<lambda>obj. False),
      UpdateFunc = Some (\<lambda>old new. buildPodEligible new),
      DeleteFunc = Some (\<lambda>obj. False),
      GenericFunc = Some (\<lambda>obj. False)\<rparr>"

definition setupBuildController :: "Pod controller_setup" where
  "setupBuildController =
     \<lparr>ForKind = ''Pod'', EventFilters = [successfulBuildPodsPredicate],
      MaxConcurrentReconciles = None\<rparr>"

interpretation build_pods: event_filter successfulBuildPodsPredicate
  by unfold_locales (simp_all add: successfulBuildPodsPredicate_def)

section \<open>Which variables are copied\<close>

definition exactCopyVars :: "string list" where
  "exactCopyVars =
     [''BRANCH'', ''BUILD_TYPE'', ''ENVIRONMENT'', ''ENVIRONMENT_TYPE'', ''PROJECT'',
      ''PR_BASE_BRANCH'', ''PR_HEAD_BRANCH'', ''PR_NUMBER'', ''LAGOON_ENVIRONMENT_VARIABLES'']"

definition featureFlagPrefix :: string where
  "featureFlagPrefix = ''LAGOON_FEATURE_FLAG_''"

lemma containsRegex_literals:
  assumes "list_all ascii v" and "\<forall>s\<in>set ss. list_all alnum s"
  shows "containsRegex (ss @ rest) v \<longleftrightarrow>
    map upper v \<in> map upper ` set ss \<or> containsRegex rest v"
  using assms by (induction ss) (simp_all add: compile_literal literal_matches)

lemma alnum_copyVars:
  "\<forall>s\<in>set exactCopyVars. list_all alnum s"
  "list_all alnum featureFlagPrefix"
  "\<forall>s\<in>set exactCopyVars. map upper s = s"
  "map upper featureFlagPrefix = featureFlagPrefix"
  by code_simp+

lemma copyVars_parts: "copyVars = exactCopyVars @ [featureFlagPrefix @ ''.+'']"
  by (simp add: copyVars_def exactCopyVars_def featureFlagPrefix_def)

text \<open>
  An ASCII name is copied if, ignoring case, it is one of the nine names or a feature flag with a
  non-empty name.
\<close>

lemma containsRegex_copyVars:
  assumes "list_all ascii v"
  shows "containsRegex copyVars v \<longleftrightarrow>
    map upper v \<in> set exactCopyVars \<or>
    length featureFlagPrefix < length v \<and>
    map upper (take (length featureFlagPrefix) v) = featureFlagPrefix \<and>
    CHR 0x0A \<notin> set (drop (length featureFlagPrefix) v)"
proof -
  have "map upper ` set exactCopyVars = set exactCopyVars"
    using alnum_copyVars(3) by force
  then show ?thesis
    unfolding copyVars_parts containsRegex_literals [OF assms alnum_copyVars(1)]
    by (auto simp: compile_literal_any_plus [OF alnum_copyVars(2)]
        literal_any_plus_matches [OF assms] alnum_copyVars(4))
qed

section \<open>The environment of the scan pod\<close>

text \<open>Every entry of the map is stored under its own name, so the slice is sorted by name.\<close>

definition named_env :: "(string, EnvVar) fmap \<Rightarrow> bool" where
  "named_env m \<longleftrightarrow> (\<forall>k e. fmlookup m k = Some e \<longrightarrow> EnvVarName e = k)"

lemma named_env_fmupd: "named_env m \<Longrightarrow> named_env (fmupd (EnvVarName e) e m)"
  by (simp add: named_env_def)

lemma named_env_ownEnv: "named_env (ownEnv pod images host)"
  by (auto simp: named_env_def ownEnv_def env_value_def fmlookup_of_list split: if_splits)

lemma named_env_copyEnv: "named_env m \<Longrightarrow> named_env (copyEnv es m)"
  by (induction es arbitrary: m) (simp_all add: named_env_fmupd)

lemma fmlookup_extraEnv [simp]:
  "fmlookup (extraEnv ex) k = map_option (env_value k) (fmlookup ex k)"
  by (simp add: extraEnv_def)

lemma named_env_extra: "named_env m \<Longrightarrow> named_env (m ++\<^sub>f extraEnv ex)"
  by (auto simp: named_env_def env_value_def fmdom'_alt_def split: if_splits)

lemma names_envSlice:
  assumes "named_env m"
  shows "map EnvVarName (envSlice m) = sorted_list_of_fset (fmdom m)"
proof -
  have "EnvVarName (the (fmlookup m k)) = k" if "k \<in> set (sorted_list_of_fset (fmdom m))" for k
  proof -
    from that have "k |\<in>| fmdom m" by (simp add: sorted_list_of_fset.rep_eq)
    then obtain e where "fmlookup m k = Some e" by (meson fmdomE)
    with assms show ?thesis by (simp add: named_env_def)
  qed
  then show ?thesis by (auto simp: envSlice_def comp_def intro: map_idI)
qed

lemma map_of_envSlice:
  assumes "named_env m"
  shows "map_of (map (\<lambda>e. (EnvVarName e, e)) (envSlice m)) k = fmlookup m k"
proof -
  have dist: "distinct (map fst (map (\<lambda>e. (EnvVarName e, e)) (envSlice m)))"
    using names_envSlice [OF assms] by (simp add: comp_def sorted_list_of_fset.rep_eq)
  have mem: "e \<in> set (envSlice m) \<longleftrightarrow> (\<exists>k. fmlookup m k = Some e)" for e
    by (force simp: envSlice_def sorted_list_of_fset.rep_eq fmlookup_dom_iff image_iff)
  show ?thesis
  proof (cases "fmlookup m k")
    case None
    with assms mem show ?thesis
      by (auto simp: map_of_eq_None_iff named_env_def)
  next
    case (Some e)
    with assms mem have "(k, e) \<in> set (map (\<lambda>e. (EnvVarName e, e)) (envSlice m))"
      by (force simp: named_env_def)
    with dist Some show ?thesis by simp
  qed
qed

text \<open>The last copied variable of a name wins over the four the scanner always gets.\<close>

lemma fmlookup_copyEnv:
  "fmlookup (copyEnv es m) k =
     (case find (\<lambda>e. EnvVarName e = k) (rev (filter (\<lambda>e. containsRegex copyVars (EnvVarName e)) es)) of
        None \<Rightarrow> fmlookup m k
      | Some e \<Rightarrow> Some e)"
proof (induction es arbitrary: m)
  case (Cons e es)
  have find_append: "find P (xs @ ys) = (case find P xs of None \<Rightarrow> find P ys | Some x \<Rightarrow> Some x)"
    for P :: "EnvVar \<Rightarrow> bool" and xs ys
    by (induction xs) simp_all
  from Cons show ?case by (simp add: find_append split: option.split)
qed simp

lemma copyEnv_own:
  assumes "\<not> containsRegex copyVars k"
  shows "fmlookup (copyEnv es m) k = fmlookup m k"
proof -
  have "find (\<lambda>e. EnvVarName e = k) (rev (filter (\<lambda>e. containsRegex copyVars (EnvVarName e)) es)) = None"
    using assms by (auto simp: find_None_iff)
  then show ?thesis by (simp add: fmlookup_copyEnv)
qed

section \<open>The writes of a reconciliation\<close>

definition scannedPod :: "Pod \<Rightarrow> (string, string) fmap \<Rightarrow> Pod" where
  "scannedPod buildPod labels =
     buildPod\<lparr>Labels := Some (fmupd insightsBuildPodScannedLabel ''true'' labels)\<rparr>"

text \<open>The old scan pods go first, then the new one comes, then the build pod is labelled.\<close>

definition buildPlan :: "Pod list \<Rightarrow> Pod \<Rightarrow> Pod \<Rightarrow> effect list" where
  "buildPlan oldPods spec buildPod =
     map (\<lambda>p. KDeletePod (key p)) oldPods @ [KCreatePod spec] @
     (case Labels buildPod of
        None \<Rightarrow> []
      | Some labels \<Rightarrow> [KUpdatePod (scannedPod buildPod labels)])"

text \<open>How the cluster answers such a write.\<close>

definition pod_answer :: "'c environment \<Rightarrow> effect \<Rightarrow> ('c, unit) answer" where
  "pod_answer E call =
     (case call of
        KDeletePod k \<Rightarrow> delete_pod E k
      | KCreatePod p \<Rightarrow> create_pod E p
      | KUpdatePod p \<Rightarrow> update_pod E p
      | _ \<Rightarrow> (\<lambda>c. (Inr (), c)))"

text \<open>The writes of a plan that are made: all up to and including the first one that is refused.\<close>

fun attempted :: "'c environment \<Rightarrow> effect list \<Rightarrow> 'c \<Rightarrow> effect list" where
  "attempted E [] c = []"
| "attempted E (call # plan) c =
     call # (case pod_answer E call c of
               (Inl err, c') \<Rightarrow> []
             | (Inr u, c') \<Rightarrow> attempted E plan c')"

lemma attempted_prefix: "prefix (attempted E plan c) plan"
  by (induction plan arbitrary: c) (auto split: prod.split sum.split)

lemma attempted_writes: "list_all kube_write plan \<Longrightarrow> list_all kube_write (attempted E plan c)"
  by (induction plan arbitrary: c) (auto split: prod.split sum.split)

lemma deletePods_attempted:
  "deletePods E pods w = (r, w') \<Longrightarrow>
     \<exists>es res. r = Returns res \<and> calls w' = calls w @ es \<and>
       attempted E (map (\<lambda>p. KDeletePod (key p)) pods @ rest) (outside w) =
         (case res of Inl err \<Rightarrow> es | Inr u \<Rightarrow> es @ attempted E rest (outside w'))"
proof (induction pods arbitrary: w)
  case Nil
  then show ?case by (auto simp: ret_def)
next
  case (Cons p pods)
  obtain d c where del: "delete_pod E (key p) (outside w) = (d, c)" by fastforce
  show ?case
  proof (cases d)
    case (Inl err)
    with Cons.prems del show ?thesis by (auto simp: DeletePod_def monad_defs pod_answer_def)
  next
    case (Inr u)
    let ?w = "w\<lparr>outside := c, calls := calls w @ [KDeletePod (key p)]\<rparr>"
    from Cons.prems del Inr have "deletePods E pods ?w = (r, w')"
      by (simp add: DeletePod_def monad_defs)
    from Cons.IH [OF this] obtain es res where
      "calls w' = calls ?w @ es" "r = Returns res"
      "attempted E (map (\<lambda>p. KDeletePod (key p)) pods @ rest) (outside ?w) =
         (case res of Inl err \<Rightarrow> es | Inr u \<Rightarrow> es @ attempted E rest (outside w'))" by blast
    with del Inr show ?thesis
      by (intro exI [of _ "KDeletePod (key p) # es"] exI [of _ res])
        (simp add: pod_answer_def split: sum.split)
  qed
qed

lemma labelScanned_log:
  assumes "labelScanned E pod w = (r, w')"
  shows "calls w' = calls w @
      (case Labels pod of None \<Rightarrow> [] | Some labels \<Rightarrow> [KUpdatePod (scannedPod pod labels)])"
    and "r = Panics msg \<Longrightarrow> Labels pod = None"
proof -
  show "calls w' = calls w @
      (case Labels pod of None \<Rightarrow> [] | Some labels \<Rightarrow> [KUpdatePod (scannedPod pod labels)])"
    using assms
    by (auto simp: labelScanned_def scannedPod_def UpdatePod_def monad_defs
        split: option.splits prod.splits sum.splits)
  show "r = Panics msg \<Longrightarrow> Labels pod = None"
    using assms
    by (auto simp: labelScanned_def UpdatePod_def monad_defs
        split: option.splits prod.splits sum.splits)
qed

text \<open>Everything after the pod specification, as one computation with its log.\<close>

definition replaceScan ::
  "'c environment \<Rightarrow> Pod \<Rightarrow> Pod \<Rightarrow> ('c, go_error + unit) comp" where
  "replaceScan E buildPod podspec =
     attempt (killExistingScans E (Namespace buildPod)) (\<lambda>err. ret (IgnoreNotFound err)) (\<lambda>_.
     attempt (CreatePod E podspec) (\<lambda>err. ret (IgnoreNotFound err)) (\<lambda>_.
     labelScanned E buildPod))"

text \<open>What a reconciliation attempts once it has the specification of the new pod.\<close>

definition replacement :: "'c environment \<Rightarrow> Pod \<Rightarrow> Pod \<Rightarrow> 'c \<Rightarrow> effect list" where
  "replacement E buildPod spec c =
     (case list_pods E (Namespace buildPod) imageScanPodLabels c of
        (Inl err, c') \<Rightarrow> []
      | (Inr pods, c') \<Rightarrow> attempted E (buildPlan pods spec buildPod) c')"

lemma buildPlan_writes: "list_all kube_write (buildPlan pods spec pod)"
  by (auto simp: buildPlan_def list_all_iff split: option.splits)

lemma replacement_writes: "filter kube_write (replacement E pod spec c) = replacement E pod spec c"
proof -
  have "list_all kube_write (replacement E pod spec c)"
    by (auto simp: replacement_def intro: attempted_writes buildPlan_writes split: prod.split sum.split)
  then show ?thesis by (simp add: list_all_iff)
qed

lemma created_attempted:
  "attempted E (buildPlan [] spec pod) c =
     KCreatePod spec #
     (case create_pod E spec c of
        (Inl err, c') \<Rightarrow> []
      | (Inr u, c') \<Rightarrow>
          (case Labels pod of None \<Rightarrow> [] | Some labels \<Rightarrow> [KUpdatePod (scannedPod pod labels)]))"
  by (auto simp: buildPlan_def pod_answer_def split: prod.split sum.split option.split)

lemma buildPlan_rest:
  "buildPlan pods spec pod = map (\<lambda>p. KDeletePod (key p)) pods @ buildPlan [] spec pod"
  by (simp add: buildPlan_def)

lemma replaceScan_log:
  assumes "replaceScan E pod spec w = (r, w')"
  shows "calls w' = calls w @ KListPods (Namespace pod) imageScanPodLabels #
      replacement E pod spec (outside w) \<and> (\<forall>msg. r = Panics msg \<longrightarrow> Labels pod = None)"
proof -
  obtain l c where list: "list_pods E (Namespace pod) imageScanPodLabels (outside w) = (l, c)"
    by fastforce
  let ?w = "w\<lparr>outside := c, calls := calls w @ [KListPods (Namespace pod) imageScanPodLabels]\<rparr>"
  let ?tail = "\<lambda>_. attempt (CreatePod E spec) (\<lambda>err. ret (IgnoreNotFound err)) (\<lambda>_. labelScanned E pod)"
  show ?thesis
  proof (cases l)
    case (Inl err)
    with assms list show ?thesis
      by (auto simp: replaceScan_def killExistingScans_def ListPods_def monad_defs replacement_def)
  next
    case (Inr pods)
    have run: "replaceScan E pod spec w =
        attempt (deletePods E pods) (\<lambda>err. ret (IgnoreNotFound err)) ?tail ?w"
      using list Inr by (simp add: replaceScan_def killExistingScans_def ListPods_def monad_defs)
    obtain d w1 where del: "deletePods E pods ?w = (d, w1)" by fastforce
    from deletePods_attempted [OF del, of "buildPlan [] spec pod"] obtain es res where
      d: "d = Returns res" and w1: "calls w1 = calls ?w @ es" and
      made: "attempted E (buildPlan pods spec pod) c =
         (case res of Inl err \<Rightarrow> es | Inr u \<Rightarrow> es @ attempted E (buildPlan [] spec pod) (outside w1))"
      by (auto simp: buildPlan_rest [of pods])
    from list Inr have replacement: "replacement E pod spec (outside w) =
        attempted E (buildPlan pods spec pod) c" by (simp add: replacement_def)
    show ?thesis
    proof (cases res)
      case (Inl err)
      with assms run del d w1 made replacement show ?thesis by (auto simp: monad_defs)
    next
      case deleted: (Inr u)
      obtain a c2 where cr: "create_pod E spec (outside w1) = (a, c2)" by fastforce
      let ?w2 = "w1\<lparr>outside := c2, calls := calls w1 @ [KCreatePod spec]\<rparr>"
      show ?thesis
      proof (cases a)
        case (Inl err)
        with assms run del d deleted cr w1 made replacement show ?thesis
          by (auto simp: CreatePod_def monad_defs created_attempted)
      next
        case created: (Inr u')
        with assms run del d deleted cr have lab: "labelScanned E pod ?w2 = (r, w')"
          by (simp add: CreatePod_def monad_defs)
        from labelScanned_log [OF lab] w1 made replacement deleted cr created show ?thesis
          by (simp add: created_attempted)
      qed
    qed
  qed
qed

lemma scanDeployments_log:
  assumes "scanDeployments E ns w = (r, w')"
  shows "calls w' = calls w @ [KListDeployments ns]" and "\<exists>res. r = Returns res"
  using assms
  by (auto simp: scanDeployments_def ListDeployments_def monad_defs split: prod.splits sum.splits)

lemma generate_panic:
  "generateScanPodSpec pod images img host ex = Panics msg \<Longrightarrow> Containers pod = []"
  by (auto simp: generateScanPodSpec_def split: if_splits list.splits)

text \<open>The images of a namespace, from its deployments.\<close>

definition imagesOf :: "Deployment list \<Rightarrow> string list" where
  "imagesOf deployments = concat (map (\<lambda>d. map Image (TemplateContainers d)) deployments)"

lemma scanDeployments_run:
  "scanDeployments E n w =
     (case list_deployments E n (outside w) of
        (res, c) \<Rightarrow>
          (Returns (map_sum id imagesOf res),
           w\<lparr>outside := c, calls := calls w @ [KListDeployments n]\<rparr>))"
  by (auto simp: scanDeployments_def ListDeployments_def monad_defs imagesOf_def
      split: prod.split sum.split)

text \<open>Everything a reconciliation writes, and the only two ways it can panic.\<close>

lemma reconcileBuild_writes:
  assumes run: "reconcileBuild E R req w = (r, w')"
  shows "\<exists>ws. filter kube_write (calls w') = filter kube_write (calls w) @ ws \<and>
    (\<forall>msg. r = Panics msg \<longrightarrow> (\<exists>pod. fst (get_pod E req (outside w)) = Inr pod \<and>
       (Containers pod = [] \<or> Labels pod = None))) \<and>
    (case get_pod E req (outside w) of
       (Inl err, c1) \<Rightarrow> ws = []
     | (Inr pod, c1) \<Rightarrow>
         if PodPhase pod \<noteq> ''Succeeded'' then ws = []
         else
           (case list_deployments E (Namespace pod) c1 of
              (Inl err, c2) \<Rightarrow> ws = []
            | (Inr deployments, c2) \<Rightarrow>
                (case generateScanPodSpec pod (imagesOf deployments) (ScanImageName R)
                    (dockerHostOf pod) (ExtraEnvVars R) of
                   Returns (Inr spec) \<Rightarrow> ws = replacement E pod spec c2
                 | _ \<Rightarrow> ws = [])))"
proof -
  obtain g c1 where get: "get_pod E req (outside w) = (g, c1)" by fastforce
  let ?w = "w\<lparr>outside := c1, calls := calls w @ [KGetPod req]\<rparr>"
  show ?thesis
  proof (cases g)
    case (Inl err)
    with run get show ?thesis by (auto simp: reconcileBuild_def GetPod_def monad_defs)
  next
    case pod: (Inr pod)
    show ?thesis
    proof (cases "PodPhase pod = ''Succeeded''")
      case False
      with run get pod show ?thesis by (auto simp: reconcileBuild_def GetPod_def monad_defs)
    next
      case True
      obtain s c2 where ds: "list_deployments E (Namespace pod) c1 = (s, c2)" by fastforce
      let ?w1 = "?w\<lparr>outside := c2, calls := calls ?w @ [KListDeployments (Namespace pod)]\<rparr>"
      have scan: "scanDeployments E (Namespace pod) ?w = (Returns (map_sum id imagesOf s), ?w1)"
        using ds by (simp add: scanDeployments_run)
      show ?thesis
      proof (cases s)
        case (Inl err)
        with run get pod True scan ds show ?thesis
          by (auto simp: reconcileBuild_def GetPod_def monad_defs)
      next
        case deployments: (Inr deployments)
        let ?gen = "generateScanPodSpec pod (imagesOf deployments) (ScanImageName R)
          (dockerHostOf pod) (ExtraEnvVars R)"
        have eq: "(r, w') = attempt (lift_exec ?gen)
            (\<lambda>err. ret (IgnoreNotFound err)) (\<lambda>spec. replaceScan E pod spec) ?w1"
          using run get pod True scan deployments
          by (simp add: reconcileBuild_def replaceScan_def GetPod_def monad_defs)
        consider (panics) msg where "?gen = Panics msg" | (none) err where "?gen = Returns (Inl err)"
          | (spec) spec where "?gen = Returns (Inr spec)"
          by (cases ?gen) (auto, metis sumE)
        then show ?thesis
        proof cases
          case panics
          with eq get pod True ds deployments generate_panic [OF panics] show ?thesis
            by (auto simp: monad_defs)
        next
          case none
          with eq get pod True ds deployments show ?thesis by (auto simp: monad_defs)
        next
          case spec
          with eq have "replaceScan E pod spec ?w1 = (r, w')" by (simp add: monad_defs)
          from replaceScan_log [OF this] get pod True ds deployments spec show ?thesis
            by (auto simp: replacement_writes)
        qed
      qed
    qed
  qed
qed

lemma generated_meta:
  assumes "generateScanPodSpec pod images img host ex = Returns (Inr spec)"
  shows "Namespace spec = Namespace pod" "Name spec = scannerNameFromBuildname (Name pod)"
    "Labels spec = Some imageScanPodLabels" "Containers pod \<noteq> []" "images \<noteq> []"
  using assms by (auto simp: generateScanPodSpec_def scanPod_def split: if_splits list.splits)

lemma generate_needs_images [simp]: "generateScanPodSpec pod [] img host ex \<noteq> Returns (Inr spec)"
  by (simp add: generateScanPodSpec_def)

lemma scanned_not_eligible: "\<not> buildPodEligible (scannedPod pod labels)"
  by (simp add: buildPodEligible_def scannedPod_def)

lemma scan_pod_not_eligible:
  "generateScanPodSpec pod images img host ex = Returns (Inr spec) \<Longrightarrow> \<not> buildPodEligible spec"
  by (simp add: buildPodEligible_def generated_meta imageScanPodLabels_def
      insightsScanPodLabel_def insightImageScannerPodLabel_def)

end
