(* ===== verification/Crons.thy ===== *)
theory Crons
  imports Environment Go_Stdlib "HOL-Library.Sublist"
begin

text \<open>
  The two periodic jobs of \<open>cmd/main.go\<close>: deleting ConfigMaps that have been processed
  (\<open>startBurnAfterReadingCron\<close>) and removing the deferral of those whose time has passed
  (\<open>startInsightsDeferredClearCron\<close>). The body of a job is a computation; when it runs is the
  scheduler's. The locale \<open>sweep\<close> is what the two have in common.
\<close>

section \<open>Burn after reading\<close>

definition configMapListLimit :: nat where
  "configMapListLimit = 5"

definition isProcessed :: "ConfigMap \<Rightarrow> bool" where
  "isProcessed x \<longleftrightarrow> mlookup (Annotations x) InsightsUpdatedAnnotationLabel \<noteq> None"

fun burnItems :: "'c environment \<Rightarrow> ConfigMap list \<Rightarrow> ('c, unit) comp" where
  "burnItems E [] = ret ()"
| "burnItems E (x # xs) =
     (if isProcessed x
      then attempt (DeleteConfigMap E x) (\<lambda>err. burnItems E xs) (\<lambda>_. burnItems E xs)
      else burnItems E xs)"

definition burnAfterReadingJob :: "'c environment \<Rightarrow> ('c, unit) comp" where
  "burnAfterReadingJob E =
     attempt (ListConfigMaps E InsightsLabel configMapListLimit) (\<lambda>err. ret ()) (\<lambda>items.
     burnItems E items)"

section \<open>Clearing deferrals\<close>

text \<open>The stamp is read as a 32-bit number and the error is dropped.\<close>

definition writeDeferredValTS :: "string \<Rightarrow> int" where
  "writeDeferredValTS val = fst (ParseInt 32 val)"

definition withoutDeferral :: "ConfigMap \<Rightarrow> ConfigMap" where
  "withoutDeferral x = x\<lparr>Labels := map_option (fmdrop InsightsWriteDeferred) (Labels x)\<rparr>"

text \<open>
  The loop tests the variable \<open>err\<close> of the enclosing function, which only the updates of the
  loop itself assign after the list has succeeded: it is the second argument.
\<close>

fun clearItems :: "'c environment \<Rightarrow> go_error option \<Rightarrow> ConfigMap list \<Rightarrow> ('c, unit) comp" where
  "clearItems E err [] = ret ()"
| "clearItems E err (x # xs) =
     (case mlookup (Labels x) InsightsWriteDeferred of
        None \<Rightarrow> clearItems E err xs
      | Some writeDeferredVal \<Rightarrow>
          (case err of
             Some e \<Rightarrow> clearItems E err xs
           | None \<Rightarrow>
               bind (TimeNow E) (\<lambda>now.
               if now > writeDeferredValTS writeDeferredVal * 1000000000
               then attempt (UpdateConfigMap E (withoutDeferral x))
                      (\<lambda>e. clearItems E (Some e) xs) (\<lambda>_. clearItems E None xs)
               else clearItems E err xs)))"

definition deferredClearJob :: "'c environment \<Rightarrow> ('c, unit) comp" where
  "deferredClearJob E =
     attempt (ListConfigMaps E InsightsWriteDeferred configMapListLimit) (\<lambda>err. ret ()) (\<lambda>items.
     clearItems E None items)"

section \<open>What the jobs share\<close>

lemma subseq_set: "subseq xs ys \<Longrightarrow> x \<in> set xs \<Longrightarrow> x \<in> set ys"
  by (auto simp: subseq_conv_nths dest: in_set_nthsD)

text \<open>
  A job lists ConfigMaps by one label and then makes one call of one kind for some of them, in
  their order; it has no other effect.
\<close>

locale sweep =
  fixes E :: "'c environment" and label :: string and job :: "('c, unit) comp"
    and act :: "ConfigMap \<Rightarrow> effect" and wanted :: "ConfigMap \<Rightarrow> bool"
  assumes sweep_log: "job w = (r, w') \<Longrightarrow>
    \<exists>xs. calls w' = calls w @ KListConfigMaps label configMapListLimit # map act xs \<and> r = Returns () \<and>
      (xs = [] \<or> (\<exists>items. fst (list_configmaps E label configMapListLimit (outside w)) = Inr items \<and>
         subseq xs (filter wanted items)))"
begin

lemma sweep_bound:
  assumes "cm_reads E view" and "job w = (r, w')"
  shows "length (calls w') \<le> length (calls w) + 6"
proof -
  from sweep_log [OF assms(2)] obtain xs where
    w': "calls w' = calls w @ KListConfigMaps label configMapListLimit # map act xs" and
    xs: "xs = [] \<or> (\<exists>items. fst (list_configmaps E label configMapListLimit (outside w)) = Inr items \<and>
      subseq xs (filter wanted items))" by blast
  from xs have "length xs \<le> 5"
  proof
    assume "\<exists>items. fst (list_configmaps E label configMapListLimit (outside w)) = Inr items \<and>
      subseq xs (filter wanted items)"
    then obtain items where
      list: "fst (list_configmaps E label configMapListLimit (outside w)) = Inr items" and
      sub: "subseq xs (filter wanted items)" by blast
    from assms(1) list have "length items \<le> 5"
      unfolding cm_reads_def configMapListLimit_def by blast
    moreover from list_emb_length [OF sub] have "length xs \<le> length (filter wanted items)" .
    moreover have "length (filter wanted items) \<le> length items" by simp
    ultimately show ?thesis by linarith
  qed simp
  with w' show ?thesis by simp
qed

lemma sweep_acts_on_stored:
  assumes "cm_reads E view" and "job w = (r, w')"
  obtains xs where "calls w' = calls w @ KListConfigMaps label configMapListLimit # map act xs"
    "\<forall>x\<in>set xs. view (outside w) (key x) = Some x \<and> mlookup (Labels x) label \<noteq> None \<and> wanted x"
proof -
  from sweep_log [OF assms(2)] obtain xs where
    w': "calls w' = calls w @ KListConfigMaps label configMapListLimit # map act xs" and
    xs: "xs = [] \<or> (\<exists>items. fst (list_configmaps E label configMapListLimit (outside w)) = Inr items \<and>
      subseq xs (filter wanted items))" by blast
  have "view (outside w) (key x) = Some x \<and> mlookup (Labels x) label \<noteq> None \<and> wanted x"
    if "x \<in> set xs" for x
  proof -
    from xs that obtain items where
      list: "fst (list_configmaps E label configMapListLimit (outside w)) = Inr items" and
      sub: "subseq xs (filter wanted items)" by auto
    from subseq_set [OF sub that] have "x \<in> set items" "wanted x" by auto
    with assms(1) list show ?thesis unfolding cm_reads_def by blast
  qed
  with w' show thesis by (intro that [of xs]) simp_all
qed

end

section \<open>The jobs are sweeps\<close>

lemma burnItems_log:
  "burnItems E xs w = (r, w') \<Longrightarrow>
     calls w' = calls w @ map (\<lambda>x. KDeleteConfigMap (key x)) (filter isProcessed xs) \<and> r = Returns ()"
proof (induction xs arbitrary: w)
  case Nil
  then show ?case by (auto simp: ret_def)
next
  case (Cons x xs)
  show ?case
  proof (cases "isProcessed x")
    case False
    with Cons show ?thesis by simp
  next
    case True
    obtain d c where del: "delete_configmap E (key x) (outside w) = (d, c)" by fastforce
    let ?w = "w\<lparr>outside := c, calls := calls w @ [KDeleteConfigMap (key x)]\<rparr>"
    from Cons.prems True del have "burnItems E xs ?w = (r, w')"
      by (cases d) (simp_all add: DeleteConfigMap_def monad_defs)
    from Cons.IH [OF this] True show ?thesis by simp
  qed
qed

lemma burnAfterReadingJob_log:
  assumes "burnAfterReadingJob E w = (r, w')"
  shows "r = Returns () \<and> calls w' = calls w @ KListConfigMaps InsightsLabel configMapListLimit #
    (case fst (list_configmaps E InsightsLabel configMapListLimit (outside w)) of
       Inl err \<Rightarrow> []
     | Inr items \<Rightarrow> map (\<lambda>x. KDeleteConfigMap (key x)) (filter isProcessed items))"
proof -
  obtain l c where list: "list_configmaps E InsightsLabel configMapListLimit (outside w) = (l, c)"
    by fastforce
  let ?w = "w\<lparr>outside := c, calls := calls w @ [KListConfigMaps InsightsLabel configMapListLimit]\<rparr>"
  show ?thesis
  proof (cases l)
    case (Inl err)
    with assms list show ?thesis by (auto simp: burnAfterReadingJob_def ListConfigMaps_def monad_defs)
  next
    case (Inr items)
    with assms list have "burnItems E items ?w = (r, w')"
      by (simp add: burnAfterReadingJob_def ListConfigMaps_def monad_defs)
    from burnItems_log [OF this] Inr list show ?thesis by simp
  qed
qed

definition isDeferred :: "ConfigMap \<Rightarrow> bool" where
  "isDeferred x \<longleftrightarrow> mlookup (Labels x) InsightsWriteDeferred \<noteq> None"

lemma clearItems_log:
  "clearItems E err xs w = (r, w') \<Longrightarrow>
     \<exists>ys. calls w' = calls w @ map (\<lambda>x. KUpdateConfigMap (withoutDeferral x)) ys \<and> r = Returns () \<and>
       subseq ys (filter isDeferred xs)"
proof (induction xs arbitrary: err w)
  case Nil
  then show ?case by (auto simp: ret_def)
next
  case (Cons x xs)
  have skip: ?case if "clearItems E err' xs w = (r, w')" for err'
  proof -
    from Cons.IH [OF that] obtain ys where
      "calls w' = calls w @ map (\<lambda>x. KUpdateConfigMap (withoutDeferral x)) ys" "r = Returns ()"
      "subseq ys (filter isDeferred xs)" by blast
    moreover from this(3) have "subseq ys (filter isDeferred (x # xs))" by auto
    ultimately show ?thesis by blast
  qed
  show ?case
  proof (cases "mlookup (Labels x) InsightsWriteDeferred")
    case None
    with Cons.prems show ?thesis by (intro skip) simp
  next
    case (Some v)
    show ?thesis
    proof (cases err)
      case (Some e)
      with Cons.prems \<open>mlookup (Labels x) InsightsWriteDeferred = Some v\<close> show ?thesis
        by (intro skip) simp
    next
      case None
      obtain now c where now: "now_nanos E (outside w) = (now, c)" by fastforce
      show ?thesis
      proof (cases "now > writeDeferredValTS v * 1000000000")
        case False
        with Cons.prems Some None now have "clearItems E None xs (w\<lparr>outside := c\<rparr>) = (r, w')"
          by (simp add: TimeNow_def monad_defs)
        from Cons.IH [OF this] obtain ys where
          "calls w' = calls w @ map (\<lambda>x. KUpdateConfigMap (withoutDeferral x)) ys" "r = Returns ()"
          "subseq ys (filter isDeferred xs)" by auto
        moreover from this(3) have "subseq ys (filter isDeferred (x # xs))" by auto
        ultimately show ?thesis by blast
      next
        case True
        obtain u c2 where upd: "update_configmap E (withoutDeferral x) c = (u, c2)" by fastforce
        let ?w2 = "w\<lparr>outside := c2, calls := calls w @ [KUpdateConfigMap (withoutDeferral x)]\<rparr>"
        define err' where "err' = (case u of Inl e \<Rightarrow> Some e | Inr _ \<Rightarrow> None)"
        from Cons.prems Some None now True upd have "clearItems E err' xs ?w2 = (r, w')"
          by (cases u) (simp_all add: TimeNow_def UpdateConfigMap_def monad_defs err'_def)
        from Cons.IH [OF this] obtain ys where
          "calls w' = calls ?w2 @ map (\<lambda>x. KUpdateConfigMap (withoutDeferral x)) ys"
          "r = Returns ()" "subseq ys (filter isDeferred xs)" by blast
        moreover from Some have "isDeferred x" by (simp add: isDeferred_def)
        ultimately show ?thesis by (intro exI [of _ "x # ys"]) simp
      qed
    qed
  qed
qed

lemma deferredClearJob_log:
  assumes "deferredClearJob E w = (r, w')"
  shows "r = Returns () \<and>
    (\<exists>xs. calls w' = calls w @ KListConfigMaps InsightsWriteDeferred configMapListLimit #
        map (\<lambda>x. KUpdateConfigMap (withoutDeferral x)) xs \<and>
      (xs = [] \<or>
       (\<exists>items. fst (list_configmaps E InsightsWriteDeferred configMapListLimit (outside w)) = Inr items \<and>
          subseq xs (filter isDeferred items))))"
proof -
  obtain l c where
    list: "list_configmaps E InsightsWriteDeferred configMapListLimit (outside w) = (l, c)"
    by fastforce
  let ?w = "w\<lparr>outside := c,
    calls := calls w @ [KListConfigMaps InsightsWriteDeferred configMapListLimit]\<rparr>"
  show ?thesis
  proof (cases l)
    case (Inl err)
    with assms list show ?thesis by (auto simp: deferredClearJob_def ListConfigMaps_def monad_defs)
  next
    case (Inr items)
    with assms list have "clearItems E None items ?w = (r, w')"
      by (simp add: deferredClearJob_def ListConfigMaps_def monad_defs)
    from clearItems_log [OF this] Inr list show ?thesis by auto
  qed
qed

interpretation burn: sweep E InsightsLabel "burnAfterReadingJob E" "\<lambda>x. KDeleteConfigMap (key x)"
  isProcessed for E
proof unfold_locales
  fix w r w'
  assume run: "burnAfterReadingJob E w = (r, w')"
  show "\<exists>xs. calls w' = calls w @ KListConfigMaps InsightsLabel configMapListLimit #
      map (\<lambda>x. KDeleteConfigMap (key x)) xs \<and> r = Returns () \<and>
      (xs = [] \<or> (\<exists>items. fst (list_configmaps E InsightsLabel configMapListLimit (outside w)) =
         Inr items \<and> subseq xs (filter isProcessed items)))"
    using burnAfterReadingJob_log [OF run]
    by (cases "fst (list_configmaps E InsightsLabel configMapListLimit (outside w))") auto
qed

interpretation clear: sweep E InsightsWriteDeferred "deferredClearJob E"
  "\<lambda>x. KUpdateConfigMap (withoutDeferral x)" isDeferred for E
  using deferredClearJob_log by unfold_locales blast

section \<open>Deferral stamps\<close>

text \<open>A stamp of the controller is read back exactly as long as it fits 32 bits; later it sticks.\<close>

lemma stamp_read_back: "fits 32 n \<Longrightarrow> writeDeferredValTS (FormatInt n) = n"
  by (simp add: writeDeferredValTS_def int32.parse_fmt_value)

lemma stamp_clamped: "2 ^ 31 \<le> n \<Longrightarrow> writeDeferredValTS (FormatInt n) = 2 ^ 31 - 1"
  using ParseInt_out_of_range [of 32 n] by (simp add: writeDeferredValTS_def)

text \<open>After a failed update the rest of the batch is passed over.\<close>

lemma clearItems_after_error: "clearItems E (Some e) xs = ret ()"
proof (induction xs)
  case (Cons x xs)
  then show ?case by (cases "mlookup (Labels x) InsightsWriteDeferred") (simp_all add: fun_eq_iff)
qed (simp add: fun_eq_iff)

end
