(* ===== verification/Service.thy ===== *)
theory Service
  imports Post_Process Tokens Go_Stdlib
begin

text \<open>
  \<open>internal/service/service.go\<close>: the web service by which a namespace posts facts and problems,
  or asks for their deletion. A handler is a computation that returns the responses it wrote, in
  order. Parameters: what gin reads from the request, the JSON library and the token library. The
  handlers differ in what they send; that none of them acts without an accepted token is the
  contract \<open>authenticated_handler\<close>.
\<close>

section \<open>Requests and responses\<close>

text \<open>
  \<open>AuthorizationHeader\<close> and \<open>HeaderError\<close> are what \<open>ShouldBindHeader\<close> leaves in the
  struct and returns; a path parameter that is not there reads as the empty string.
\<close>

record http_request =
  AuthorizationHeader :: string
  HeaderError :: "go_error option"
  RequestBody :: bytes
  PathParam :: "string \<Rightarrow> string"

datatype response_body = JError go_error | JStatus string string | JMessage string

type_synonym response = "nat \<times> response_body"

record json_lib =
  json_marshal :: encoder
  json_problem_list :: "bytes \<Rightarrow> go_error + Problem slice"
  json_fact_list :: "bytes \<Rightarrow> go_error + Fact slice"
  json_facts_into :: "bytes \<Rightarrow> Facts \<Rightarrow> go_error + Facts"

record 'c routerInstance =
  secret :: string
  MessageQWriter :: "'c writer"
  WriteToQueue :: bool

section \<open>The steps the handlers share\<close>

text \<open>A header that does not bind is answered, but the handler goes on.\<close>

definition headerResponses :: "http_request \<Rightarrow> response list" where
  "headerResponses req = (case HeaderError req of None \<Rightarrow> [] | Some err \<Rightarrow> [(200, JError err)])"

definition authenticated ::
  "jwt_lib \<Rightarrow> 'c routerInstance \<Rightarrow> http_request
    \<Rightarrow> (NamespaceDetails \<Rightarrow> ('c, response) comp) \<Rightarrow> ('c, response list) comp" where
  "authenticated L r req act =
     bind (lift_exec
         (ValidateAndExtractNamespaceDetailsFromToken L (secret r) (AuthorizationHeader req)))
       (\<lambda>(namespace, err).
     case err of
       Some e \<Rightarrow> ret (headerResponses req @ [(401, JStatus ''unauthorized'' (error_text e))])
     | None \<Rightarrow> bind (act namespace) (\<lambda>resp. ret (headerResponses req @ [resp])))"

definition writeToQueue :: "'c routerInstance \<Rightarrow> bytes \<Rightarrow> ('c, go_error + unit) comp" where
  "writeToQueue r jsonRep =
     (if WriteToQueue r
      then attempt (MessageQWriter r jsonRep) (\<lambda>err. ret (Inl err)) (\<lambda>_. ret (Inr ()))
      else ret (Inr ()))"

definition publish :: "json_lib \<Rightarrow> 'c routerInstance \<Rightarrow> document \<Rightarrow> ('c, response) comp" where
  "publish J r doc =
     attempt (ret (json_marshal J doc)) (\<lambda>err. ret (500, JError err)) (\<lambda>jsonRep.
     attempt (writeToQueue r jsonRep) (\<lambda>err. ret (500, JError err)) (\<lambda>_.
     ret (200, JMessage ''okay'')))"

definition webServiceSource :: string where
  "webServiceSource = ''InsightsRemoteWebService''"

definition sourceOr :: "string \<Rightarrow> string" where
  "sourceOr source = (if source = '''' then webServiceSource else source)"

section \<open>The handlers\<close>

definition generateDeletionMessage ::
  "jwt_lib \<Rightarrow> json_lib \<Rightarrow> 'c routerInstance \<Rightarrow> string \<Rightarrow> http_request \<Rightarrow> ('c, response list) comp" where
  "generateDeletionMessage L J r deletionType req =
     authenticated L r req (\<lambda>namespace.
     attempt (ret (parse_int 32 (TokenEnvironmentId namespace)))
       (\<lambda>err. ret (400, JStatus ''BAD REQUEST'' (error_text err))) (\<lambda>envid.
     publish J r
       (DocDelete
          \<lparr>DeleteType = deletionType, DeleteEnvironmentId = envid,
           DeleteSource = PathParam req ''source'', DeleteService = PathParam req ''service''\<rparr>)))"

definition deleteProblems ::
  "jwt_lib \<Rightarrow> json_lib \<Rightarrow> 'c routerInstance \<Rightarrow> http_request \<Rightarrow> ('c, response list) comp" where
  "deleteProblems L J r req = generateDeletionMessage L J r deleteProblemsType req"

definition deleteFacts ::
  "jwt_lib \<Rightarrow> json_lib \<Rightarrow> 'c routerInstance \<Rightarrow> http_request \<Rightarrow> ('c, response list) comp" where
  "deleteFacts L J r req = generateDeletionMessage L J r deleteFactsType req"

definition forceProblem :: "int \<Rightarrow> Problem \<Rightarrow> Problem" where
  "forceProblem lid p =
     p\<lparr>ProblemEnvironmentId := lid, ProblemSource := sourceOr (ProblemSource p)\<rparr>"

definition problemsMessage :: "NamespaceDetails \<Rightarrow> int \<Rightarrow> Problem slice \<Rightarrow> Problems" where
  "problemsMessage namespace lid problemList =
     \<lparr>ProblemsEnvironmentId = lid,
      ProblemsProjectName = TokenProjectName namespace,
      ProblemsEnvironmentName = TokenEnvironmentName namespace,
      ProblemsProblems = map_option (map (forceProblem lid)) problemList,
      ProblemsType = ''direct.problems''\<rparr>"

definition writeProblems ::
  "jwt_lib \<Rightarrow> json_lib \<Rightarrow> 'c routerInstance \<Rightarrow> http_request \<Rightarrow> ('c, response list) comp" where
  "writeProblems L J r req =
     authenticated L r req (\<lambda>namespace.
     attempt (ret (json_problem_list J (RequestBody req)))
       (\<lambda>err. ret (400, JStatus ''Unable to parse incoming data'' (error_text err))) (\<lambda>problemList.
     attempt (ret (parse_int 32 (TokenEnvironmentId namespace)))
       (\<lambda>err. ret (400, JStatus ''Unable to parse environment ID'' (error_text err))) (\<lambda>lid.
     publish J r (DocProblems (problemsMessage namespace lid problemList)))))"

text \<open>A body is a list of facts, or the whole message, read into the one being built.\<close>

definition emptyFacts :: Facts where
  "emptyFacts =
     \<lparr>FactsEnvironmentId = 0, FactsProjectName = '''', FactsEnvironmentName = '''',
      FactsFacts = None, FactsType = ''direct.facts''\<rparr>"

definition readFacts :: "json_lib \<Rightarrow> bytes \<Rightarrow> go_error + Facts" where
  "readFacts J byteBody =
     (case json_fact_list J byteBody of
        Inl err \<Rightarrow> json_facts_into J byteBody emptyFacts
      | Inr factList \<Rightarrow> Inr (emptyFacts\<lparr>FactsFacts := factList\<rparr>))"

definition forceFact :: "NamespaceDetails \<Rightarrow> Fact \<Rightarrow> Fact" where
  "forceFact namespace f =
     f\<lparr>FactEnvironmentId := TokenEnvironmentId namespace,
       FactEnvironmentName := TokenEnvironmentName namespace,
       FactProjectName := TokenProjectName namespace,
       FactSource := sourceOr (FactSource f)\<rparr>"

definition factsMessage :: "NamespaceDetails \<Rightarrow> int \<Rightarrow> Facts \<Rightarrow> Facts" where
  "factsMessage namespace lid details =
     details\<lparr>FactsEnvironmentId := lid,
             FactsProjectName := TokenProjectName namespace,
             FactsEnvironmentName := TokenEnvironmentName namespace,
             FactsFacts := map_option (map (forceFact namespace)) (FactsFacts details)\<rparr>"

definition writeFacts ::
  "jwt_lib \<Rightarrow> json_lib \<Rightarrow> 'c routerInstance \<Rightarrow> http_request \<Rightarrow> ('c, response list) comp" where
  "writeFacts L J r req =
     authenticated L r req (\<lambda>namespace.
     attempt (ret (readFacts J (RequestBody req)))
       (\<lambda>err. ret (400, JStatus ''Unable to parse incoming data'' (error_text err))) (\<lambda>details.
     attempt (ret (parse_int 32 (TokenEnvironmentId namespace)))
       (\<lambda>err. ret (400, JStatus ''Unable to parse environment ID'' (error_text err))) (\<lambda>lid.
     publish J r (DocFacts (factsMessage namespace lid details)))))"

section \<open>The router\<close>

datatype endpoint = WriteFacts | WriteProblems | DeleteProblems | DeleteFacts

datatype http_method = POST | DELETE

definition routes :: "(http_method \<times> string \<times> endpoint) list" where
  "routes =
     [(POST, ''/facts'', WriteFacts),
      (POST, ''/problems'', WriteProblems),
      (DELETE, ''/problems/:source'', DeleteProblems),
      (DELETE, ''/problems/:source/:service'', DeleteProblems),
      (DELETE, ''/facts/:source'', DeleteFacts),
      (DELETE, ''/facts/:source/:service'', DeleteFacts)]"

fun handle ::
  "jwt_lib \<Rightarrow> json_lib \<Rightarrow> 'c routerInstance \<Rightarrow> endpoint \<Rightarrow> http_request \<Rightarrow> ('c, response list) comp" where
  "handle L J r WriteFacts req = writeFacts L J r req"
| "handle L J r WriteProblems req = writeProblems L J r req"
| "handle L J r DeleteProblems req = deleteProblems L J r req"
| "handle L J r DeleteFacts req = deleteFacts L J r req"

definition SetupRouter ::
  "jwt_lib \<Rightarrow> json_lib \<Rightarrow> string \<Rightarrow> 'c writer \<Rightarrow> bool
    \<Rightarrow> (http_method \<times> string \<times> (http_request \<Rightarrow> ('c, response list) comp)) list" where
  "SetupRouter L J jwtSecret messageQWriter queueEnabled =
     (let r = \<lparr>secret = jwtSecret, MessageQWriter = messageQWriter, WriteToQueue = queueEnabled\<rparr>
      in map (\<lambda>(method, path, e). (method, path, handle L J r e)) routes)"

section \<open>The contract of a handler\<close>

text \<open>
  A handler of a router with a secret answers 401 to a token that does not validate, and does
  nothing else; where the validation panics, so does the handler, before doing anything.
\<close>

locale authenticated_handler =
  fixes L :: jwt_lib and k :: string and h :: "http_request \<Rightarrow> ('c, response list) comp"
  assumes refuses:
      "ValidateAndExtractNamespaceDetailsFromToken L k (AuthorizationHeader req) = Returns (d, Some err) \<Longrightarrow>
       h req = ret (headerResponses req @ [(401, JStatus ''unauthorized'' (error_text err))])"
    and panics_first:
      "ValidateAndExtractNamespaceDetailsFromToken L k (AuthorizationHeader req) = Panics msg \<Longrightarrow>
       h req = panic msg"
begin

lemma acting_needs_token:
  assumes "h req w = (r, w')" and "calls w' \<noteq> calls w"
  obtains d where
    "ValidateAndExtractNamespaceDetailsFromToken L k (AuthorizationHeader req) = Returns (d, None)"
proof (cases "ValidateAndExtractNamespaceDetailsFromToken L k (AuthorizationHeader req)")
  case (Returns res)
  obtain d e where res: "res = (d, e)" by fastforce
  show ?thesis
  proof (cases e)
    case None
    with Returns res that show ?thesis by simp
  next
    case (Some err)
    with refuses [of req d err] Returns res assms show ?thesis by (auto simp: ret_def)
  qed
next
  case (Panics msg)
  with panics_first [of req msg] assms show ?thesis by (auto simp: panic_def)
qed

lemma acting_needs_hmac:
  assumes "jwt_checks L" and "h req w = (r, w')" and "calls w' \<noteq> calls w"
  obtains t alg where "jwt_parse L (AuthorizationHeader req) (hmacKeyFunc k) = (Some t, None)"
    "Valid t" "Method t = SigningMethodHMAC alg"
proof -
  from acting_needs_token [OF assms(2,3)] obtain d where
    "ValidateAndExtractNamespaceDetailsFromToken L k (AuthorizationHeader req) = Returns (d, None)" .
  from validate_accepts [OF assms(1) this] obtain t claims alg where
    "jwt_parse L (AuthorizationHeader req) (hmacKeyFunc k) = (Some t, None)" "Valid t"
    "Method t = SigningMethodHMAC alg" by metis
  then show thesis by (rule that)
qed

end

lemma authenticated_gate:
  "authenticated_handler L (secret r) (\<lambda>req. authenticated L r req (act req))"
  by unfold_locales
    (simp_all add: authenticated_def bind_def lift_exec_def ret_def panic_def fun_eq_iff)

interpretation facts_handler: authenticated_handler L "secret r" "writeFacts L J r" for L J r
  unfolding writeFacts_def [abs_def] by (rule authenticated_gate)

interpretation problems_handler: authenticated_handler L "secret r" "writeProblems L J r" for L J r
  unfolding writeProblems_def [abs_def] by (rule authenticated_gate)

interpretation deletion_handler:
  authenticated_handler L "secret r" "generateDeletionMessage L J r type" for L J r type
  unfolding generateDeletionMessage_def [abs_def] by (rule authenticated_gate)

lemma handle_endpoints:
  "handle L J r WriteFacts = writeFacts L J r"
  "handle L J r WriteProblems = writeProblems L J r"
  "handle L J r DeleteProblems = generateDeletionMessage L J r deleteProblemsType"
  "handle L J r DeleteFacts = generateDeletionMessage L J r deleteFactsType"
  by (simp_all add: fun_eq_iff deleteProblems_def deleteFacts_def)

interpretation any_handler: authenticated_handler L "secret r" "handle L J r e" for L J r e
  by (cases e)
    (simp_all only: handle_endpoints facts_handler.authenticated_handler_axioms
      problems_handler.authenticated_handler_axioms deletion_handler.authenticated_handler_axioms)

section \<open>What a handler sends\<close>

text \<open>The document speaks for the environment of the token, all of its entries included.\<close>

definition fact_of_token :: "NamespaceDetails \<Rightarrow> Fact \<Rightarrow> bool" where
  "fact_of_token d f \<longleftrightarrow>
     FactEnvironmentId f = TokenEnvironmentId d \<and>
     FactProjectName f = TokenProjectName d \<and>
     FactEnvironmentName f = TokenEnvironmentName d \<and>
     FactSource f \<noteq> ''''"

definition problem_of_token :: "NamespaceDetails \<Rightarrow> Problem \<Rightarrow> bool" where
  "problem_of_token d p \<longleftrightarrow>
     parse_int 32 (TokenEnvironmentId d) = Inr (ProblemEnvironmentId p) \<and> ProblemSource p \<noteq> ''''"

definition slice_all :: "('a \<Rightarrow> bool) \<Rightarrow> 'a slice \<Rightarrow> bool" where
  "slice_all P xs = (case xs of None \<Rightarrow> True | Some l \<Rightarrow> list_all P l)"

fun document_of_token :: "NamespaceDetails \<Rightarrow> document \<Rightarrow> bool" where
  "document_of_token d (DocFacts m) \<longleftrightarrow>
     parse_int 32 (TokenEnvironmentId d) = Inr (FactsEnvironmentId m) \<and>
     FactsProjectName m = TokenProjectName d \<and> FactsEnvironmentName m = TokenEnvironmentName d \<and>
     slice_all (fact_of_token d) (FactsFacts m)"
| "document_of_token d (DocProblems m) \<longleftrightarrow>
     parse_int 32 (TokenEnvironmentId d) = Inr (ProblemsEnvironmentId m) \<and>
     ProblemsProjectName m = TokenProjectName d \<and>
     ProblemsEnvironmentName m = TokenEnvironmentName d \<and> ProblemsType m = ''direct.problems'' \<and>
     slice_all (problem_of_token d) (ProblemsProblems m)"
| "document_of_token d (DocDelete m) \<longleftrightarrow>
     parse_int 32 (TokenEnvironmentId d) = Inr (DeleteEnvironmentId m) \<and>
     DeleteType m \<in> {deleteFactsType, deleteProblemsType}"
| "document_of_token d (DocInsights m) \<longleftrightarrow> False"

lemma sourceOr_not_empty [simp]: "sourceOr s \<noteq> ''''"
  by (simp add: sourceOr_def webServiceSource_def)

lemma slice_all_map: "slice_all P (map_option (map f) xs) = slice_all (\<lambda>x. P (f x)) xs"
  by (simp add: slice_all_def list.pred_map comp_def split: option.split)

lemma slice_all_True: "(\<And>x. P x) \<Longrightarrow> slice_all P xs"
  by (simp add: slice_all_def list_all_iff split: option.split)

lemma factsMessage_of_token:
  "parse_int 32 (TokenEnvironmentId d) = Inr lid \<Longrightarrow>
     document_of_token d (DocFacts (factsMessage d lid details))"
  by (simp add: factsMessage_def slice_all_map forceFact_def fact_of_token_def slice_all_True)

lemma problemsMessage_of_token:
  "parse_int 32 (TokenEnvironmentId d) = Inr lid \<Longrightarrow>
     document_of_token d (DocProblems (problemsMessage d lid ps))"
  by (simp add: problemsMessage_def slice_all_map forceProblem_def problem_of_token_def slice_all_True)

text \<open>What a handler does for an accepted token: it refuses the request, or publishes.\<close>

definition acts_for ::
  "json_lib \<Rightarrow> 'c routerInstance \<Rightarrow> NamespaceDetails \<Rightarrow> ('c, response) comp \<Rightarrow> bool" where
  "acts_for J r d m \<longleftrightarrow>
     (\<exists>b. m = ret (400, b)) \<or> (\<exists>doc. document_of_token d doc \<and> m = publish J r doc)"

lemma acts_for_refuse: "acts_for J r d (ret (400, b))"
  by (auto simp: acts_for_def)

lemma acts_for_publish: "document_of_token d doc \<Longrightarrow> acts_for J r d (publish J r doc)"
  by (auto simp: acts_for_def)

lemma acts_for_attempt:
  "(\<And>err. v = Inl err \<Longrightarrow> acts_for J r d (h err)) \<Longrightarrow> (\<And>x. v = Inr x \<Longrightarrow> acts_for J r d (f x)) \<Longrightarrow>
     acts_for J r d (attempt (ret v) h f)"
  by (cases v) simp_all

lemma handle_acts:
  assumes "ValidateAndExtractNamespaceDetailsFromToken L (secret r) (AuthorizationHeader req) =
    Returns (d, None)"
  obtains m where "acts_for J r d m"
    "handle L J r e req = bind m (\<lambda>resp. ret (headerResponses req @ [resp]))"
proof -
  have auth: "authenticated L r req act = bind (act d) (\<lambda>resp. ret (headerResponses req @ [resp]))"
    for act
    using assms by (simp add: authenticated_def bind_def lift_exec_def fun_eq_iff)
  show thesis
  proof (cases e)
    case WriteFacts
    then show ?thesis
      by (intro that [OF _ trans [OF _ auth]])
        (auto simp: writeFacts_def
          intro!: acts_for_attempt acts_for_refuse acts_for_publish factsMessage_of_token)
  next
    case WriteProblems
    then show ?thesis
      by (intro that [OF _ trans [OF _ auth]])
        (auto simp: writeProblems_def
          intro!: acts_for_attempt acts_for_refuse acts_for_publish problemsMessage_of_token)
  next
    case DeleteProblems
    then show ?thesis
      by (intro that [OF _ trans [OF _ auth]])
        (auto simp: deleteProblems_def generateDeletionMessage_def
          intro!: acts_for_attempt acts_for_refuse acts_for_publish)
  next
    case DeleteFacts
    then show ?thesis
      by (intro that [OF _ trans [OF _ auth]])
        (auto simp: deleteFacts_def generateDeletionMessage_def
          intro!: acts_for_attempt acts_for_refuse acts_for_publish)
  qed
qed

text \<open>What publishing over the program's broker connection did, from its response.\<close>

lemma publish_log:
  assumes writer: "MessageQWriter r = mqWriteObject E" and run: "publish J r doc w = (res, w')"
  shows "\<exists>es resp. calls w' = calls w @ es \<and> res = Returns resp \<and> list_all mq_effect es \<and>
    (case json_marshal J doc of
       Inl err \<Rightarrow> es = [] \<and> resp = (500, JError err)
     | Inr b \<Rightarrow>
         (if WriteToQueue r
          then (produced es = [b] \<and> resp = (200, JMessage ''okay'')) \<or>
               (produced es \<in> {[], [b]} \<and> fst resp = 500)
          else es = [] \<and> resp = (200, JMessage ''okay'')))"
proof (cases "json_marshal J doc")
  case (Inl err)
  with run show ?thesis by (auto simp: publish_def monad_defs)
next
  case (Inr b)
  show ?thesis
  proof (cases "WriteToQueue r")
    case False
    with run Inr show ?thesis by (auto simp: publish_def writeToQueue_def monad_defs)
  next
    case True
    obtain q w1 where mq: "mqWriteObject E b w = (q, w1)" by fastforce
    have eq: "(res, w') = (case q of
        Returns (Inl err) \<Rightarrow> (Returns (500, JError err), w1)
      | Returns (Inr u) \<Rightarrow> (Returns (200, JMessage ''okay''), w1)
      | Panics p \<Rightarrow> (Panics p, w1))"
      using run Inr True writer mq
      by (auto simp: publish_def writeToQueue_def monad_defs split: exec.split sum.split)
    from mq show ?thesis
    proof (cases rule: mqWriteObject_log)
      case (Closed err)
      with eq Inr True show ?thesis by (intro exI [of _ "[MqNew]"]) simp
    next
      case (NoProducer err)
      with eq Inr True show ?thesis
        by (intro exI [of _ "[MqNew, MqSyncProducer ''lagoon-insights'', MqClose]"]) simp
    next
      case (Written out)
      with eq Inr True show ?thesis
        by (intro exI [of _ "[MqNew, MqSyncProducer ''lagoon-insights'', MqProduce b, MqClose]"])
          (cases out; simp)
    qed
  qed
qed

lemma publish_produced:
  assumes "MessageQWriter r = mqWriteObject E" and "publish J r doc w = (res, w')"
  shows "\<exists>es. calls w' = calls w @ es \<and> list_all mq_effect es \<and>
    (produced es = [] \<or> (\<exists>b. json_marshal J doc = Inr b \<and> produced es = [b]))"
  using publish_log [OF assms] by (cases "json_marshal J doc") (auto split: if_splits)

text \<open>Every message that leaves through a handler belongs to the environment of its token.\<close>

lemma handle_messages:
  assumes writer: "MessageQWriter r = mqWriteObject E" and run: "handle L J r e req w = (res, w')"
  shows "\<exists>es. calls w' = calls w @ es \<and> list_all mq_effect es \<and>
    (produced es = [] \<or>
     (\<exists>d doc b.
        ValidateAndExtractNamespaceDetailsFromToken L (secret r) (AuthorizationHeader req) =
          Returns (d, None) \<and>
        document_of_token d doc \<and> json_marshal J doc = Inr b \<and> produced es = [b]))"
proof (cases "calls w' = calls w")
  case False
  from any_handler.acting_needs_token [OF run False] obtain d where
    tok: "ValidateAndExtractNamespaceDetailsFromToken L (secret r) (AuthorizationHeader req) =
      Returns (d, None)" .
  from handle_acts [OF tok, of J e] obtain m where acts: "acts_for J r d m"
    and h: "handle L J r e req = bind m (\<lambda>resp. ret (headerResponses req @ [resp]))" .
  obtain x w1 where m: "m w = (x, w1)" by fastforce
  with run h have w1: "calls w' = calls w1"
    by (auto simp: bind_def ret_def split: exec.splits)
  with m acts False obtain doc where doc: "document_of_token d doc" "m = publish J r doc"
    by (auto simp: acts_for_def ret_def)
  with m have "publish J r doc w = (x, w1)" by simp
  from publish_produced [OF writer this] obtain es where
    "calls w1 = calls w @ es" "list_all mq_effect es"
    "produced es = [] \<or> (\<exists>b. json_marshal J doc = Inr b \<and> produced es = [b])" by blast
  with w1 tok doc(1) show ?thesis by auto
qed (intro exI [of _ "[]"]; simp)

text \<open>An accepted token is served: the handler returns, and its own response is no refusal.\<close>

lemma handle_accepted:
  assumes tok: "ValidateAndExtractNamespaceDetailsFromToken L (secret r) (AuthorizationHeader req) =
      Returns (d, None)"
    and writer: "MessageQWriter r = mqWriteObject E" and run: "handle L J r e req w = (res, w')"
  shows "\<exists>resp es. res = Returns (headerResponses req @ [resp]) \<and> fst resp \<noteq> 401 \<and>
    calls w' = calls w @ es \<and> list_all mq_effect es \<and>
    (produced es = [] \<or>
     (\<exists>doc b. document_of_token d doc \<and> json_marshal J doc = Inr b \<and> produced es = [b]))"
proof -
  from handle_acts [OF tok, of J e] obtain m where acts: "acts_for J r d m"
    and h: "handle L J r e req = bind m (\<lambda>resp. ret (headerResponses req @ [resp]))" .
  obtain x w1 where m: "m w = (x, w1)" by fastforce
  from acts show ?thesis
    unfolding acts_for_def
  proof (elim disjE exE conjE)
    fix b
    assume "m = ret (400, b)"
    with run h show ?thesis by (auto simp: bind_def ret_def)
  next
    fix doc
    assume doc: "document_of_token d doc" and "m = publish J r doc"
    with m have "publish J r doc w = (x, w1)" by simp
    from publish_log [OF writer this] obtain es resp where
      es: "calls w1 = calls w @ es" "x = Returns resp" "list_all mq_effect es" and
      out: "case json_marshal J doc of
         Inl err \<Rightarrow> es = [] \<and> resp = (500, JError err)
       | Inr b \<Rightarrow>
           (if WriteToQueue r
            then (produced es = [b] \<and> resp = (200, JMessage ''okay'')) \<or>
                 (produced es \<in> {[], [b]} \<and> fst resp = 500)
            else es = [] \<and> resp = (200, JMessage ''okay''))" by blast
    have "fst resp \<noteq> 401" "produced es = [] \<or> (\<exists>b. json_marshal J doc = Inr b \<and> produced es = [b])"
      using out by (auto split: sum.splits if_splits)
    moreover from run h m es(2) have "res = Returns (headerResponses req @ [resp])" "w' = w1"
      by (simp_all add: bind_def ret_def)
    ultimately show ?thesis using es doc by auto
  qed
qed

end
