(* ===== verification/Startup.thy ===== *)
theory Startup
  imports
    Processing Dependency_Track Namespace_Controller Build_Controller Crons Service
begin

text \<open>
  \<open>cmd/main.go\<close>: the settings, from flags and then the environment, and the components the
  process starts with them. Reading environment variables is the parameter \<open>env_lib\<close>
  (\<open>machinery/utils/variables\<close>). The parsing of the command line is in the theory \<open>Flags\<close>,
  what is then done with the manager in the theory \<open>Boot\<close>.
\<close>

section \<open>Settings\<close>

record settings =
  EnableCMReconciler :: bool
  BurnAfterReading :: bool
  ClearConfigmapCronSched :: string
  EnableInsightDeferred :: bool
  CmReconcilerMaxRetries :: int
  CmReconcilerMinutesBetweenRetries :: int
  MaxConcurrentCMReconcilers :: int
  EnableNSReconciler :: bool
  EnableWebservice :: bool
  WebservicePort :: string
  InsightsTokenSecret :: string
  TokenTargetLabel :: string
  EnableDependencyTrack :: bool
  DependencyTrackApiEndpoint :: string
  DependencyTrackApiKey :: string
  DtRootTemplate :: string
  DtParentTemplate :: string
  DtProjectTemplate :: string
  DtVersionTemplate :: string
  DtPushProdDefault :: bool
  MqEnable :: bool
  MqUser :: string
  MqPass :: string
  MqHost :: string
  MqTLS :: bool
  MqVerify :: bool
  MqCACert :: string
  MqClientCert :: string
  MqClientKey :: string
  RabbitReconnectRetryInterval :: int
  EnableLeaderElection :: bool
  MetricsAddr :: string
  SecureMetrics :: bool
  EnableHTTP2 :: bool
  ProbeAddr :: string
  GenerateTokenOnly :: bool
  TokenOnlyNamespace :: string
  TokenOnlyEnvironmentId :: string
  TokenOnlyProjectName :: string
  TokenOnlyEnvironmentName :: string
  EnableBuildScanning :: bool
  BuildScannerImage :: string

definition default_settings :: settings where
  "default_settings =
     \<lparr>EnableCMReconciler = True,
      BurnAfterReading = False,
      ClearConfigmapCronSched = ''* * * * *'',
      EnableInsightDeferred = False,
      CmReconcilerMaxRetries = 3,
      CmReconcilerMinutesBetweenRetries = 3,
      MaxConcurrentCMReconcilers = 1,
      EnableNSReconciler = True,
      EnableWebservice = True,
      WebservicePort = ''8888'',
      InsightsTokenSecret = ''testsecret'',
      TokenTargetLabel = '''',
      EnableDependencyTrack = False,
      DependencyTrackApiEndpoint = '''',
      DependencyTrackApiKey = '''',
      DtRootTemplate = ''{{ .ProjectName }}'',
      DtParentTemplate = ''{{ .ProjectName }}-{{ .EnvironmentName }}'',
      DtProjectTemplate = ''{{ .ProjectName }}-{{ .EnvironmentName }}-{{ .ServiceName }}'',
      DtVersionTemplate = ''unset'',
      DtPushProdDefault = True,
      MqEnable = True,
      MqUser = ''guest'',
      MqPass = ''guest'',
      MqHost = ''localhost'',
      MqTLS = False,
      MqVerify = False,
      MqCACert = '''',
      MqClientCert = '''',
      MqClientKey = '''',
      RabbitReconnectRetryInterval = 30,
      EnableLeaderElection = False,
      MetricsAddr = ''0'',
      SecureMetrics = True,
      EnableHTTP2 = False,
      ProbeAddr = '':8081'',
      GenerateTokenOnly = False,
      TokenOnlyNamespace = '''',
      TokenOnlyEnvironmentId = '''',
      TokenOnlyProjectName = '''',
      TokenOnlyEnvironmentName = '''',
      EnableBuildScanning = False,
      BuildScannerImage = ''uselagoon/insights-scanner:latest''\<rparr>"

section \<open>Extra variables of the scan pod\<close>

text \<open>\<open>^[A-Za-z_][A-Za-z0-9_]*$\<close>\<close>

definition envVarNameRe :: re where
  "envVarNameRe = Seq (Byte alpha) (Star (Byte alnum))"

definition parseKV ::
  "string \<Rightarrow> (string, string) fmap \<Rightarrow> go_error + (string, string) fmap" where
  "parseKV s extra =
     (case Cut (TrimSpace s) (CHR ''='') of
        (k', v, ok) \<Rightarrow>
          let k = TrimSpace k' in
          if \<not> ok \<or> k = '''' then Inl (Error (''expected KEY=VALUE, got '' @ go_quote s))
          else if \<not> matches envVarNameRe k
          then Inl (Error (''invalid env var name '' @ go_quote k @
                           '': must match [A-Za-z_][A-Za-z0-9_]*''))
          else Inr (fmupd k v extra))"

fun parseKVs ::
  "string list \<Rightarrow> (string, string) fmap \<Rightarrow> go_error + (string, string) fmap" where
  "parseKVs [] extra = Inr extra"
| "parseKVs (s # ss) extra =
     (case parseKV s extra of Inl err \<Rightarrow> Inl err | Inr extra' \<Rightarrow> parseKVs ss extra')"

text \<open>The comma-separated list of the environment variable; blank entries are passed over.\<close>

definition envVarEntries :: "string \<Rightarrow> string list" where
  "envVarEntries envVarStr =
     (if envVarStr = '''' then []
      else filter (\<lambda>kv. kv \<noteq> '''') (map TrimSpace (Split envVarStr (CHR '',''))))"

section \<open>Overrides from the environment\<close>

record env_lib =
  GetEnv :: "string \<Rightarrow> string \<Rightarrow> string"
  GetEnvBool :: "string \<Rightarrow> bool \<Rightarrow> bool"
  GetEnvInt :: "string \<Rightarrow> int \<Rightarrow> int"

text \<open>The variable is not set: the fallback is returned.\<close>

definition env_unset :: "env_lib \<Rightarrow> string \<Rightarrow> bool" where
  "env_unset V name \<longleftrightarrow>
     (\<forall>d. GetEnv V name d = d) \<and> (\<forall>d. GetEnvBool V name d = d) \<and> (\<forall>d. GetEnvInt V name d = d)"

text \<open>
  In the order of the code, the fallback of the ConfigMap reconciler's switch being the namespace
  reconciler's flag.
\<close>

definition env_overrides :: "env_lib \<Rightarrow> settings \<Rightarrow> settings" where
  "env_overrides V s =
     s\<lparr>ClearConfigmapCronSched := GetEnv V ''CLEAR_CONFIGMAP_SCHED'' (ClearConfigmapCronSched s),
       EnableCMReconciler := GetEnvBool V ''ENABLE_CONFIGMAP_RECONCILER'' (EnableNSReconciler s),
       EnableInsightDeferred := GetEnvBool V ''ENABLE_INSIGHTS_DEFERRED'' (EnableInsightDeferred s),
       EnableBuildScanning := GetEnvBool V ''ENABLE_BUILD_SCANNING'' (EnableBuildScanning s),
       BuildScannerImage := GetEnv V ''BUILD_SCANNER_IMAGE'' (BuildScannerImage s),
       MaxConcurrentCMReconcilers :=
         (case Atoi (GetEnv V ''CONFIGMAP_RECONCILER_MAX_CONCURRENT'' '''') of
            (v, None) \<Rightarrow> v
          | (v, Some err) \<Rightarrow> MaxConcurrentCMReconcilers s),
       CmReconcilerMaxRetries :=
         GetEnvInt V ''CONFIGMAP_RECONCILER_MAX_RETRIES'' (CmReconcilerMaxRetries s),
       CmReconcilerMinutesBetweenRetries :=
         GetEnvInt V ''CONFIGMAP_RECONCILER_MINS_BETWEEN_RETRIES''
           (CmReconcilerMinutesBetweenRetries s),
       BurnAfterReading :=
         (if GetEnv V ''BURN_AFTER_READING'' ''FALSE'' = ''TRUE'' then True else BurnAfterReading s),
       EnableNSReconciler := GetEnvBool V ''ENABLE_NAMESPACE_RECONCILER'' (EnableNSReconciler s),
       EnableWebservice := GetEnvBool V ''ENABLE_WEBSERVICE'' (EnableWebservice s),
       WebservicePort := GetEnv V ''WEBSERVICE_PORT'' (WebservicePort s),
       InsightsTokenSecret := GetEnv V ''INSIGHTS_TOKEN_SECRET'' (InsightsTokenSecret s),
       TokenTargetLabel := GetEnv V ''TOKEN_TARGET_LABEL'' (TokenTargetLabel s),
       EnableDependencyTrack :=
         GetEnvBool V ''ENABLE_DEPENDENCY_TRACK_INTEGRATION'' (EnableDependencyTrack s),
       DependencyTrackApiEndpoint :=
         GetEnv V ''DEPENDENCY_TRACK_API_ENDPOINT'' (DependencyTrackApiEndpoint s),
       DependencyTrackApiKey := GetEnv V ''DEPENDENCY_TRACK_API_KEY'' (DependencyTrackApiKey s),
       MqUser := GetEnv V ''RABBITMQ_USERNAME'' (MqUser s),
       MqPass := GetEnv V ''RABBITMQ_PASSWORD'' (MqPass s),
       MqHost := GetEnv V ''RABBITMQ_ADDRESS'' (MqHost s),
       MqEnable := GetEnvBool V ''RABBITMQ_ENABLED'' (MqEnable s),
       MqTLS := GetEnvBool V ''RABBITMQ_TLS'' (MqTLS s),
       MqCACert := GetEnv V ''RABBITMQ_CACERT'' (MqCACert s),
       MqClientCert := GetEnv V ''RABBITMQ_CLIENTCERT'' (MqClientCert s),
       MqClientKey := GetEnv V ''RABBITMQ_CLIENTKEY'' (MqClientKey s),
       MqVerify := GetEnvBool V ''RABBITMQ_VERIFY'' (MqVerify s)\<rparr>"

definition brokerDSN :: "settings \<Rightarrow> string" where
  "brokerDSN s =
     (if MqTLS s
      then
        ''amqps://'' @ MqUser s @ '':'' @ MqPass s @ ''@'' @ MqHost s @ ''?verify='' @
        (if MqVerify s then ''verify_peer'' else ''verify_none'') @
        (if MqCACert s \<noteq> '''' then ''&cacertfile='' @ MqCACert s else '''') @
        (if MqClientCert s \<noteq> '''' then ''&certfile='' @ MqClientCert s else '''') @
        (if MqClientKey s \<noteq> '''' then ''&keyfile='' @ MqClientKey s else '''')
      else ''amqp://'' @ MqUser s @ '':'' @ MqPass s @ ''@'' @ MqHost s)"

section \<open>The broker\<close>

text \<open>
  \<open>mq.Config\<close>. The reconnect delay is a product of 64-bit integers, in nanoseconds.
\<close>

datatype mq_option = OptBool bool | OptString string

record mq_exchange =
  ExchangeName :: string
  ExchangeType :: string
  ExchangeOptions :: "(string \<times> mq_option) list"

record mq_queue =
  QueueName :: string
  QueueExchange :: string
  QueueOptions :: "(string \<times> mq_option) list"

record mq_producer =
  ProducerName :: string
  ProducerExchange :: string
  ProducerSync :: bool
  ProducerOptions :: "(string \<times> mq_option) list"

record mq_config =
  ReconnectDelay :: int
  MqExchanges :: "mq_exchange list"
  MqQueues :: "mq_queue list"
  MqProducers :: "mq_producer list"
  DSN :: string

definition mqConfig :: "settings \<Rightarrow> mq_config" where
  "mqConfig s =
     \<lparr>ReconnectDelay = int64_of (RabbitReconnectRetryInterval s * 1000000000),
      MqExchanges =
        [\<lparr>ExchangeName = ''lagoon-insights'', ExchangeType = ''direct'',
          ExchangeOptions =
            [(''durable'', OptBool True), (''delivery_mode'', OptString ''2''),
             (''headers'', OptString ''''), (''content_type'', OptString '''')]\<rparr>],
      MqQueues =
        [\<lparr>QueueName = ''lagoon-insights:items'', QueueExchange = ''lagoon-insights'',
          QueueOptions =
            [(''durable'', OptBool True), (''delivery_mode'', OptString ''2''),
             (''headers'', OptString ''''), (''content_type'', OptString '''')]\<rparr>],
      MqProducers =
        [\<lparr>ProducerName = ''lagoon-insights'', ProducerExchange = ''lagoon-insights'',
          ProducerSync = True,
          ProducerOptions =
            [(''delivery_mode'', OptString ''2''), (''headers'', OptString ''''),
             (''content_type'', OptString '''')]\<rparr>],
      DSN = brokerDSN s\<rparr>"

section \<open>The processors of the ConfigMap reconciler\<close>

definition postProcessors ::
  "'c environment \<Rightarrow> deptrack_lib \<Rightarrow> encoder \<Rightarrow> settings \<Rightarrow> 'c post_processor option list" where
  "postProcessors E D marshal s =
     [NewCorePostProcessor marshal (MqEnable s) (mqWriteObject E),
      map_option (default_processor E D)
        (NewDefaultPostProcessor (EnableDependencyTrack s) (DependencyTrackApiEndpoint s)
           (DependencyTrackApiKey s) (DtPushProdDefault s) (DtRootTemplate s) (DtParentTemplate s)
           (DtProjectTemplate s) (DtVersionTemplate s)),
      map_option (custom_processor E D)
        (NewCustomPostProcessor (EnableDependencyTrack s) (DtPushProdDefault s) (DtRootTemplate s)
           (DtParentTemplate s) (DtProjectTemplate s) (DtVersionTemplate s))]"

definition configMapReconciler ::
  "'c environment \<Rightarrow> deptrack_lib \<Rightarrow> encoder \<Rightarrow> settings \<Rightarrow> 'c ConfigMapReconciler" where
  "configMapReconciler E D marshal s =
     \<lparr>PostProcessors = postProcessors E D marshal s,
      MinutesBetweenRetries = CmReconcilerMinutesBetweenRetries s,
      MaxNumberOfRetries = CmReconcilerMaxRetries s\<rparr>"

section \<open>Starting\<close>

datatype 'c component =
    ConfigMapController "'c ConfigMapReconciler" int
  | BurnAfterReadingCron string
  | DeferredClearCron string
  | NamespaceController NamespaceReconciler string
  | BuildController BuildReconciler
  | InsightsEndpoint string bool string

definition components ::
  "'c environment \<Rightarrow> deptrack_lib \<Rightarrow> encoder \<Rightarrow> settings \<Rightarrow> (string, string) fmap
    \<Rightarrow> 'c component list" where
  "components E D marshal s extra =
     (if EnableCMReconciler s
      then [ConfigMapController (configMapReconciler E D marshal s) (MaxConcurrentCMReconcilers s)]
      else []) @
     (if BurnAfterReading s then [BurnAfterReadingCron (ClearConfigmapCronSched s)] else []) @
     (if EnableInsightDeferred s then [DeferredClearCron (ClearConfigmapCronSched s)] else []) @
     (if EnableNSReconciler s
      then [NamespaceController \<lparr>InsightsJWTSecret = InsightsTokenSecret s\<rparr> (TokenTargetLabel s)]
      else []) @
     (if EnableBuildScanning s
      then [BuildController
              \<lparr>BuildJWTSecret = InsightsTokenSecret s, ScanImageName = BuildScannerImage s,
               ExtraEnvVars = extra\<rparr>]
      else []) @
     (if EnableWebservice s
      then [InsightsEndpoint (InsightsTokenSecret s) (MqEnable s) ('':'' @ WebservicePort s)]
      else [])"

section \<open>The program's processors meet the contract\<close>

lemma processors_cases:
  assumes "p \<in> set (processors (postProcessors E D marshal s))"
  obtains "p = core_processor E marshal" | d where "p = default_processor E D d"
    | d where "p = custom_processor E D d"
  using assms unfolding postProcessors_def NewCorePostProcessor_mq
  by (auto split: if_splits option.splits
      simp: NewDefaultPostProcessor_def NewCustomPostProcessor_def)

lemma processor_labels [simp]:
  "ProcessorLabel (core_processor E marshal) = coreLabel"
  "ProcessorLabel (default_processor E D d) = defaultLabel"
  "ProcessorLabel (custom_processor E D d') = customLabel"
  by (simp_all add: core_processor_def default_processor_def custom_processor_def)

lemma label_values:
  "separate_labels [coreLabel, defaultLabel, customLabel]"
  "\<forall>l\<in>{coreLabel, defaultLabel, customLabel}.
     \<forall>k\<in>{postProcRetriesAnnotationKey, InsightsUpdatedAnnotationLabel}. l \<noteq> k \<and> l @ ''-error'' \<noteq> k"
  by (simp_all add: separate_labels_def coreLabel_def defaultLabel_def customLabel_def
      postProcRetriesAnnotationKey_def InsightsUpdatedAnnotationLabel_def)

lemma separate_labels_subseq: "separate_labels ls \<Longrightarrow> subseq ks ls \<Longrightarrow> separate_labels ks"
  unfolding separate_labels_def
  by (auto simp: subseq_conv_nths dest: in_set_nthsD)

lemma labels_subseq:
  "subseq (map ProcessorLabel (processors (postProcessors E D marshal s)))
     [coreLabel, defaultLabel, customLabel]"
  unfolding postProcessors_def NewCorePostProcessor_mq
  by (auto simp: NewDefaultPostProcessor_def NewCustomPostProcessor_def)

interpretation program: processor_set E "postProcessors E D marshal s" for E D marshal s
proof (rule processor_set.intro)
  fix p
  assume "p \<in> set (processors (postProcessors E D marshal s))"
  then show "confined_processor E p"
    by (cases rule: processors_cases)
      (simp_all add: core.confined_processor_axioms default.confined_processor_axioms
        custom.confined_processor_axioms)
next
  show "separate_labels (map ProcessorLabel (processors (postProcessors E D marshal s)))"
    by (rule separate_labels_subseq [OF label_values(1) labels_subseq])
next
  fix p k
  assume p: "p \<in> set (processors (postProcessors E D marshal s))"
    and k: "k \<in> {postProcRetriesAnnotationKey, InsightsUpdatedAnnotationLabel}"
  from p have "ProcessorLabel p \<in> {coreLabel, defaultLabel, customLabel}"
    by (cases rule: processors_cases) simp_all
  from bspec [OF bspec [OF label_values(2) this] k]
  show "ProcessorLabel p \<noteq> k \<and> ProcessorLabel p @ ''-error'' \<noteq> k" .
qed

end
