(* ===== verification/Lifecycle.thy ===== *)
theory Lifecycle
  imports Startup
begin

text \<open>
  The life of the ConfigMaps of a cluster under the program: builds post them, events queue them
  for reconciliation, the reconciler processes them, and the two periodic jobs delete the processed
  ones and release the deferred ones. Steps are atomic and interleave freely. The state is the
  outside state together with the controller's queue; what is stored is seen through \<open>view\<close>, of
  an environment that stores ConfigMaps as documented (\<open>cm_store\<close>).
\<close>

section \<open>Steps\<close>

text \<open>A ConfigMap as a build posts it: nothing of the controller's bookkeeping is on it yet.\<close>

definition fresh :: "ConfigMap \<Rightarrow> bool" where
  "fresh cm \<longleftrightarrow>
     mlookup (Annotations cm) postProcRetriesAnnotationKey = None \<and>
     mlookup (Annotations cm) InsightsUpdatedAnnotationLabel = None \<and>
     mlookup (Labels cm) maxRetryExceededLabelKey = None"

text \<open>
  A key is queued by an event that passes the filters, stays queued when its reconciliation ends
  in an error or a panic, and leaves the queue otherwise.
\<close>

inductive cluster_step ::
  "'c environment \<Rightarrow> 'c view \<Rightarrow> 'c ConfigMapReconciler
    \<Rightarrow> 'c \<times> NamespacedName set \<Rightarrow> 'c \<times> NamespacedName set \<Rightarrow> bool"
  for E view R where
  Posted:
    "view c k = None \<Longrightarrow> view c' = (view c)(k \<mapsto> cm) \<Longrightarrow> key cm = k \<Longrightarrow> fresh cm \<Longrightarrow>
     cluster_step E view R (c, Q) (c', Q)"
| Observed:
    "view c k = Some cm \<Longrightarrow> eligible cm \<Longrightarrow> cluster_step E view R (c, Q) (c, insert k Q)"
| Reconciled:
    "k \<in> Q \<Longrightarrow> reconcileConfigMap E R k (start_world c) = (r, w') \<Longrightarrow>
     cluster_step E view R (c, Q)
       (outside w', if r = Returns (Inr ()) then Q - {k} else Q)"
| Burned:
    "burnAfterReadingJob E (start_world c) = (r, w') \<Longrightarrow>
     cluster_step E view R (c, Q) (outside w', Q)"
| Cleared:
    "deferredClearJob E (start_world c) = (r, w') \<Longrightarrow>
     cluster_step E view R (c, Q) (outside w', Q)"

inductive_cases cluster_stepE: "cluster_step E view R (c, Q) (c', Q')"

lemmas cluster_step_cases =
  cluster_stepE [consumes 1, case_names Posted Observed Reconciled Burned Cleared]

inductive reachable ::
  "'c environment \<Rightarrow> 'c view \<Rightarrow> 'c ConfigMapReconciler \<Rightarrow> 'c \<times> NamespacedName set \<Rightarrow> bool"
  for E view R where
  start: "view c = Map.empty \<Longrightarrow> reachable E view R (c, {})"
| step: "reachable E view R s \<Longrightarrow> cluster_step E view R s s' \<Longrightarrow> reachable E view R s'"

section \<open>What the jobs do to the stored ConfigMaps\<close>

lemma delete_effect:
  assumes "cm_store E view" and "delete_configmap E k c = (d, c')"
  shows "view c' = (case d of Inl err \<Rightarrow> view c | Inr u \<Rightarrow> (view c)(k := None))"
  using assms by (auto simp: cm_store_def cm_writes_def split: sum.split)

lemma update_effect:
  assumes "cm_store E view" and "update_configmap E cm c = (d, c')"
  shows "view c' = (case d of Inl err \<Rightarrow> view c | Inr u \<Rightarrow> (view c)(key cm \<mapsto> cm))"
  using assms by (auto simp: cm_store_def cm_writes_def split: sum.split)

lemma burnItems_effect:
  assumes store: "cm_store E view" and "burnItems E xs w = (r, w')"
  shows "view (outside w') k = view (outside w) k \<or>
    view (outside w') k = None \<and> (\<exists>x\<in>set xs. key x = k \<and> isProcessed x)"
  using assms(2)
proof (induction xs arbitrary: w)
  case Nil
  then show ?case by (auto simp: ret_def)
next
  case (Cons x xs)
  show ?case
  proof (cases "isProcessed x")
    case False
    with Cons.prems have "burnItems E xs w = (r, w')" by simp
    from Cons.IH [OF this] show ?thesis by auto
  next
    case True
    obtain d c where del: "delete_configmap E (key x) (outside w) = (d, c)" by fastforce
    let ?w = "w\<lparr>outside := c, calls := calls w @ [KDeleteConfigMap (key x)]\<rparr>"
    from Cons.prems True del have "burnItems E xs ?w = (r, w')"
      by (cases d) (simp_all add: DeleteConfigMap_def monad_defs)
    from Cons.IH [OF this] delete_effect [OF store del] True show ?thesis
      by (cases d) auto
  qed
qed

lemma list_effect:
  assumes "cm_store E view" and "list_configmaps E l n c = (r, c')"
  shows "view c' = view c"
    and "r = Inr items \<Longrightarrow> x \<in> set items \<Longrightarrow> view c (key x) = Some x"
  using assms unfolding cm_store_def cm_reads_def unaffected_def by (metis snd_conv, metis fst_conv)

lemma burn_effect:
  assumes store: "cm_store E view" and run: "burnAfterReadingJob E w = (r, w')"
  shows "view (outside w') k = view (outside w) k \<or>
    view (outside w') k = None \<and> (\<exists>x. view (outside w) k = Some x \<and> isProcessed x)"
proof -
  obtain l c where list: "list_configmaps E InsightsLabel configMapListLimit (outside w) = (l, c)"
    by fastforce
  let ?w = "w\<lparr>outside := c, calls := calls w @ [KListConfigMaps InsightsLabel configMapListLimit]\<rparr>"
  note c = list_effect [OF store list]
  show ?thesis
  proof (cases l)
    case (Inl err)
    with run list c(1) show ?thesis
      by (auto simp: burnAfterReadingJob_def ListConfigMaps_def monad_defs)
  next
    case (Inr items)
    with run list have "burnItems E items ?w = (r, w')"
      by (simp add: burnAfterReadingJob_def ListConfigMaps_def monad_defs)
    from burnItems_effect [OF store this, of k] c(1) c(2) [OF Inr] show ?thesis by auto
  qed
qed

lemma key_withoutDeferral [simp]: "key (withoutDeferral x) = key x"
  by (simp add: withoutDeferral_def key_def)

lemma clearItems_effect:
  assumes store: "cm_store E view" and "clearItems E err xs w = (r, w')"
  shows "view (outside w') k = view (outside w) k \<or>
    (\<exists>x\<in>set xs. key x = k \<and> isDeferred x \<and> view (outside w') k = Some (withoutDeferral x))"
  using assms(2)
proof (induction xs arbitrary: err w)
  case Nil
  then show ?case by (auto simp: ret_def)
next
  case (Cons x xs)
  have skip: ?case if "clearItems E err' xs w1 = (r, w')" "view (outside w1) = view (outside w)"
    for err' w1
    using Cons.IH [OF that(1)] that(2) by auto
  show ?case
  proof (cases "mlookup (Labels x) InsightsWriteDeferred")
    case None
    with Cons.prems show ?thesis by (intro skip [of err w]) simp_all
  next
    case (Some v)
    show ?thesis
    proof (cases err)
      case (Some e)
      with Cons.prems \<open>mlookup (Labels x) InsightsWriteDeferred = Some v\<close> show ?thesis
        by (intro skip [of err w]) simp_all
    next
      case None
      obtain now c where now: "now_nanos E (outside w) = (now, c)" by fastforce
      with store have c: "view c = view (outside w)"
        unfolding cm_store_def cm_frame_def unaffected_def by (metis snd_conv)
      show ?thesis
      proof (cases "now > writeDeferredValTS v * 1000000000")
        case False
        with Cons.prems Some None now c show ?thesis
          by (intro skip [of None "w\<lparr>outside := c\<rparr>"]) (simp_all add: TimeNow_def monad_defs)
      next
        case True
        obtain u c2 where upd: "update_configmap E (withoutDeferral x) c = (u, c2)" by fastforce
        let ?w2 = "w\<lparr>outside := c2, calls := calls w @ [KUpdateConfigMap (withoutDeferral x)]\<rparr>"
        define err' where "err' = (case u of Inl e \<Rightarrow> Some e | Inr _ \<Rightarrow> None)"
        from Cons.prems Some None now True upd have rest: "clearItems E err' xs ?w2 = (r, w')"
          by (cases u) (simp_all add: TimeNow_def UpdateConfigMap_def monad_defs err'_def)
        from Some have "isDeferred x" by (simp add: isDeferred_def)
        with Cons.IH [OF rest] update_effect [OF store upd] c show ?thesis
          by (cases u) (auto split: if_splits)
      qed
    qed
  qed
qed

lemma clear_effect:
  assumes store: "cm_store E view" and run: "deferredClearJob E w = (r, w')"
  shows "view (outside w') k = view (outside w) k \<or>
    (\<exists>x. view (outside w) k = Some x \<and> isDeferred x \<and>
       view (outside w') k = Some (withoutDeferral x))"
proof -
  obtain l c where
    list: "list_configmaps E InsightsWriteDeferred configMapListLimit (outside w) = (l, c)"
    by fastforce
  let ?w = "w\<lparr>outside := c,
    calls := calls w @ [KListConfigMaps InsightsWriteDeferred configMapListLimit]\<rparr>"
  note c = list_effect [OF store list]
  show ?thesis
  proof (cases l)
    case (Inl err)
    with run list c(1) show ?thesis
      by (auto simp: deferredClearJob_def ListConfigMaps_def monad_defs)
  next
    case (Inr items)
    with run list have "clearItems E None items ?w = (r, w')"
      by (simp add: deferredClearJob_def ListConfigMaps_def monad_defs)
    from clearItems_effect [OF store this, of k] c(1) c(2) [OF Inr] show ?thesis by auto
  qed
qed

section \<open>Runs of the cluster\<close>

fun cluster_path ::
  "'c environment \<Rightarrow> 'c view \<Rightarrow> 'c ConfigMapReconciler \<Rightarrow> ('c \<times> NamespacedName set) list \<Rightarrow> bool" where
  "cluster_path E view R (s # s' # ss) \<longleftrightarrow>
     cluster_step E view R s s' \<and> cluster_path E view R (s' # ss)"
| "cluster_path E view R _ \<longleftrightarrow> True"

text \<open>A reconciliation of the key that is over and has changed what is stored.\<close>

definition records_step ::
  "'c view \<Rightarrow> NamespacedName \<Rightarrow> 'c \<times> NamespacedName set \<Rightarrow> 'c \<times> NamespacedName set \<Rightarrow> bool" where
  "records_step view k s s' \<longleftrightarrow>
     k \<in> snd s \<and> k \<notin> snd s' \<and> view (fst s') k \<noteq> view (fst s) k"

fun records :: "'c view \<Rightarrow> NamespacedName \<Rightarrow> ('c \<times> NamespacedName set) list \<Rightarrow> nat" where
  "records view k (s # s' # ss) =
     (if records_step view k s s' then 1 else 0) + records view k (s' # ss)"
| "records view k _ = 0"

section \<open>The invariant\<close>

text \<open>
  What holds of every stored ConfigMap: its retries stay within one more than the maximum, past
  the maximum it carries the label, and if it is marked processed, every processor has succeeded.
\<close>

definition cm_inv :: "'c ConfigMapReconciler \<Rightarrow> ConfigMap \<Rightarrow> bool" where
  "cm_inv R cm \<longleftrightarrow>
     0 \<le> initialRetries (Annotations cm) \<and>
     initialRetries (Annotations cm) \<le> MaxNumberOfRetries R + 1 \<and>
     (MaxNumberOfRetries R < initialRetries (Annotations cm) \<longrightarrow>
        mlookup (Labels cm) maxRetryExceededLabelKey \<noteq> None) \<and>
     (isProcessed cm \<longrightarrow>
        (\<forall>p\<in>set (processors (PostProcessors R)). succeeded (Annotations cm) (ProcessorLabel p)))"

definition unsettled :: "ConfigMap \<Rightarrow> bool" where
  "unsettled cm \<longleftrightarrow>
     \<not> isProcessed cm \<and> mlookup (Labels cm) maxRetryExceededLabelKey = None"

definition state_inv :: "'c view \<Rightarrow> 'c ConfigMapReconciler \<Rightarrow> 'c \<times> NamespacedName set \<Rightarrow> bool" where
  "state_inv view R s \<longleftrightarrow>
     (\<forall>k cm. view (fst s) k = Some cm \<longrightarrow> cm_inv R cm \<and> (k \<in> snd s \<longrightarrow> unsettled cm))"

lemma isProcessed_iff: "isProcessed cm \<longleftrightarrow> insightsProcessedAnnotationExists cm"
  by (simp add: isProcessed_def insightsProcessedAnnotationExists_def)

lemma eligible_unsettled:
  assumes "eligible cm"
  shows "unsettled cm"
proof -
  from assms have "\<not> labelExists maxRetryExceededLabelKey cm"
    and "\<not> insightsProcessedAnnotationExists cm" by (simp_all add: eligible_iff)
  then show ?thesis
    by (metis isProcessed_iff labelExists_key not_None_eq unsettled_def)
qed

lemma fresh_inv:
  "fresh cm \<Longrightarrow> 0 \<le> MaxNumberOfRetries R \<Longrightarrow> cm_inv R cm \<and> unsettled cm"
  by (simp add: fresh_def cm_inv_def unsettled_def isProcessed_def initialRetries_def)

lemma withoutDeferral_simps [simp]:
  "Annotations (withoutDeferral cm) = Annotations cm"
  "isProcessed (withoutDeferral cm) = isProcessed cm"
  "k \<noteq> InsightsWriteDeferred \<Longrightarrow> mlookup (Labels (withoutDeferral cm)) k = mlookup (Labels cm) k"
  by (cases "Labels cm"; simp add: withoutDeferral_def isProcessed_def)+

lemma max_label_not_deferred [simp]: "maxRetryExceededLabelKey \<noteq> InsightsWriteDeferred"
  by (simp add: maxRetryExceededLabelKey_def InsightsWriteDeferred_def)

lemma withoutDeferral_inv:
  "cm_inv R (withoutDeferral cm) = cm_inv R cm" "unsettled (withoutDeferral cm) = unsettled cm"
  by (simp_all add: cm_inv_def unsettled_def)

context processor_set
begin

lemma recorded_inv:
  assumes R: "PostProcessors R = ps" and max: "MaxNumberOfRetries R < 2 ^ 63 - 1"
    and inv: "cm_inv R cm" and uns: "unsettled cm"
    and rs: "map fst rs = map ProcessorLabel (pending (Annotations cm) ps)"
  shows "cm_inv R (recorded R cm rs now)"
proof -
  let ?n = "initialRetries (Annotations cm)"
  from inv uns have n: "0 \<le> ?n" "?n \<le> MaxNumberOfRetries R"
    by (auto simp: cm_inv_def unsettled_def)
  have "fits 64 ?n" by (rule initialRetries_fits)
  with n max have id: "int64_of (?n + 1) = ?n + 1" by (intro int64_of_id) (simp add: fits_def)
  have ret: "initialRetries (Annotations (recorded R cm rs now)) =
      (if failures rs = [] then ?n else ?n + 1)"
    by (simp add: initialRetries_recorded retriesAfter_def id)
  have lab: "mlookup (Labels (recorded R cm rs now)) maxRetryExceededLabelKey =
      (if failures rs \<noteq> [] \<and> ?n + 1 > MaxNumberOfRetries R then Some ''MAX_RETRY_EXCEEDED''
       else mlookup (Labels cm) maxRetryExceededLabelKey)"
    by (simp add: mlookup_recorded_label id)
  have proc: "isProcessed (recorded R cm rs now) \<longleftrightarrow> failures rs = []"
    using recorded_processed [OF rs, of R now] uns by (simp add: isProcessed_iff unsettled_def)
  show ?thesis
    unfolding cm_inv_def ret lab proc using n recorded_all_succeeded [OF rs] R by auto
qed

text \<open>What a step does to one stored ConfigMap.\<close>

lemma step_on_key:
  assumes store: "cm_store E view" and R: "PostProcessors R = ps"
    and step: "cluster_step E view R (c, Q) (c', Q')"
  obtains (Same) "view c' k = view c k"
  | (New) cm where "view c k = None" "view c' k = Some cm" "fresh cm" "Q' = Q"
  | (Run) cm rs now where "k \<in> Q" "view c k = Some cm"
      "map fst rs = map ProcessorLabel (pending (Annotations cm) ps)"
      "view c' k = Some (recorded R cm rs now)" "k \<notin> Q'"
  | (Deleted) cm where "view c k = Some cm" "isProcessed cm" "view c' k = None" "Q' = Q"
  | (Released) cm where "view c k = Some cm" "view c' k = Some (withoutDeferral cm)" "Q' = Q"
  using step
proof (cases rule: cluster_step_cases)
  case (Posted cm)
  show thesis
  proof (cases "key cm = k")
    case True
    with Posted show ?thesis by (intro New [of cm]) simp_all
  next
    case False
    with Posted show ?thesis by (intro Same) simp
  qed
next
  case (Observed k' cm)
  then show thesis by (intro Same) simp
next
  case (Reconciled k' r w')
  from reconcile_effect [OF store R Reconciled(2)] show thesis
  proof
    assume "view (outside w') = view (outside (start_world c))"
    with Reconciled(3) show thesis by (intro Same) simp
  next
    assume "\<exists>cm rs now. view (outside (start_world c)) k' = Some cm \<and> accepted_type cm \<and>
      map fst rs = map ProcessorLabel (pending (Annotations cm) ps) \<and>
      view (outside w') = (view (outside (start_world c)))(k' \<mapsto> recorded R cm rs now) \<and>
      r = Returns (Inr ())"
    then obtain cm rs now where cm: "view c k' = Some cm"
      and rs: "map fst rs = map ProcessorLabel (pending (Annotations cm) ps)"
      and c': "view (outside w') = (view c)(k' \<mapsto> recorded R cm rs now)" and r: "r = Returns (Inr ())"
      unfolding start_world_simps by blast
    show thesis
    proof (cases "k' = k")
      case True
      with Reconciled cm rs c' r show ?thesis by (intro Run [of cm rs now]) simp_all
    next
      case False
      with Reconciled(3) c' show ?thesis by (intro Same) simp
    qed
  qed
next
  case (Burned r w')
  from burn_effect [OF store Burned(1), of k] show thesis
    unfolding start_world_simps
  proof (elim disjE conjE exE)
    assume "view (outside w') k = view c k"
    with Burned(2) show thesis by (intro Same) simp
  next
    fix x
    assume "view (outside w') k = None" "view c k = Some x" "isProcessed x"
    with Burned(2,3) show thesis by (intro Deleted [of x]) simp_all
  qed
next
  case (Cleared r w')
  from clear_effect [OF store Cleared(1), of k] show thesis
    unfolding start_world_simps
  proof (elim disjE conjE exE)
    assume "view (outside w') k = view c k"
    with Cleared(2) show thesis by (intro Same) simp
  next
    fix x
    assume "view c k = Some x" "view (outside w') k = Some (withoutDeferral x)"
    with Cleared(2,3) show thesis by (intro Released [of x]) simp_all
  qed
qed

text \<open>A key that a step adds to the queue is that of an unsettled ConfigMap.\<close>

lemma step_queue:
  assumes "cluster_step E view R (c, Q) (c', Q')" and "k \<in> Q'"
  shows "k \<in> Q \<or> view c' = view c \<and> (\<exists>cm. view c k = Some cm \<and> unsettled cm)"
  using assms(1)
proof (cases rule: cluster_step_cases)
  case (Observed k' cm)
  with assms(2) eligible_unsettled show ?thesis by auto
qed (use assms(2) in \<open>auto split: if_splits\<close>)

lemma step_inv:
  assumes store: "cm_store E view" and R: "PostProcessors R = ps"
    and max: "0 \<le> MaxNumberOfRetries R" "MaxNumberOfRetries R < 2 ^ 63 - 1"
    and step: "cluster_step E view R (c, Q) (c', Q')" and inv: "state_inv view R (c, Q)"
  shows "state_inv view R (c', Q')"
proof -
  have "cm_inv R cm' \<and> (k \<in> Q' \<longrightarrow> unsettled cm')" if "view c' k = Some cm'" for k cm'
    using store R step
  proof (cases rule: step_on_key [where k = k])
    case Same
    with that inv have "cm_inv R cm'" "k \<in> Q \<longrightarrow> unsettled cm'" by (auto simp: state_inv_def)
    with step_queue [OF step, of k] that Same show ?thesis by auto
  next
    case (New cm)
    with that fresh_inv [OF New(3) max(1)] show ?thesis by simp
  next
    case (Run cm rs now)
    with inv have "cm_inv R cm" "unsettled cm" by (auto simp: state_inv_def)
    from recorded_inv [OF R max(2) this Run(3), of now] Run that show ?thesis by simp
  next
    case (Deleted cm)
    with that show ?thesis by simp
  next
    case (Released cm)
    with inv that show ?thesis by (auto simp: state_inv_def withoutDeferral_inv)
  qed
  then show ?thesis by (simp add: state_inv_def)
qed

lemma reachable_inv:
  assumes "cm_store E view" and "PostProcessors R = ps"
    and "0 \<le> MaxNumberOfRetries R" "MaxNumberOfRetries R < 2 ^ 63 - 1"
    and "reachable E view R s"
  shows "state_inv view R s"
  using assms(5)
proof (induction rule: reachable.induct)
  case (start c)
  then show ?case by (simp add: state_inv_def)
next
  case (step s s')
  then show ?case using step_inv [OF assms(1-4)] by (cases s; cases s') blast
qed

text \<open>What is settled stays: a success of a processor, the mark of a processed ConfigMap.\<close>

lemma step_success_kept:
  assumes "cm_store E view" and "PostProcessors R = ps"
    and "cluster_step E view R (c, Q) (c', Q')" and cm: "view c k = Some cm" "view c' k = Some cm'"
    and p: "p \<in> set (processors ps)" and succ: "succeeded (Annotations cm) (ProcessorLabel p)"
  shows "succeeded (Annotations cm') (ProcessorLabel p)"
  using assms(1-3)
proof (cases rule: step_on_key [where k = k])
  case (Run cm1 rs now)
  with cm have "cm1 = cm" "cm' = recorded R cm rs now" by simp_all
  with Run(3) recorded_status [OF _ p, of rs cm R now] succ show ?thesis
    by (simp add: succeeded_def)
qed (use cm succ in simp_all)

text \<open>A ConfigMap only disappears processed, and then every processor has succeeded on it.\<close>

lemma step_deletes_processed:
  assumes "cm_store E view" and R: "PostProcessors R = ps"
    and "0 \<le> MaxNumberOfRetries R" "MaxNumberOfRetries R < 2 ^ 63 - 1"
    and reach: "reachable E view R (c, Q)" and step: "cluster_step E view R (c, Q) (c', Q')"
    and cm: "view c k = Some cm" "view c' k = None"
  shows "isProcessed cm \<and> (\<forall>p\<in>set (processors ps). succeeded (Annotations cm) (ProcessorLabel p))"
proof -
  from reachable_inv [OF assms(1-4) reach] cm have "cm_inv R cm" by (auto simp: state_inv_def)
  moreover from assms(1,2) step have "isProcessed cm"
    by (cases rule: step_on_key [where k = k]) (use cm in simp_all)
  ultimately show ?thesis using R by (simp add: cm_inv_def)
qed

text \<open>How many more records there can be of a ConfigMap.\<close>

definition records_left :: "'c ConfigMapReconciler \<Rightarrow> ConfigMap \<Rightarrow> nat" where
  "records_left R cm =
     (if unsettled cm then nat (MaxNumberOfRetries R + 1 - initialRetries (Annotations cm)) else 0)"

lemma recorded_records_left:
  assumes R: "PostProcessors R = ps" and max: "MaxNumberOfRetries R < 2 ^ 63 - 1"
    and inv: "cm_inv R cm" and uns: "unsettled cm"
    and rs: "map fst rs = map ProcessorLabel (pending (Annotations cm) ps)"
  shows "records_left R (recorded R cm rs now) < records_left R cm"
proof -
  let ?n = "initialRetries (Annotations cm)"
  from inv uns have n: "0 \<le> ?n" "?n \<le> MaxNumberOfRetries R"
    by (auto simp: cm_inv_def unsettled_def)
  with max have id: "int64_of (?n + 1) = ?n + 1" by (intro int64_of_id) (simp add: fits_def)
  have ret: "initialRetries (Annotations (recorded R cm rs now)) =
      (if failures rs = [] then ?n else ?n + 1)"
    by (simp add: initialRetries_recorded retriesAfter_def id)
  from recorded_processed [OF rs, of R now] have "failures rs = [] \<Longrightarrow> \<not> unsettled (recorded R cm rs now)"
    by (simp add: isProcessed_iff unsettled_def)
  with n uns show ?thesis by (auto simp: records_left_def ret)
qed

lemma step_records_left:
  assumes store: "cm_store E view" and R: "PostProcessors R = ps"
    and max: "MaxNumberOfRetries R < 2 ^ 63 - 1"
    and step: "cluster_step E view R (c, Q) (c', Q')" and inv: "state_inv view R (c, Q)"
    and cm: "view c k = Some cm" "view c' k = Some cm'"
  shows "(if records_step view k (c, Q) (c', Q') then 1 else 0) + records_left R cm' \<le> records_left R cm"
  using store R step
proof (cases rule: step_on_key [where k = k])
  case Same
  with cm show ?thesis by (simp add: records_step_def)
next
  case (Run cm1 rs now)
  with cm inv have "cm_inv R cm" "unsettled cm" "cm1 = cm" by (auto simp: state_inv_def)
  with Run recorded_records_left [OF R max, of cm rs now] cm show ?thesis by auto
next
  case (Released cm1)
  with cm have "cm' = withoutDeferral cm" "Q' = Q" by simp_all
  then show ?thesis by (simp add: records_step_def records_left_def withoutDeferral_inv)
qed (use cm in simp_all)

lemma path_records:
  assumes store: "cm_store E view" and R: "PostProcessors R = ps"
    and max: "0 \<le> MaxNumberOfRetries R" "MaxNumberOfRetries R < 2 ^ 63 - 1"
    and "cluster_path E view R (s # ss)" and "state_inv view R s"
    and "list_all (\<lambda>s. view (fst s) k \<noteq> None) (s # ss)" and "view (fst s) k = Some cm"
  shows "records view k (s # ss) \<le> records_left R cm"
  using assms(5-8)
proof (induction ss arbitrary: s cm)
  case (Cons s' ss)
  obtain c Q c' Q' where s: "s = (c, Q)" "s' = (c', Q')" by fastforce
  from Cons.prems s have step: "cluster_step E view R (c, Q) (c', Q')" by simp
  from Cons.prems(3) s obtain cm' where cm': "view c' k = Some cm'" by auto
  from step_inv [OF store R max step] Cons.prems(2) s have "state_inv view R s'" by simp
  with Cons.IH [of s' cm'] Cons.prems cm' s have "records view k (s' # ss) \<le> records_left R cm'"
    by simp
  moreover from step_records_left [OF store R max(2) step _ _ cm'] Cons.prems s
  have "(if records_step view k s s' then 1 else 0) + records_left R cm' \<le> records_left R cm"
    by simp
  ultimately show ?case by simp
qed simp

lemma records_left_bound:
  "cm_inv R cm \<Longrightarrow> records_left R cm \<le> nat (MaxNumberOfRetries R) + 1"
  by (auto simp: records_left_def cm_inv_def)

end

end
