(* ===== verification/Namespace_Lifecycle.thy ===== *)
theory Namespace_Lifecycle
  imports Namespace_Controller
begin

text \<open>
  The token secrets of a namespace under repeated reconciliation, in a cluster that stores secrets
  as the Kubernetes API documents it (\<open>secret_store\<close>). One reconciliation that succeeds either
  settles the namespace, or leaves it without a token secret; the next one then settles it.
\<close>

section \<open>A cluster that stores secrets\<close>

text \<open>
  \<open>view c\<close> is what is stored. A list returns exactly the stored secrets of a namespace that
  carry a label; a creation or deletion that succeeds changes the one secret, a failing one none.
\<close>

type_synonym 'c secret_view = "'c \<Rightarrow> NamespacedName \<Rightarrow> Secret option"

definition secret_store :: "'c environment \<Rightarrow> 'c secret_view \<Rightarrow> bool" where
  "secret_store E view \<longleftrightarrow>
     (\<forall>c k v. view c k = Some v \<longrightarrow> key v = k) \<and>
     (\<forall>n c r c'. get_namespace E n c = (r, c') \<longrightarrow> view c' = view c) \<and>
     (\<forall>l n c r c'. list_secrets E l n c = (r, c') \<longrightarrow> view c' = view c) \<and>
     (\<forall>l n c vs c'. list_secrets E l n c = (Inr vs, c') \<longrightarrow>
        set vs = {v. view c (key v) = Some v \<and> Namespace v = n \<and> mlookup (Labels v) l \<noteq> None}) \<and>
     (\<forall>s c u c'. create_secret E s c = (Inr u, c') \<longrightarrow> view c' = (view c)(key s \<mapsto> s)) \<and>
     (\<forall>s c err c'. create_secret E s c = (Inl err, c') \<longrightarrow> view c' = view c) \<and>
     (\<forall>k c u c'. delete_secret E k c = (Inr u, c') \<longrightarrow> view c' = (view c)(k := None)) \<and>
     (\<forall>k c err c'. delete_secret E k c = (Inl err, c') \<longrightarrow> view c' = view c)"

lemma secret_storeD:
  assumes "secret_store E view"
  shows "view c k = Some v \<Longrightarrow> key v = k"
    and "get_namespace E n c = (g, c') \<Longrightarrow> view c' = view c"
    and "list_secrets E l n c = (r, c') \<Longrightarrow> view c' = view c"
    and "list_secrets E l n c = (Inr vs, c') \<Longrightarrow>
      set vs = {v. view c (key v) = Some v \<and> Namespace v = n \<and> mlookup (Labels v) l \<noteq> None}"
    and "create_secret E s c = (Inr u, c') \<Longrightarrow> view c' = (view c)(key s \<mapsto> s)"
    and "delete_secret E k c = (Inr u, c') \<Longrightarrow> view c' = (view c)(k := None)"
proof -
  note laws = assms [unfolded secret_store_def]
  note laws = laws [THEN conjunct1] laws [THEN conjunct2, THEN conjunct1]
    laws [THEN conjunct2, THEN conjunct2, THEN conjunct1]
    laws [THEN conjunct2, THEN conjunct2, THEN conjunct2, THEN conjunct1]
    laws [THEN conjunct2, THEN conjunct2, THEN conjunct2, THEN conjunct2, THEN conjunct1]
    laws [THEN conjunct2, THEN conjunct2, THEN conjunct2, THEN conjunct2, THEN conjunct2,
      THEN conjunct2, THEN conjunct1]
  show "key v = k" if "view c k = Some v"
    using laws(1) that by blast
  show "view c' = view c" if "get_namespace E n c = (g, c')"
    using laws(2) that by blast
  show "view c' = view c" if "list_secrets E l n c = (r, c')"
    using laws(3) that by blast
  show "set vs = {v. view c (key v) = Some v \<and> Namespace v = n \<and> mlookup (Labels v) l \<noteq> None}" if "list_secrets E l n c = (Inr vs, c')"
    using laws(4) that by blast
  show "view c' = (view c)(key s \<mapsto> s)" if "create_secret E s c = (Inr u, c')"
    using laws(5) that by blast
  show "view c' = (view c)(k := None)" if "delete_secret E k c = (Inr u, c')"
    using laws(6) that by blast
qed

text \<open>The token secrets of a namespace, and when the controller leaves them alone.\<close>

definition tokenSecrets :: "'c secret_view \<Rightarrow> string \<Rightarrow> 'c \<Rightarrow> Secret set" where
  "tokenSecrets view n c =
     {v. view c (key v) = Some v \<and> Namespace v = n \<and> mlookup (Labels v) insightsTokenLabel \<noteq> None}"

definition settled :: "'c secret_view \<Rightarrow> jwt_lib \<Rightarrow> string \<Rightarrow> string \<Rightarrow> 'c \<Rightarrow> bool" where
  "settled view L k n c \<longleftrightarrow>
     tokenSecrets view n c \<noteq> {} \<and> (\<forall>v\<in>tokenSecrets view n c. \<exists>d. holds_token L k v d)"

lemma settled_cong: "view c' = view c \<Longrightarrow> settled view L k n c' = settled view L k n c"
  by (simp add: settled_def tokenSecrets_def)

section \<open>One reconciliation\<close>

lemma checkSecrets_effect:
  assumes store: "secret_store E view" and "checkSecrets E L k n vs found msg w = (Returns (Inr f), w')"
  shows "\<exists>ds. tokenLoop L k n vs found msg = (ds, Returns f) \<and>
    view (outside w') = view (outside w) |` (- key ` set ds)"
  using assms(2)
proof (induction vs arbitrary: found msg w)
  case Nil
  then show ?case by (auto simp: ret_def)
next
  case (Cons v vs)
  show ?case
  proof (cases "secretVerdict L k n v found msg")
    case (Panics p)
    with Cons.prems show ?thesis by (auto simp: monad_defs)
  next
    case (Returns verdict)
    obtain found' msg' where verdict: "verdict = (found', msg')" by fastforce
    show ?thesis
    proof (cases "msg' = ''''")
      case True
      with Cons.prems Returns verdict
      have "checkSecrets E L k n vs found' msg' w = (Returns (Inr f), w')" by (simp add: monad_defs)
      from Cons.IH [OF this] Returns verdict True show ?thesis by auto
    next
      case False
      obtain d c where del: "delete_secret E (key v) (outside w) = (d, c)" by fastforce
      let ?w = "w\<lparr>outside := c, calls := calls w @ [deletion v]\<rparr>"
      from Cons.prems Returns verdict False del obtain u where d: "d = Inr u"
        by (cases d) (auto simp: DeleteSecret_def monad_defs)
      with Cons.prems Returns verdict False del
      have "checkSecrets E L k n vs found' msg' ?w = (Returns (Inr f), w')"
        by (simp add: DeleteSecret_def monad_defs)
      from Cons.IH [OF this] obtain ds where ds: "tokenLoop L k n vs found' msg' = (ds, Returns f)"
        "view (outside w') = view c |` (- key ` set ds)" by auto
      with secret_storeD(6) [OF store del [unfolded d]] Returns verdict False show ?thesis
        by (intro exI [of _ "v # ds"]) (auto simp: restrict_map_def fun_eq_iff)
    qed
  qed
qed

text \<open>Where a reconciliation that succeeds starts and ends.\<close>

lemma reconcileNamespace_effect:
  assumes store: "secret_store E view"
    and ns: "fst (get_namespace E req (outside w)) = Inr ns" and active: "NamespacePhase ns \<noteq> ''Terminating''"
    and run: "reconcileNamespace E L R req w = (Returns (Inr ()), w')"
  obtains items ds f where "set items = tokenSecrets view (Name ns) (outside w)"
    "tokenLoop L (InsightsJWTSecret R) (Name ns) items False '''' = (ds, Returns f)"
    "f \<Longrightarrow> view (outside w') = view (outside w) |` (- key ` set ds)"
    "\<not> f \<Longrightarrow> \<exists>d. tokenDetails ns = Inr d \<and>
       view (outside w') = (view (outside w) |` (- key ` set ds))
         (key (freshSecret L (InsightsJWTSecret R) (Name ns) d) \<mapsto>
           freshSecret L (InsightsJWTSecret R) (Name ns) d)"
proof -
  let ?k = "InsightsJWTSecret R"
  obtain g c1 where "get_namespace E req (outside w) = (g, c1)" by fastforce
  with ns have get: "get_namespace E req (outside w) = (Inr ns, c1)" by simp
  obtain l c2 where list: "list_secrets E insightsTokenLabel (Name ns) c1 = (l, c2)" by fastforce
  from run get active list obtain items where l: "l = Inr items"
    by (cases l) (auto simp: reconcileNamespace_def GetNamespace_def ListSecrets_def monad_defs)
  let ?w = "w\<lparr>outside := c2,
    calls := calls w @ [KGetNamespace req, KListSecrets insightsTokenLabel (Name ns)]\<rparr>"
  from secret_storeD(2) [OF store get] secret_storeD(3) [OF store list]
  have view: "view c1 = view (outside w)" "view c2 = view (outside w)" by simp_all
  with secret_storeD(4) [OF store list [unfolded l]]
  have items: "set items = tokenSecrets view (Name ns) (outside w)" by (simp add: tokenSecrets_def)
  obtain s w1 where check: "checkSecrets E L ?k (Name ns) items False '''' ?w = (s, w1)" by fastforce
  note eq = reconcileNamespace_active [OF get active list [unfolded l], of L R, unfolded run]
  from eq check obtain f where s: "s = Returns (Inr f)"
    by (auto simp: attempt_def bind_def ret_def split: exec.splits sum.splits)
  from checkSecrets_effect [OF store check [unfolded s]] view obtain ds where
    loop: "tokenLoop L ?k (Name ns) items False '''' = (ds, Returns f)" and
    w1: "view (outside w1) = view (outside w) |` (- key ` set ds)" by auto
  show thesis
  proof (rule that [OF items loop])
    assume f
    with eq check s have "w' = w1" by (simp add: attempt_def bind_def ret_def)
    with w1 show "view (outside w') = view (outside w) |` (- key ` set ds)"
      by simp
  next
    assume "\<not> f"
    with eq check s have create: "createToken E L ?k ns w1 = (Returns (Inr ()), w')"
      by (simp add: attempt_def bind_def)
    then obtain d where d: "tokenDetails ns = Inr d"
      by (cases "tokenDetails ns") (auto simp: createToken_def ret_def)
    obtain u c where cr: "create_secret E (freshSecret L ?k (Name ns) d) (outside w1) = (u, c)"
      by fastforce
    with create d have "u = Inr () \<and> outside w' = c"
      by (cases u) (auto simp: createToken_def freshSecret_def CreateSecret_def monad_defs
          split: prod.splits)
    with secret_storeD(5) [OF store] cr w1 d
    show "\<exists>d. tokenDetails ns = Inr d \<and>
       view (outside w') = (view (outside w) |` (- key ` set ds))
         (key (freshSecret L ?k (Name ns) d) \<mapsto> freshSecret L ?k (Name ns) d)"
      by auto
  qed
qed

section \<open>Two reconciliations settle a namespace\<close>

lemma freshSecret_meta [simp]:
  "Namespace (freshSecret L k n d) = n"
  "mlookup (Labels (freshSecret L k n d)) insightsTokenLabel = Some ''true''"
  by (simp_all add: freshSecret_def tokenSecret_def)

lemma reconcile_settles_or_empties:
  assumes store: "secret_store E view"
    and ns: "fst (get_namespace E req (outside w)) = Inr ns" and active: "NamespacePhase ns \<noteq> ''Terminating''"
    and d: "tokenDetails ns = Inr d"
    and valid: "holds_token L (InsightsJWTSecret R) (freshSecret L (InsightsJWTSecret R) (Name ns) d) d"
    and run: "reconcileNamespace E L R req w = (Returns (Inr ()), w')"
  shows "settled view L (InsightsJWTSecret R) (Name ns) (outside w') \<or>
    tokenSecrets view (Name ns) (outside w') = {} \<and> tokenSecrets view (Name ns) (outside w) \<noteq> {}"
  using store ns active run
proof (rule reconcileNamespace_effect)
  let ?k = "InsightsJWTSecret R"
  let ?fresh = "freshSecret L ?k (Name ns) d"
  fix items ds f
  assume items: "set items = tokenSecrets view (Name ns) (outside w)"
    and loop: "tokenLoop L ?k (Name ns) items False '''' = (ds, Returns f)"
    and kept: "f \<Longrightarrow> view (outside w') = view (outside w) |` (- key ` set ds)"
    and created: "\<not> f \<Longrightarrow> \<exists>d. tokenDetails ns = Inr d \<and>
       view (outside w') = (view (outside w) |` (- key ` set ds))
         (key (freshSecret L ?k (Name ns) d) \<mapsto> freshSecret L ?k (Name ns) d)"
  have rest: "f \<and> (\<exists>d. holds_token L ?k v d)"
    if "(view (outside w) |` (- key ` set ds)) (key v) = Some v" "Namespace v = Name ns"
      "mlookup (Labels v) insightsTokenLabel \<noteq> None" for v
  proof (rule tokenLoop_keeps [OF loop])
    from that(1) have "view (outside w) (key v) = Some v" and "key v \<notin> key ` set ds"
      by (auto simp: restrict_map_def split: if_splits)
    with that(2,3) items show "v \<in> set items" "v \<notin> set ds" by (auto simp: tokenSecrets_def)
  qed
  show ?thesis
  proof (cases f)
    case True
    with rest have all: "\<forall>v\<in>tokenSecrets view (Name ns) (outside w'). \<exists>d. holds_token L ?k v d"
      unfolding tokenSecrets_def kept [OF True] by blast
    moreover from loop True have "items \<noteq> []" by auto
    ultimately show ?thesis using items by (auto simp: settled_def)
  next
    case False
    with created d have view: "view (outside w') =
        (view (outside w) |` (- key ` set ds)) (key ?fresh \<mapsto> ?fresh)" by auto
    have "v = ?fresh" if "v \<in> tokenSecrets view (Name ns) (outside w')" for v
    proof (cases "key v = key ?fresh")
      case True
      have "view (outside w') (key v) = Some ?fresh" unfolding view True by simp
      with that show ?thesis unfolding tokenSecrets_def by simp
    next
      case other: False
      from that have v: "view (outside w') (key v) = Some v" "Namespace v = Name ns"
        "mlookup (Labels v) insightsTokenLabel \<noteq> None"
        unfolding tokenSecrets_def by simp_all
      from v(1) other have "(view (outside w) |` (- key ` set ds)) (key v) = Some v"
        unfolding view by simp
      from rest [OF this v(2,3)] False show ?thesis by blast
    qed
    moreover have "?fresh \<in> tokenSecrets view (Name ns) (outside w')"
      unfolding tokenSecrets_def view by simp
    ultimately have only: "tokenSecrets view (Name ns) (outside w') = {?fresh}" by blast
    from exI [where P = "holds_token L ?k ?fresh", OF valid]
    have "settled view L ?k (Name ns) (outside w')" unfolding settled_def only by simp
    then show ?thesis ..
  qed
qed

lemma settled_untouched:
  assumes store: "secret_store E view"
    and ns: "fst (get_namespace E req (outside w)) = Inr ns" and active: "NamespacePhase ns \<noteq> ''Terminating''"
    and settled: "settled view L (InsightsJWTSecret R) (Name ns) (outside w)"
    and run: "reconcileNamespace E L R req w = (r, w')"
  shows "view (outside w') = view (outside w)"
    and "filter kube_write (calls w') = filter kube_write (calls w)"
proof -
  obtain g c1 where "get_namespace E req (outside w) = (g, c1)" by fastforce
  with ns have get: "get_namespace E req (outside w) = (Inr ns, c1)" by simp
  obtain l c2 where list: "list_secrets E insightsTokenLabel (Name ns) c1 = (l, c2)" by fastforce
  from secret_storeD(2) [OF store get] secret_storeD(3) [OF store list]
  have view: "view c1 = view (outside w)" "view c2 = view (outside w)" by simp_all
  have "outside w' = c2 \<and> filter kube_write (calls w') = filter kube_write (calls w)"
  proof (cases l)
    case (Inl err)
    with run get active list show ?thesis
      by (auto simp: reconcileNamespace_def GetNamespace_def ListSecrets_def monad_defs)
  next
    case (Inr items)
    with secret_storeD(4) [OF store] list view
    have "set items = tokenSecrets view (Name ns) (outside w)" by (simp add: tokenSecrets_def)
    with settled have "items \<noteq> []" "\<forall>v\<in>set items. \<exists>d. holds_token L (InsightsJWTSecret R) v d"
      by (auto simp: settled_def)
    with reconcileNamespace_active [OF get active list [unfolded Inr], of L R] run
    show ?thesis by (auto simp: checkSecrets_all_valid attempt_def bind_def ret_def)
  qed
  with view show "view (outside w') = view (outside w)"
    and "filter kube_write (calls w') = filter kube_write (calls w)" by simp_all
qed

lemma two_reconciliations_settle:
  assumes store: "secret_store E view" and active: "NamespacePhase ns \<noteq> ''Terminating''"
    and d: "tokenDetails ns = Inr d"
    and valid: "holds_token L (InsightsJWTSecret R) (freshSecret L (InsightsJWTSecret R) (Name ns) d) d"
    and ns: "fst (get_namespace E req (outside w)) = Inr ns"
    and run: "reconcileNamespace E L R req w = (Returns (Inr ()), w1)"
    and ns1: "fst (get_namespace E req (outside w1)) = Inr ns"
    and run1: "reconcileNamespace E L R req w1 = (Returns (Inr ()), w2)"
  shows "settled view L (InsightsJWTSecret R) (Name ns) (outside w2)"
  using reconcile_settles_or_empties [OF store ns active d valid run]
proof
  assume settled: "settled view L (InsightsJWTSecret R) (Name ns) (outside w1)"
  from settled_untouched(1) [OF store ns1 active this run1] have "view (outside w2) = view (outside w1)" .
  with settled settled_cong show ?thesis by metis
next
  assume "tokenSecrets view (Name ns) (outside w1) = {} \<and> tokenSecrets view (Name ns) (outside w) \<noteq> {}"
  with reconcile_settles_or_empties [OF store ns1 active d valid run1] show ?thesis by blast
qed

end
