(* ===== verification/Polling.thy ===== *)
theory Polling
  imports Dependency_Track
begin

text \<open>
  The end of \<open>postProcess\<close> in \<open>dependencyTrack.go\<close> as the two threads it is: the goroutine that
  selects on the ticker and on the timeout and polls, and the caller that selects on the two
  channels the goroutine sends on. Both channels are unbuffered, so a send is a step of both
  threads; the goroutine closes them when it is done. Time is counted in nanoseconds from the
  creation of the ticker and passes at any moment, so a poll can take any time. Whether a select
  with both channels ready takes the tick or the timeout is open. \<open>awaitProcessing\<close> is the outcome
  as a function of the number of ticks taken; \<open>poll_run_outcome\<close> and
  \<open>poll_run_exists\<close> show that the two agree.
\<close>

section \<open>The two threads\<close>

definition tickerHeartbeatDuration :: nat where
  "tickerHeartbeatDuration = 1000000000"

definition tickerTimeout :: nat where
  "tickerTimeout = 300 * 1000000000"

text \<open>\<open>Finished\<close> is after the deferred calls: the ticker is stopped, both channels are closed.\<close>

datatype routine = Selecting | InPoll | SendingErr go_error | SendingDone | Finished

text \<open>
  \<open>tickReady\<close>: the buffer of the ticker's channel, which holds one tick and drops others.
  \<open>received\<close>: what the caller returns, once its select has received.
\<close>

record 'c polling =
  pollWorld :: "('c, effect) world"
  elapsed :: nat
  tickReady :: bool
  routine :: routine
  received :: "(go_error + unit) option"

definition poll_start :: "('c, effect) world \<Rightarrow> 'c polling" where
  "poll_start w =
     \<lparr>pollWorld = w, elapsed = 0, tickReady = False, routine = Selecting, received = None\<rparr>"

definition after_poll :: "go_error + bool \<Rightarrow> routine" where
  "after_poll r =
     (case r of
        Inl err \<Rightarrow> SendingErr err
      | Inr processing \<Rightarrow> if \<not> processing then SendingDone else Selecting)"

inductive poll_step ::
  "'c environment \<Rightarrow> dt_client \<Rightarrow> string \<Rightarrow> 'c polling \<Rightarrow> 'c polling \<Rightarrow> bool"
  for E client uploadToken where
  Passes:
    "poll_step E client uploadToken s
       (s\<lparr>elapsed := elapsed s + d,
          tickReady := tickReady s \<or>
            routine s \<noteq> Finished \<and>
            elapsed s div tickerHeartbeatDuration < (elapsed s + d) div tickerHeartbeatDuration\<rparr>)"
| TakesTick:
    "routine s = Selecting \<Longrightarrow> tickReady s \<Longrightarrow>
     poll_step E client uploadToken s (s\<lparr>routine := InPoll, tickReady := False\<rparr>)"
| TimesOut:
    "routine s = Selecting \<Longrightarrow> tickerTimeout \<le> elapsed s \<Longrightarrow>
     poll_step E client uploadToken s (s\<lparr>routine := SendingErr (Error ''timeout exceeded'')\<rparr>)"
| Polls:
    "routine s = InPoll \<Longrightarrow>
     IsBeingProcessed E client uploadToken (pollWorld s) = (Returns r, w') \<Longrightarrow>
     poll_step E client uploadToken s (s\<lparr>pollWorld := w', routine := after_poll r\<rparr>)"
| SendsErr:
    "routine s = SendingErr err \<Longrightarrow> received s = None \<Longrightarrow>
     poll_step E client uploadToken s (s\<lparr>received := Some (Inl err), routine := Finished\<rparr>)"
| SendsDone:
    "routine s = SendingDone \<Longrightarrow> received s = None \<Longrightarrow>
     poll_step E client uploadToken s (s\<lparr>received := Some (Inr ()), routine := Finished\<rparr>)"
| ReceivesClosed:
    "routine s = Finished \<Longrightarrow> received s = None \<Longrightarrow>
     poll_step E client uploadToken s (s\<lparr>received := Some (Inr ())\<rparr>)"

inductive_cases poll_stepE: "poll_step E client uploadToken s s'"

abbreviation poll_steps ::
  "'c environment \<Rightarrow> dt_client \<Rightarrow> string \<Rightarrow> 'c polling \<Rightarrow> 'c polling \<Rightarrow> bool" where
  "poll_steps E client uploadToken \<equiv> (poll_step E client uploadToken)\<^sup>*\<^sup>*"

section \<open>The answers of successive polls\<close>

fun polls ::
  "'c environment \<Rightarrow> dt_client \<Rightarrow> string \<Rightarrow> nat \<Rightarrow> 'c \<Rightarrow> (go_error + bool) list \<times> 'c" where
  "polls E client t 0 c = ([], c)"
| "polls E client t (Suc n) c =
     (case polls E client t n c of
        (rs, c1) \<Rightarrow> (case dt_is_being_processed E client t c1 of (r, c2) \<Rightarrow> (rs @ [r], c2)))"

definition polled ::
  "'c environment \<Rightarrow> dt_client \<Rightarrow> string \<Rightarrow> nat \<Rightarrow> ('c, effect) world \<Rightarrow> ('c, effect) world" where
  "polled E client t n w =
     w\<lparr>outside := snd (polls E client t n (outside w)),
       calls := calls w @ replicate n (DtIsBeingProcessed client t)\<rparr>"

lemma polled_0 [simp]: "polled E client t 0 w = w"
  by (simp add: polled_def)

lemma IsBeingProcessed_run:
  "IsBeingProcessed E client t w =
     (case dt_is_being_processed E client t (outside w) of
        (r, c) \<Rightarrow> (Returns r, w\<lparr>outside := c, calls := calls w @ [DtIsBeingProcessed client t]\<rparr>))"
  by (simp add: IsBeingProcessed_def invoke_def)

lemma poll_returns: "\<exists>r w'. IsBeingProcessed E client t w = (Returns r, w')"
  by (simp add: IsBeingProcessed_run split: prod.split)

lemma polls_snoc: "\<exists>r. fst (polls E client t (Suc n) c) = fst (polls E client t n c) @ [r]"
  by (simp add: case_prod_unfold)

lemma polled_Suc:
  assumes "IsBeingProcessed E client t (polled E client t n w) = (Returns r, w')"
  shows "w' = polled E client t (Suc n) w"
    and "fst (polls E client t (Suc n) (outside w)) = fst (polls E client t n (outside w)) @ [r]"
  using assms
  by (auto simp: polled_def IsBeingProcessed_run replicate_append_same split: prod.splits)

lemma length_polls [simp]: "length (fst (polls E client t n c)) = n"
  by (induction n) (auto split: prod.splits)

section \<open>Invariant\<close>

text \<open>How an outcome follows from the answers.\<close>

abbreviation still_processing :: "(go_error + bool) list \<Rightarrow> bool" where
  "still_processing rs \<equiv> list_all (\<lambda>r. r = Inr True) rs"

definition timed_out :: "(go_error + bool) list \<Rightarrow> nat \<Rightarrow> go_error + unit \<Rightarrow> bool" where
  "timed_out rs t res \<longleftrightarrow>
     still_processing rs \<and> res = Inl (Error ''timeout exceeded'') \<and> tickerTimeout \<le> t"

definition answered :: "(go_error + bool) list \<Rightarrow> go_error + unit \<Rightarrow> bool" where
  "answered rs res \<longleftrightarrow>
     (\<exists>rs' r. rs = rs' @ [r] \<and> still_processing rs' \<and>
        (case r of
           Inl err \<Rightarrow> res = Inl err
         | Inr processing \<Rightarrow> \<not> processing \<and> res = Inr ()))"

text \<open>
  After \<open>n\<close> polls: no more ticks have been taken, the one of the poll that runs included, than
  heartbeats have passed; and in every phase the answers say why the goroutine is there.
\<close>

definition poll_inv ::
  "'c environment \<Rightarrow> dt_client \<Rightarrow> string \<Rightarrow> ('c, effect) world \<Rightarrow> nat \<Rightarrow> 'c polling \<Rightarrow> bool" where
  "poll_inv E client t w n s \<longleftrightarrow>
     (let rs = fst (polls E client t n (outside w)) in
      pollWorld s = polled E client t n w \<and>
      n + of_bool (tickReady s) + of_bool (routine s = InPoll) \<le> elapsed s div tickerHeartbeatDuration \<and>
      (received s = None \<longleftrightarrow> routine s \<noteq> Finished) \<and>
      (case routine s of
         Selecting \<Rightarrow> still_processing rs
       | InPoll \<Rightarrow> still_processing rs
       | SendingErr err \<Rightarrow> timed_out rs (elapsed s) (Inl err) \<or> answered rs (Inl err)
       | SendingDone \<Rightarrow> answered rs (Inr ())
       | Finished \<Rightarrow> (\<exists>res. received s = Some res \<and> (timed_out rs (elapsed s) res \<or> answered rs res))))"

lemma poll_inv_start: "poll_inv E client t w 0 (poll_start w)"
  by (simp add: poll_inv_def poll_start_def)

lemma poll_inv_step:
  assumes "poll_inv E client t w n s" and "poll_step E client t s s'"
  shows "\<exists>m. poll_inv E client t w m s'"
  using assms(2)
proof (cases rule: poll_step.cases)
  case (Passes d)
  have "elapsed s div tickerHeartbeatDuration \<le> (elapsed s + d) div tickerHeartbeatDuration"
    by (simp add: div_le_mono)
  with assms(1) Passes show ?thesis
    by (intro exI [of _ n])
      (auto simp: poll_inv_def Let_def timed_out_def of_bool_def split: routine.splits if_splits)
next
  case (Polls r w')
  with assms(1) have "IsBeingProcessed E client t (polled E client t n w) = (Returns r, w')"
    by (simp add: poll_inv_def Let_def)
  note next_poll = polled_Suc [OF this]
  from assms(1) Polls(2) have "list_all (\<lambda>r. r = Inr True) (fst (polls E client t n (outside w)))"
    by (simp add: poll_inv_def Let_def)
  with next_poll(2) have "case after_poll r of
       Selecting \<Rightarrow> list_all (\<lambda>r. r = Inr True) (fst (polls E client t (Suc n) (outside w)))
     | SendingErr err \<Rightarrow> answered (fst (polls E client t (Suc n) (outside w))) (Inl err)
     | SendingDone \<Rightarrow> answered (fst (polls E client t (Suc n) (outside w))) (Inr ())
     | _ \<Rightarrow> False"
    by (auto simp: after_poll_def answered_def split: sum.split)
  with assms(1) Polls next_poll(1) show ?thesis
    by (intro exI [of _ "Suc n"]) (auto simp: poll_inv_def Let_def split: routine.splits)
next
  case TakesTick
  with assms(1) show ?thesis
    by (intro exI [of _ n]) (simp add: poll_inv_def Let_def)
next
  case TimesOut
  with assms(1) show ?thesis
    by (intro exI [of _ n]) (simp add: poll_inv_def Let_def timed_out_def)
qed (use assms(1) in \<open>auto simp: poll_inv_def Let_def intro!: exI [of _ n]\<close>)

lemma poll_inv_steps:
  assumes "poll_steps E client t (poll_start w) s"
  shows "\<exists>n. poll_inv E client t w n s"
  using assms
proof (induction rule: rtranclp_induct)
  case base
  show ?case by (rule exI) (rule poll_inv_start)
next
  case (step s s')
  from step.IH obtain n where "poll_inv E client t w n s" by blast
  from poll_inv_step [OF this step.hyps(2)] show ?case .
qed

section \<open>The outcome as a function of the ticks\<close>

lemma await_still:
  "still_processing (fst (polls E client t m (outside w))) \<Longrightarrow>
     awaitProcessing E client t (m + k) w = awaitProcessing E client t k (polled E client t m w)"
proof (induction m arbitrary: k)
  case (Suc m)
  obtain r w' where poll: "IsBeingProcessed E client t (polled E client t m w) = (Returns r, w')"
    using poll_returns by blast
  note next_poll = polled_Suc [OF poll]
  from Suc.prems next_poll(2) have still: "still_processing (fst (polls E client t m (outside w)))"
    and "r = Inr True" by simp_all
  with Suc.IH [OF still, of "Suc k"] poll next_poll(1) show ?case
    by (simp add: attempt_def bind_def)
qed simp

lemma await_answered:
  assumes "still_processing (fst (polls E client t m (outside w)))"
    and "fst (polls E client t (Suc m) (outside w)) = fst (polls E client t m (outside w)) @ [r]"
    and "r \<noteq> Inr True"
  shows "awaitProcessing E client t (m + Suc k) w =
    (Returns (map_sum id (\<lambda>_. ()) r), polled E client t (Suc m) w)"
proof -
  obtain r' w' where poll: "IsBeingProcessed E client t (polled E client t m w) = (Returns r', w')"
    using poll_returns by blast
  note next_poll = polled_Suc [OF poll]
  from next_poll(2) assms(2) have "r' = r" by simp
  with poll next_poll(1) assms(3) show ?thesis
    unfolding await_still [OF assms(1)]
    by (cases r) (simp_all add: attempt_def bind_def ret_def)
qed

lemma polls_split:
  "still_processing (fst (polls E client t n c)) \<or>
   (\<exists>m<n. still_processing (fst (polls E client t m c)) \<and>
      (\<exists>r. r \<noteq> Inr True \<and> fst (polls E client t (Suc m) c) = fst (polls E client t m c) @ [r]))"
proof (induction n)
  case (Suc n)
  then show ?case
  proof
    assume still: "still_processing (fst (polls E client t n c))"
    obtain r where r: "fst (polls E client t (Suc n) c) = fst (polls E client t n c) @ [r]"
      by (rule exE [OF polls_snoc [of E client t n c]])
    show ?thesis
    proof (cases "r = Inr True")
      case True
      with still have "still_processing (fst (polls E client t (Suc n) c))" unfolding r by simp
      then show ?thesis by blast
    next
      case False
      with still r show ?thesis by blast
    qed
  qed (meson less_SucI)
qed simp

text \<open>What the function can return: the timeout, or what an answer says, after the polls before it.\<close>

lemma await_iff:
  "(\<exists>n. awaitProcessing E client t n w = (Returns res, w')) \<longleftrightarrow>
   (\<exists>m. w' = polled E client t m w \<and>
      (let rs = fst (polls E client t m (outside w)) in
        timed_out rs tickerTimeout res \<or> answered rs res))" (is "?L \<longleftrightarrow> ?R")
proof
  assume ?L
  then obtain n where run: "awaitProcessing E client t n w = (Returns res, w')" by blast
  from polls_split [of E client t n "outside w"] show ?R
  proof (elim disjE exE conjE)
    assume still: "still_processing (fst (polls E client t n (outside w)))"
    with await_still [OF this, of 0] run show ?R
      by (intro exI [of _ n]) (simp add: ret_def timed_out_def Let_def)
  next
    fix m r
    assume m: "m < n" and r: "r \<noteq> Inr True"
      and still: "still_processing (fst (polls E client t m (outside w)))"
      and last: "fst (polls E client t (Suc m) (outside w)) = fst (polls E client t m (outside w)) @ [r]"
    from m obtain k where "n = m + Suc k" by (metis less_imp_Suc_add add_Suc_right)
    with await_answered [OF still last r, of k] run
    have "res = map_sum id (\<lambda>_. ()) r" "w' = polled E client t (Suc m) w" by simp_all
    moreover have "answered (fst (polls E client t (Suc m) (outside w))) (map_sum id (\<lambda>_. ()) r)"
      unfolding answered_def last using still r by (cases r) auto
    ultimately show ?R unfolding Let_def by blast
  qed
next
  assume ?R
  then obtain m where w': "w' = polled E client t m w" and
    out: "timed_out (fst (polls E client t m (outside w))) tickerTimeout res \<or>
      answered (fst (polls E client t m (outside w))) res" by (auto simp: Let_def)
  from out show ?L
  proof
    assume "timed_out (fst (polls E client t m (outside w))) tickerTimeout res"
    with await_still [of E client t m w 0] w' show ?L
      by (intro exI [of _ m]) (simp add: timed_out_def ret_def)
  next
    assume "answered (fst (polls E client t m (outside w))) res"
    then obtain rs r where rs: "fst (polls E client t m (outside w)) = rs @ [r]"
      and still: "still_processing rs" and "case r of Inl err \<Rightarrow> res = Inl err
        | Inr processing \<Rightarrow> \<not> processing \<and> res = Inr ()"
      unfolding answered_def by blast
    from this(3) have r: "r \<noteq> Inr True" "res = map_sum id (\<lambda>_. ()) r" by (cases r; simp)+
    from rs obtain l where m: "m = Suc l" by (cases m) auto
    with rs have "fst (polls E client t l (outside w)) = rs" by (auto split: prod.splits)
    with await_answered [of E client t l w r 0] rs still r w' m show ?L
      by (intro exI [of _ "l + Suc 0"]) simp
  qed
qed

section \<open>Runs\<close>

text \<open>From the select, when the caller still waits: one more poll, or the timeout.\<close>

definition waiting :: "'c polling \<Rightarrow> bool" where
  "waiting s \<longleftrightarrow> routine s = Selecting \<and> received s = None"

lemma run_poll:
  assumes "waiting s" and "IsBeingProcessed E client t (pollWorld s) = (Returns r, w')"
  shows "\<exists>s'. poll_steps E client t s s' \<and> pollWorld s' = w' \<and> routine s' = after_poll r \<and>
    received s' = None"
proof -
  let ?s1 = "s\<lparr>elapsed := elapsed s + tickerHeartbeatDuration, tickReady := True\<rparr>"
  have "poll_step E client t s ?s1"
    using Passes [of E client t s tickerHeartbeatDuration] assms(1)
    by (simp add: waiting_def tickerHeartbeatDuration_def)
  moreover have "poll_step E client t ?s1 (?s1\<lparr>routine := InPoll, tickReady := False\<rparr>)"
    using assms(1) by (intro TakesTick) (simp_all add: waiting_def)
  moreover have "poll_step E client t (?s1\<lparr>routine := InPoll, tickReady := False\<rparr>)
      (?s1\<lparr>routine := InPoll, tickReady := False\<rparr>\<lparr>pollWorld := w', routine := after_poll r\<rparr>)"
    using assms(2) by (intro Polls) simp_all
  ultimately have "poll_steps E client t s
      (?s1\<lparr>routine := InPoll, tickReady := False\<rparr>\<lparr>pollWorld := w', routine := after_poll r\<rparr>)"
    by (meson converse_rtranclp_into_rtranclp rtranclp.rtrancl_refl)
  with assms(1) show ?thesis by (intro exI conjI) (assumption, simp_all add: waiting_def)
qed

lemma run_polls:
  "still_processing (fst (polls E client t n (outside w))) \<Longrightarrow>
     \<exists>s. poll_steps E client t (poll_start w) s \<and> pollWorld s = polled E client t n w \<and> waiting s"
proof (induction n)
  case 0
  show ?case
    by (intro exI [of _ "poll_start w"]) (simp add: poll_start_def waiting_def)
next
  case (Suc n)
  obtain r w' where poll: "IsBeingProcessed E client t (polled E client t n w) = (Returns r, w')"
    using poll_returns by blast
  note next_poll = polled_Suc [OF poll]
  from Suc.prems next_poll(2) have "still_processing (fst (polls E client t n (outside w)))"
    and r: "r = Inr True" by simp_all
  with Suc.IH obtain s where s: "poll_steps E client t (poll_start w) s"
    "pollWorld s = polled E client t n w" "waiting s" by blast
  from run_poll [OF s(3)] poll s(2) obtain s' where "poll_steps E client t s s'" "pollWorld s' = w'"
    "routine s' = after_poll r" "received s' = None" by metis
  with s(1) next_poll(1) r show ?case
    by (intro exI [of _ s']) (auto simp: waiting_def after_poll_def)
qed

lemma run_timeout:
  assumes "waiting s"
  shows "\<exists>s'. poll_steps E client t s s' \<and> pollWorld s' = pollWorld s \<and>
    received s' = Some (Inl (Error ''timeout exceeded'')) \<and> elapsed s' = max (elapsed s) tickerTimeout"
proof -
  let ?d = "tickerTimeout - elapsed s"
  obtain b where "poll_step E client t s (s\<lparr>elapsed := elapsed s + ?d, tickReady := b\<rparr>)"
    using Passes [of E client t s ?d] by blast
  moreover let ?s1 = "s\<lparr>elapsed := elapsed s + ?d, tickReady := b\<rparr>"
  have "poll_step E client t ?s1 (?s1\<lparr>routine := SendingErr (Error ''timeout exceeded'')\<rparr>)"
    using assms by (intro TimesOut) (simp_all add: waiting_def)
  moreover have "poll_step E client t (?s1\<lparr>routine := SendingErr (Error ''timeout exceeded'')\<rparr>)
      (?s1\<lparr>routine := SendingErr (Error ''timeout exceeded'')\<rparr>
        \<lparr>received := Some (Inl (Error ''timeout exceeded'')), routine := Finished\<rparr>)"
    using assms by (intro SendsErr) (simp_all add: waiting_def)
  ultimately have "poll_steps E client t s (?s1\<lparr>routine := SendingErr (Error ''timeout exceeded'')\<rparr>
        \<lparr>received := Some (Inl (Error ''timeout exceeded'')), routine := Finished\<rparr>)"
    by (meson converse_rtranclp_into_rtranclp rtranclp.rtrancl_refl)
  then show ?thesis by (intro exI conjI) (assumption, simp_all)
qed

lemma run_send:
  assumes "received s = None" and "routine s = SendingErr err \<and> res = Inl err \<or>
    routine s = SendingDone \<and> res = Inr ()"
  shows "poll_step E client t s (s\<lparr>received := Some res, routine := Finished\<rparr>)"
  using assms by (auto intro: SendsErr SendsDone)

lemma poll_run_outcome:
  assumes "poll_steps E client t (poll_start w) s" and "received s = Some res"
  shows "\<exists>n. awaitProcessing E client t n w = (Returns res, pollWorld s)"
proof -
  from poll_inv_steps [OF assms(1)] obtain n where inv: "poll_inv E client t w n s" by blast
  with assms(2) have "routine s = Finished" by (auto simp: poll_inv_def Let_def)
  with inv assms(2) show ?thesis
    unfolding await_iff by (intro exI [of _ n]) (auto simp: poll_inv_def Let_def timed_out_def)
qed

lemma poll_run_exists:
  assumes "awaitProcessing E client t n w = (Returns res, w')"
  shows "\<exists>s. poll_steps E client t (poll_start w) s \<and> received s = Some res \<and> pollWorld s = w'"
proof -
  from assms have "\<exists>n. awaitProcessing E client t n w = (Returns res, w')" by blast
  then obtain m where w': "w' = polled E client t m w" and
    out: "timed_out (fst (polls E client t m (outside w))) tickerTimeout res \<or>
      answered (fst (polls E client t m (outside w))) res"
    unfolding await_iff by (auto simp: Let_def)
  from out show ?thesis
  proof
    assume out: "timed_out (fst (polls E client t m (outside w))) tickerTimeout res"
    then have "still_processing (fst (polls E client t m (outside w)))" by (simp add: timed_out_def)
    from run_polls [OF this] obtain s where s: "poll_steps E client t (poll_start w) s"
      "pollWorld s = polled E client t m w" "waiting s" by blast
    from run_timeout [OF s(3)] obtain s' where "poll_steps E client t s s'" "pollWorld s' = pollWorld s"
      "received s' = Some (Inl (Error ''timeout exceeded''))" by metis
    with s out w' show ?thesis
      by (intro exI [of _ s']) (auto simp: timed_out_def)
  next
    assume "answered (fst (polls E client t m (outside w))) res"
    then obtain rs r where rs: "fst (polls E client t m (outside w)) = rs @ [r]"
      and still: "still_processing rs" and res: "case r of Inl err \<Rightarrow> res = Inl err
        | Inr processing \<Rightarrow> \<not> processing \<and> res = Inr ()"
      unfolding answered_def by blast
    from rs obtain l where m: "m = Suc l" by (cases m) auto
    obtain r' w1 where poll: "IsBeingProcessed E client t (polled E client t l w) = (Returns r', w1)"
      using poll_returns by blast
    note next_poll = polled_Suc [OF poll]
    from next_poll(2) rs m have "fst (polls E client t l (outside w)) = rs" "r' = r" by simp_all
    with still run_polls obtain s where s: "poll_steps E client t (poll_start w) s"
      "pollWorld s = polled E client t l w" "waiting s" by metis
    from run_poll [OF s(3)] poll s(2) obtain s' where s': "poll_steps E client t s s'" "pollWorld s' = w1"
      "routine s' = after_poll r'" "received s' = None" by metis
    from res s'(3) \<open>r' = r\<close> have "routine s' = SendingErr (projl res) \<and> res = Inl (projl res) \<or>
        routine s' = SendingDone \<and> res = Inr ()"
      by (cases r) (simp_all add: after_poll_def)
    from run_send [OF s'(4) this] have
      "poll_step E client t s' (s'\<lparr>received := Some res, routine := Finished\<rparr>)" .
    with s(1) s'(1,2) next_poll(1) w' m show ?thesis
      by (intro exI [of _ "s'\<lparr>received := Some res, routine := Finished\<rparr>"]) auto
  qed
qed

text \<open>Wherever the two threads are, they can end by the timeout, with at most the poll that runs.\<close>

lemma poll_can_end:
  assumes "poll_inv E client t w n s" and "received s = None"
  shows "\<exists>s'. poll_steps E client t s s' \<and> received s' \<noteq> None \<and> elapsed s' \<le> max (elapsed s) tickerTimeout"
proof -
  have sent: ?thesis if "routine s1 = SendingErr err \<or> routine s1 = SendingDone" "received s1 = None"
    "poll_steps E client t s s1" "elapsed s1 = elapsed s" for s1 err
  proof -
    from that(1) run_send [OF that(2)] obtain res where
      "poll_step E client t s1 (s1\<lparr>received := Some res, routine := Finished\<rparr>)" by blast
    with that(3,4) show ?thesis
      by (intro exI [of _ "s1\<lparr>received := Some res, routine := Finished\<rparr>"]) auto
  qed
  have out: ?thesis if "waiting s1" "poll_steps E client t s s1" "elapsed s1 = elapsed s" for s1
  proof -
    from run_timeout [OF that(1)] obtain s' where "poll_steps E client t s1 s'"
      "received s' = Some (Inl (Error ''timeout exceeded''))" "elapsed s' = max (elapsed s1) tickerTimeout"
      by metis
    with that(2,3) show ?thesis by (intro exI [of _ s']) auto
  qed
  show ?thesis
  proof (cases "routine s")
    case Selecting
    with assms(2) show ?thesis by (intro out [of s]) (simp_all add: waiting_def)
  next
    case InPoll
    obtain r w' where "IsBeingProcessed E client t (pollWorld s) = (Returns r, w')"
      using poll_returns by blast
    from Polls [OF InPoll this]
    have step: "poll_steps E client t s (s\<lparr>pollWorld := w', routine := after_poll r\<rparr>)" by blast
    show ?thesis
    proof (cases "r = Inr True")
      case True
      with step assms(2) show ?thesis by (intro out [of "s\<lparr>pollWorld := w', routine := after_poll r\<rparr>"])
          (simp_all add: waiting_def after_poll_def)
    next
      case False
      with step assms(2) show ?thesis
        by (intro sent [of "s\<lparr>pollWorld := w', routine := after_poll r\<rparr>" "projl r"])
          (auto simp: after_poll_def split: sum.split)
    qed
  next
    case (SendingErr err)
    with assms(2) show ?thesis by (intro sent [of s err]) simp_all
  next
    case SendingDone
    with assms(2) show ?thesis by (intro sent [of s]) simp_all
  next
    case Finished
    with assms show ?thesis by (simp add: poll_inv_def Let_def)
  qed
qed

end
