(* ===== verification/Project_Tree.thy ===== *)
theory Project_Tree
  imports Polling
begin

text \<open>
  What a Dependency Track server stores, as far as the processors rely on it: \<open>V c\<close> gives for each
  UUID the name and the parent of the project, and \<open>project_store\<close> is what the API documents of it
  for the server a client talks to. On such a server the loop over the parent names leaves a chain
  of projects of these names, each stored under the one before.
\<close>

section \<open>The server\<close>

type_synonym 'c project_view = "'c \<Rightarrow> string \<Rightarrow> (string \<times> string option) option"

text \<open>No call of the processors renames, moves or removes a project.\<close>

definition project_frame :: "'c environment \<Rightarrow> dt_client \<Rightarrow> 'c project_view \<Rightarrow> bool" where
  "project_frame E cl V \<longleftrightarrow>
     (\<forall>n c. V c \<subseteq>\<^sub>m V (snd (dt_get_projects_for_name E cl n c))) \<and>
     (\<forall>p c. V c \<subseteq>\<^sub>m V (snd (dt_create_project E cl p c))) \<and>
     (\<forall>u c. V c \<subseteq>\<^sub>m V (snd (dt_get_project E cl u c))) \<and>
     (\<forall>rq c. V c \<subseteq>\<^sub>m V (snd (dt_upload E cl rq c))) \<and>
     (\<forall>t c. V c \<subseteq>\<^sub>m V (snd (dt_is_being_processed E cl t c))) \<and>
     (\<forall>c. V c \<subseteq>\<^sub>m V (snd (ticks_before_timeout E c)))"

text \<open>
  A project listed for a name is stored under that name; a project got by its UUID is the stored
  one; a project created is stored with the name and the parent that were asked for.
\<close>

definition project_answers :: "'c environment \<Rightarrow> dt_client \<Rightarrow> 'c project_view \<Rightarrow> bool" where
  "project_answers E cl V \<longleftrightarrow>
     (\<forall>n c ps p. fst (dt_get_projects_for_name E cl n c) = Inr ps \<longrightarrow> p \<in> set ps \<longrightarrow>
        (\<exists>parent. V c (ProjectUUID p) = Some (n, parent))) \<and>
     (\<forall>u c q. fst (dt_get_project E cl u c) = Inr q \<longrightarrow>
        ProjectUUID q = u \<and> V c u = Some (ProjectName q, ProjectParent q)) \<and>
     (\<forall>p c q c'. dt_create_project E cl p c = (Inr q, c') \<longrightarrow>
        V c' (ProjectUUID q) = Some (ProjectName p, ProjectParent p))"

definition project_store :: "'c environment \<Rightarrow> dt_client \<Rightarrow> 'c project_view \<Rightarrow> bool" where
  "project_store E cl V \<longleftrightarrow> project_frame E cl V \<and> project_answers E cl V"

text \<open>Projects of the given names, from the top: each is stored under the one before.\<close>

fun lineage :: "(string \<Rightarrow> (string \<times> string option) option) \<Rightarrow> string option \<Rightarrow> string list
    \<Rightarrow> string list \<Rightarrow> bool" where
  "lineage stored parent [] [] \<longleftrightarrow> True"
| "lineage stored parent (n # ns) (u # us) \<longleftrightarrow>
     stored u = Some (n, parent) \<and> lineage stored (Some u) ns us"
| "lineage stored parent _ _ \<longleftrightarrow> False"

lemma lineage_Nil: "lineage V parent [] us \<longleftrightarrow> us = []"
  by (cases us) simp_all

lemma lineage_Cons:
  "lineage V parent (n # ns) us \<longleftrightarrow>
     (\<exists>u us'. us = u # us' \<and> V u = Some (n, parent) \<and> lineage V (Some u) ns us')"
  by (cases us) simp_all

lemma lineage_mono: "lineage V parent ns us \<Longrightarrow> V \<subseteq>\<^sub>m V' \<Longrightarrow> lineage V' parent ns us"
  by (induction V parent ns us rule: lineage.induct) (auto simp: map_le_def dom_def)

lemma lineage_length: "lineage V parent ns us \<Longrightarrow> length us = length ns"
  by (induction V parent ns us rule: lineage.induct) simp_all

section \<open>The calls keep what is stored\<close>

abbreviation grows :: "'c project_view \<Rightarrow> ('c, 'a) comp \<Rightarrow> bool" where
  "grows V m \<equiv> (\<forall>v. keeps (\<lambda>c. v \<subseteq>\<^sub>m V c) m)"

lemma growsD:
  assumes "grows V m" and "m w = (r, w')"
  shows "V (outside w) \<subseteq>\<^sub>m V (outside w')"
  using keepsD [OF assms(1) [rule_format, of "V (outside w)"] assms(2)] by simp

lemma keeps_grown_invoke: "(\<And>c. V c \<subseteq>\<^sub>m V (snd (f c))) \<Longrightarrow> keeps (\<lambda>c. v \<subseteq>\<^sub>m V c) (invoke e f)"
  by (rule keeps_invoke) (metis map_le_trans snd_conv)

lemma keeps_grown_consult: "(\<And>c. V c \<subseteq>\<^sub>m V (snd (f c))) \<Longrightarrow> keeps (\<lambda>c. v \<subseteq>\<^sub>m V c) (consult f)"
  by (rule keeps_consult) (metis map_le_trans snd_conv)

lemma store_grows:
  assumes "project_store E cl V"
  shows "keeps (\<lambda>c. v \<subseteq>\<^sub>m V c) (GetProjectsForName E cl n)"
    and "keeps (\<lambda>c. v \<subseteq>\<^sub>m V c) (CreateProject E cl p)"
    and "keeps (\<lambda>c. v \<subseteq>\<^sub>m V c) (GetProject E cl u)"
    and "keeps (\<lambda>c. v \<subseteq>\<^sub>m V c) (Upload E cl rq)"
    and "keeps (\<lambda>c. v \<subseteq>\<^sub>m V c) (IsBeingProcessed E cl t)"
    and "keeps (\<lambda>c. v \<subseteq>\<^sub>m V c) (TicksBeforeTimeout E)"
  using assms
  by (auto simp: project_store_def project_frame_def dt_ops TicksBeforeTimeout_def
      intro!: keeps_grown_invoke keeps_grown_consult)

lemma findChild_grows: "project_store E cl V \<Longrightarrow> grows V (findChild E cl n par ps)"
  by (induction ps) (auto intro!: keeps_rules store_grows)

lemma getOrCreateProject_grows: "project_store E cl V \<Longrightarrow> grows V (getOrCreateProject E cl n par leaf)"
  unfolding getOrCreateProject_def
  by (auto intro!: keeps_rules store_grows findChild_grows [rule_format] split: option.split)

lemma awaitProcessing_grows: "project_store E cl V \<Longrightarrow> grows V (awaitProcessing E cl t n)"
  by (induction n) (auto intro!: keeps_rules store_grows)

section \<open>Finding or creating a project\<close>

lemma findChild_stored:
  assumes "project_store E cl V" and "findChild E cl n par ps w = (Returns (Inr q), w')"
    and "\<forall>p\<in>set ps. \<exists>parent. V (outside w) (ProjectUUID p) = Some (n, parent)"
  shows "V (outside w') (ProjectUUID q) = Some (n, Some par)"
  using assms(2,3)
proof (induction ps arbitrary: w)
  case (Cons p ps)
  from Cons.prems(1) have run: "attempt (GetProject E cl (ProjectUUID p)) (\<lambda>err. ret (Inl err))
      (\<lambda>full. if ProjectParent full = Some par then ret (Inr full) else findChild E cl n par ps) w =
      (Returns (Inr q), w')" by simp
  then show ?case
  proof (cases rule: attempt_cases)
    case (Success full w1)
    have grown: "V (outside w) \<subseteq>\<^sub>m V (outside w1)"
      by (rule growsD, rule allI, rule store_grows(3) [OF assms(1)], rule Success(1))
    show ?thesis
    proof (cases "ProjectParent full = Some par")
      case True
      with Success(2) have [simp]: "q = full" "w' = w1" by (simp_all add: ret_def)
      from Success(1) have "fst (dt_get_project E cl (ProjectUUID p) (outside w)) = Inr full"
        by (auto simp: GetProject_def invoke_def split: prod.splits)
      with assms(1) have full: "ProjectUUID full = ProjectUUID p"
        "V (outside w) (ProjectUUID p) = Some (ProjectName full, ProjectParent full)"
        unfolding project_store_def project_answers_def by blast+
      from Cons.prems(2) full(2) have "ProjectName full = n" by auto
      with full True grown show ?thesis by (auto simp: map_le_def dom_def)
    next
      case False
      with Success(2) have "findChild E cl n par ps w1 = (Returns (Inr q), w')" by simp
      moreover have "\<forall>p\<in>set ps. \<exists>parent. V (outside w1) (ProjectUUID p) = Some (n, parent)"
        using Cons.prems(2) grown by (fastforce simp: map_le_def dom_def)
      ultimately show ?thesis by (rule Cons.IH)
    qed
  qed (simp_all add: ret_def)
qed (simp add: ret_def)

text \<open>
  The project found or created is stored under its name and under the parent; one without a parent
  only if there was none of its name, since the first one found is taken wherever it is.
\<close>

lemma getOrCreateProject_stored:
  assumes "project_store E cl V"
    and "getOrCreateProject E cl n par leaf w = (Returns (Inr q), w')"
  shows "\<exists>parent. V (outside w') (ProjectUUID q) = Some (n, parent) \<and>
    (case par of
       Some p \<Rightarrow> parent = Some p
     | None \<Rightarrow> parent = None \<or> (\<exists>u a. V (outside w) u = Some (n, a)))"
  using assms(2) unfolding getOrCreateProject_def
proof (cases rule: attempt_cases)
  case (Success projects w1)
    have grown: "V (outside w) \<subseteq>\<^sub>m V (outside w1)"
      by (rule growsD, rule allI, rule store_grows(1) [OF assms(1)], rule Success(1))
  from Success(1) have "fst (dt_get_projects_for_name E cl n (outside w)) = Inr projects"
    by (auto simp: GetProjectsForName_def invoke_def split: prod.splits)
  with assms(1) have stored: "\<forall>p\<in>set projects. \<exists>parent. V (outside w) (ProjectUUID p) = Some (n, parent)"
    unfolding project_store_def project_answers_def by blast
  with grown have stored1: "\<forall>p\<in>set projects. \<exists>parent. V (outside w1) (ProjectUUID p) = Some (n, parent)"
    by (fastforce simp: map_le_def dom_def)
  show ?thesis
  proof (cases projects)
    case Nil
    let ?new = "\<lparr>ProjectUUID = '''', ProjectName = n, ProjectActive = True, ProjectParent = par,
      LastBOMImport = 0, CollectionLogic = Some (if \<not> leaf then CollectionLogicAggregateDirectChildren
        else CollectionLogicNone)\<rparr>"
    from Success(2) Nil have "dt_create_project E cl ?new (outside w1) = (Inr q, outside w')"
      by (auto simp: CreateProject_def monad_defs split: prod.splits sum.splits)
    with assms(1) have "V (outside w') (ProjectUUID q) = Some (ProjectName ?new, ProjectParent ?new)"
      unfolding project_store_def project_answers_def by blast
    then show ?thesis by (simp split: option.split)
  next
    case (Cons first rest)
    show ?thesis
    proof (cases par)
      case None
      with Success(2) Cons have "q = first" "w' = w1" by (simp_all add: ret_def)
      with stored stored1 Cons None show ?thesis by auto
    next
      case (Some p)
      with Success(2) Cons have "findChild E cl n p projects w1 = (Returns (Inr q), w')"
        by (simp del: findChild.simps)
      from findChild_stored [OF assms(1) this stored1] Some show ?thesis by simp
    qed
  qed
qed (simp_all add: ret_def)

section \<open>The chain of parents\<close>

lemma createParents_lineage:
  assumes "project_store E cl V" and "createParents E cl ns project w = (Returns (Inr res), w')"
  shows "\<exists>us parent. lineage (V (outside w')) parent ns us \<and>
    (if us = [] then res = project else map_option ProjectUUID res = Some (last us)) \<and>
    (case project of
       Some p \<Rightarrow> ns \<noteq> [] \<longrightarrow> parent = Some (ProjectUUID p)
     | None \<Rightarrow> ns \<noteq> [] \<longrightarrow> parent = None \<or> (\<exists>u a. V (outside w) u = Some (hd ns, a)))"
  using assms(2)
proof (induction ns arbitrary: project w)
  case Nil
  then show ?case
    by (intro exI [of _ "[]"] exI [of _ None]) (simp add: ret_def split: option.split)
next
  case (Cons n ns)
  from Cons.prems have run: "attempt (getOrCreateProject E cl n (map_option ProjectUUID project) False)
      (\<lambda>err. ret (Inl err)) (\<lambda>q. createParents E cl ns (Some q)) w = (Returns (Inr res), w')"
    by simp
  then show ?case
  proof (cases rule: attempt_cases)
    case (Success q w1)
    from getOrCreateProject_stored [OF assms(1) Success(1)] obtain parent where
      q: "V (outside w1) (ProjectUUID q) = Some (n, parent)" and
      parent: "case map_option ProjectUUID project of Some p \<Rightarrow> parent = Some p
        | None \<Rightarrow> parent = None \<or> (\<exists>u a. V (outside w) u = Some (n, a))" by blast
    from Cons.IH [OF Success(2)] obtain us parent' where
      us: "lineage (V (outside w')) parent' ns us"
        "if us = [] then res = Some q else map_option ProjectUUID res = Some (last us)"
        "ns \<noteq> [] \<longrightarrow> parent' = Some (ProjectUUID q)" by auto
    have "grows V (createParents E cl ns (Some q))"
    proof (induction ns arbitrary: q)
      case (Cons n ns)
      then show ?case
        by (auto intro!: keeps_rules getOrCreateProject_grows [OF assms(1), rule_format])
    qed (simp add: keeps_ret)
    from growsD [OF this Success(2)] q have stored: "V (outside w') (ProjectUUID q) = Some (n, parent)"
      by (auto simp: map_le_def dom_def)
    from us(1,3) have "lineage (V (outside w')) (Some (ProjectUUID q)) ns us"
      by (cases ns; cases us) simp_all
    with stored us(2) parent show ?thesis
      by (intro exI [of _ "ProjectUUID q # us"] exI [of _ parent])
        (auto split: option.splits if_splits)
  qed (simp_all add: ret_def)
qed

end
