(* ===== verification/Reference_Cluster.thy ===== *)
theory Reference_Cluster
  imports Lifecycle Namespace_Lifecycle Project_Tree
begin

text \<open>
  Concrete parameters, on which the hypotheses of the development are shown to hold: a cluster that
  keeps its objects in lists, a token library that signs by writing the key into the token, and a
  JSON library for a few bodies. They stand for the outside only in the examples that follow a
  property; no property is about them.
\<close>

section \<open>A cluster\<close>

record cluster =
  StoredConfigMaps :: "ConfigMap list"
  StoredNamespaces :: "NamespaceObject list"
  StoredSecrets :: "Secret list"
  StoredPods :: "Pod list"
  StoredDeployments :: "Deployment list"
  StoredProjects :: "dt_project list"
  Clock :: int

definition empty_cluster :: cluster where
  "empty_cluster =
     \<lparr>StoredConfigMaps = [], StoredNamespaces = [], StoredSecrets = [], StoredPods = [],
      StoredDeployments = [], StoredProjects = [], Clock = 1700000000000000000\<rparr>"

definition fetch :: "'a ObjectMeta_scheme list \<Rightarrow> NamespacedName \<Rightarrow> go_error + 'a ObjectMeta_scheme" where
  "fetch objs k =
     (case find (\<lambda>obj. key obj = k) objs of
        None \<Rightarrow> Inl (NotFound ''not found'')
      | Some obj \<Rightarrow> Inr obj)"

definition replace_in :: "'a ObjectMeta_scheme \<Rightarrow> 'a ObjectMeta_scheme list \<Rightarrow> 'a ObjectMeta_scheme list" where
  "replace_in obj objs = map (\<lambda>x. if key x = key obj then obj else x) objs"

definition remove_from :: "NamespacedName \<Rightarrow> 'a ObjectMeta_scheme list \<Rightarrow> 'a ObjectMeta_scheme list" where
  "remove_from k objs = filter (\<lambda>x. key x \<noteq> k) objs"

text \<open>The first object of every key.\<close>

fun firsts :: "'a ObjectMeta_scheme list \<Rightarrow> 'a ObjectMeta_scheme list" where
  "firsts [] = []"
| "firsts (x # xs) = x # filter (\<lambda>y. key y \<noteq> key x) (firsts xs)"

definition has_labels :: "(string, string) fmap \<Rightarrow> 'a ObjectMeta_scheme \<Rightarrow> bool" where
  "has_labels ls obj \<longleftrightarrow>
     (\<forall>k\<in>fset (fmdom ls). mlookup (Labels obj) k = fmlookup ls k)"

text \<open>The projects of a Dependency Track server, by UUID; a new one gets its name in its UUID.\<close>

definition stored_project :: "cluster \<Rightarrow> string \<Rightarrow> dt_project option" where
  "stored_project c u = find (\<lambda>p. ProjectUUID p = u) (StoredProjects c)"

definition create_project :: "dt_project \<Rightarrow> cluster \<Rightarrow> (go_error + dt_project) \<times> cluster" where
  "create_project p c =
     (let q = p\<lparr>ProjectUUID := ''id-of-'' @ ProjectName p\<rparr> in
      case stored_project c (ProjectUUID q) of
        Some _ \<Rightarrow> (Inl (Error ''already exists''), c)
      | None \<Rightarrow> (Inr q, c\<lparr>StoredProjects := StoredProjects c @ [q]\<rparr>))"

definition reference :: "cluster environment" where
  "reference =
     \<lparr>get_pod = (\<lambda>k c. (fetch (StoredPods c) k, c)),
      get_configmap = (\<lambda>k c. (fetch (StoredConfigMaps c) k, c)),
      get_namespace = (\<lambda>n c. (fetch (StoredNamespaces c) (NamespacedName '''' n), c)),
      get_secret = (\<lambda>k c. (fetch (StoredSecrets c) k, c)),
      list_deployments = (\<lambda>n c. (Inr (filter (\<lambda>d. Namespace d = n) (StoredDeployments c)), c)),
      list_pods = (\<lambda>n ls c.
        (Inr (filter (\<lambda>p. Namespace p = n \<and> has_labels ls p) (StoredPods c)), c)),
      list_configmaps = (\<lambda>l n c.
        (Inr (take n (filter (\<lambda>cm. mlookup (Labels cm) l \<noteq> None) (firsts (StoredConfigMaps c)))), c)),
      list_secrets = (\<lambda>l n c.
        (Inr (filter (\<lambda>s. Namespace s = n \<and> mlookup (Labels s) l \<noteq> None) (firsts (StoredSecrets c))), c)),
      create_pod = (\<lambda>p c. (Inr (), c\<lparr>StoredPods := StoredPods c @ [p]\<rparr>)),
      create_secret = (\<lambda>s c.
        (case fetch (StoredSecrets c) (key s) of
           Inr _ \<Rightarrow> (Inl (Error ''already exists''), c)
         | Inl err \<Rightarrow> (Inr (), c\<lparr>StoredSecrets := StoredSecrets c @ [s]\<rparr>))),
      update_pod = (\<lambda>p c. (Inr (), c\<lparr>StoredPods := replace_in p (StoredPods c)\<rparr>)),
      update_configmap = (\<lambda>cm c.
        (case fetch (StoredConfigMaps c) (key cm) of
           Inl err \<Rightarrow> (Inl err, c)
         | Inr _ \<Rightarrow> (Inr (), c\<lparr>StoredConfigMaps := replace_in cm (StoredConfigMaps c)\<rparr>))),
      delete_pod = (\<lambda>k c. (Inr (), c\<lparr>StoredPods := remove_from k (StoredPods c)\<rparr>)),
      delete_secret = (\<lambda>k c. (Inr (), c\<lparr>StoredSecrets := remove_from k (StoredSecrets c)\<rparr>)),
      delete_configmap = (\<lambda>k c.
        (Inr (), c\<lparr>StoredConfigMaps := remove_from k (StoredConfigMaps c)\<rparr>)),
      mq_new = (\<lambda>c. (Inr (), c)),
      mq_sync_producer = (\<lambda>n c. (Inr (), c)),
      mq_produce = (\<lambda>b c. (Inr (), c)),
      mq_close = (\<lambda>c. ((), c)),
      dt_new_client = (\<lambda>e k. None),
      dt_get_projects_for_name = (\<lambda>cl n c.
        (Inr (filter (\<lambda>p. ProjectName p = n \<and> stored_project c (ProjectUUID p) = Some p) (StoredProjects c)), c)),
      dt_create_project = (\<lambda>cl. create_project),
      dt_get_project = (\<lambda>cl u c.
        (case stored_project c u of None \<Rightarrow> Inl (NotFound ''no project'') | Some p \<Rightarrow> Inr p, c)),
      dt_upload = (\<lambda>cl b c. (Inr ''upload'', c)),
      dt_is_being_processed = (\<lambda>cl t c. (Inr False, c)),
      now_nanos = (\<lambda>c. (Clock c, c)),
      ticks_before_timeout = (\<lambda>c. (30, c))\<rparr>"

lemma reference_ops [simp]:
  "get_pod reference k c = (fetch (StoredPods c) k, c)"
  "get_configmap reference k c = (fetch (StoredConfigMaps c) k, c)"
  "get_namespace reference n c = (fetch (StoredNamespaces c) (NamespacedName '''' n), c)"
  "get_secret reference k c = (fetch (StoredSecrets c) k, c)"
  "list_deployments reference n c = (Inr (filter (\<lambda>d. Namespace d = n) (StoredDeployments c)), c)"
  "list_pods reference n ls c = (Inr (filter (\<lambda>p. Namespace p = n \<and> has_labels ls p) (StoredPods c)), c)"
  "list_configmaps reference l m c = (Inr (take m (filter (\<lambda>cm. mlookup (Labels cm) l \<noteq> None) (firsts (StoredConfigMaps c)))), c)"
  "list_secrets reference l n c = (Inr (filter (\<lambda>s. Namespace s = n \<and> mlookup (Labels s) l \<noteq> None) (firsts (StoredSecrets c))), c)"
  "create_pod reference p c = (Inr (), c\<lparr>StoredPods := StoredPods c @ [p]\<rparr>)"
  "create_secret reference s c = (case fetch (StoredSecrets c) (key s) of Inr _ \<Rightarrow> (Inl (Error ''already exists''), c) | Inl err \<Rightarrow> (Inr (), c\<lparr>StoredSecrets := StoredSecrets c @ [s]\<rparr>))"
  "update_pod reference p c = (Inr (), c\<lparr>StoredPods := replace_in p (StoredPods c)\<rparr>)"
  "update_configmap reference cm c = (case fetch (StoredConfigMaps c) (key cm) of Inl err \<Rightarrow> (Inl err, c) | Inr _ \<Rightarrow> (Inr (), c\<lparr>StoredConfigMaps := replace_in cm (StoredConfigMaps c)\<rparr>))"
  "delete_pod reference k c = (Inr (), c\<lparr>StoredPods := remove_from k (StoredPods c)\<rparr>)"
  "delete_secret reference k c = (Inr (), c\<lparr>StoredSecrets := remove_from k (StoredSecrets c)\<rparr>)"
  "delete_configmap reference k c = (Inr (), c\<lparr>StoredConfigMaps := remove_from k (StoredConfigMaps c)\<rparr>)"
  "mq_new reference c = (Inr (), c)"
  "mq_sync_producer reference n c = (Inr (), c)"
  "mq_produce reference b c = (Inr (), c)"
  "mq_close reference c = ((), c)"
  "dt_new_client reference e ak = None"
  "dt_get_projects_for_name reference cl n c = (Inr (filter (\<lambda>p. ProjectName p = n \<and> stored_project c (ProjectUUID p) = Some p) (StoredProjects c)), c)"
  "dt_create_project reference cl = create_project"
  "dt_get_project reference cl u c = (case stored_project c u of None \<Rightarrow> Inl (NotFound ''no project'') | Some p \<Rightarrow> Inr p, c)"
  "dt_upload reference cl bom c = (Inr ''upload'', c)"
  "dt_is_being_processed reference cl t c = (Inr False, c)"
  "now_nanos reference c = (Clock c, c)"
  "ticks_before_timeout reference c = (30, c)"
  by (simp_all add: reference_def)

definition cm_view :: "cluster view" where
  "cm_view c k = find (\<lambda>cm. key cm = k) (StoredConfigMaps c)"

lemma firsts_set: "set (firsts xs) \<subseteq> set xs"
  by (induction xs) auto

lemma firsts_find: "x \<in> set (firsts xs) \<Longrightarrow> find (\<lambda>y. key y = key x) xs = Some x"
  by (induction xs) auto

lemma firsts_distinct: "distinct (map key (firsts xs))"
  by (induction xs) (auto intro: distinct_filter simp: distinct_map inj_on_def)

lemma find_key: "find (\<lambda>y. key y = k) xs = Some x \<Longrightarrow> key x = k"
  by (induction xs) (auto split: if_splits)

lemma find_replace_in:
  "find (\<lambda>y. key y = key x) xs \<noteq> None \<Longrightarrow>
     find (\<lambda>y. key y = k) (replace_in x xs) =
       (if k = key x then Some x else find (\<lambda>y. key y = k) xs)"
proof (induction xs)
  case (Cons y ys)
  have other: "k \<noteq> key x \<Longrightarrow> find (\<lambda>y. key y = k) (replace_in x zs) = find (\<lambda>y. key y = k) zs" for zs
    by (induction zs) (auto simp: replace_in_def)
  from Cons other [of "y # ys"] show ?case
    by (cases "k = key x") (auto simp: replace_in_def split: if_splits)
qed simp

lemma find_remove_from:
  "find (\<lambda>y. key y = k') (remove_from k xs) = (if k' = k then None else find (\<lambda>y. key y = k') xs)"
  by (induction xs) (auto simp: remove_from_def)

lemma reference_store: "cm_store reference cm_view"
proof -
  have list: "length cms \<le> n \<and> distinct (map key cms) \<and>
      (\<forall>cm\<in>set cms. cm_view c (key cm) = Some cm \<and> mlookup (Labels cm) l \<noteq> None)"
    if "fst (list_configmaps reference l n c) = Inr cms" for c l n cms
  proof -
    from that have
      cms: "cms = take n (filter (\<lambda>cm. mlookup (Labels cm) l \<noteq> None) (firsts (StoredConfigMaps c)))"
      by simp
    have "distinct (map key cms)"
      unfolding cms by (simp add: firsts_distinct distinct_map_filter flip: take_map)
    moreover have "cm_view c (key cm) = Some cm" "mlookup (Labels cm) l \<noteq> None"
      if "cm \<in> set cms" for cm
      using that unfolding cms by (auto dest!: in_set_takeD simp: cm_view_def firsts_find)
    moreover have "length cms \<le> n" by (simp add: cms)
    ultimately show ?thesis by blast
  qed
  have get: "cm_view c k = Some cm" if "fst (get_configmap reference k c) = Inr cm" for c k cm
    using that by (simp add: cm_view_def fetch_def split: option.splits)
  have "cm_reads reference cm_view"
    unfolding cm_reads_def
  proof (intro conjI allI impI)
    show "unaffected cm_view (get_configmap reference k)" for k by (simp add: unaffected_def)
    show "unaffected cm_view (list_configmaps reference l n)" for l n by (simp add: unaffected_def)
    show "key cm = k" if "cm_view c k = Some cm" for c k cm
      using that unfolding cm_view_def by (rule find_key)
    show "length cms \<le> n" "distinct (map key cms)"
      "\<forall>cm\<in>set cms. cm_view c (key cm) = Some cm \<and> mlookup (Labels cm) l \<noteq> None"
      if "fst (list_configmaps reference l n c) = Inr cms" for c l n cms
      using list [OF that] by blast+
  qed (rule get)
  moreover have "cm_writes reference cm_view"
    unfolding cm_writes_def
  proof (intro conjI allI impI)
    fix c cm c'
    assume upd: "update_configmap reference cm c = (Inr (), c')"
    then have found: "find (\<lambda>y. key y = key cm) (StoredConfigMaps c) \<noteq> None"
      and c': "c' = c\<lparr>StoredConfigMaps := replace_in cm (StoredConfigMaps c)\<rparr>"
      by (auto simp: fetch_def split: option.splits)
    from found show "cm_view c (key cm) \<noteq> None" by (simp add: cm_view_def)
    show "cm_view c' = (cm_view c)(key cm \<mapsto> cm)"
    proof
      show "cm_view c' k = ((cm_view c)(key cm \<mapsto> cm)) k" for k
        by (simp add: c' cm_view_def find_replace_in [OF found])
    qed
  next
    fix c cm err c'
    assume "update_configmap reference cm c = (Inl err, c')"
    then show "cm_view c' = cm_view c" by (auto split: sum.splits)
  next
    fix c k c'
    assume "delete_configmap reference k c = (Inr (), c')"
    then have c': "c' = c\<lparr>StoredConfigMaps := remove_from k (StoredConfigMaps c)\<rparr>" by simp
    show "cm_view c' = (cm_view c)(k := None)"
    proof
      show "cm_view c' k' = ((cm_view c)(k := None)) k'" for k'
        by (simp add: c' cm_view_def find_remove_from)
    qed
  qed simp
  moreover have "cm_frame reference cm_view"
    by (auto simp: cm_frame_def unaffected_def cm_view_def create_project_def fun_eq_iff Let_def
        split: option.split)
  ultimately show ?thesis by (simp add: cm_store_def)
qed

definition secrets_view :: "cluster secret_view" where
  "secrets_view c k = find (\<lambda>v. key v = k) (StoredSecrets c)"

lemma firsts_iff: "x \<in> set (firsts xs) \<longleftrightarrow> find (\<lambda>y. key y = key x) xs = Some x"
  by (induction xs) auto

lemma find_append: "find P (xs @ ys) = (case find P xs of None \<Rightarrow> find P ys | Some x \<Rightarrow> Some x)"
  by (induction xs) simp_all

lemma reference_secrets: "secret_store reference secrets_view"
  unfolding secret_store_def
proof (intro conjI allI impI)
  show "key v = k" if "secrets_view c k = Some v" for c k v
    using that unfolding secrets_view_def by (rule find_key)
  show "set vs = {v. secrets_view c (key v) = Some v \<and> Namespace v = n \<and> mlookup (Labels v) l \<noteq> None}"
    if "list_secrets reference l n c = (Inr vs, c')" for l n c vs c'
    using that by (auto simp: secrets_view_def firsts_iff)
  show "secrets_view c' = (secrets_view c)(key s \<mapsto> s)"
    if "create_secret reference s c = (Inr u, c')" for s c u c'
  proof
    from that have none: "find (\<lambda>v. key v = key s) (StoredSecrets c) = None"
      and c': "c' = c\<lparr>StoredSecrets := StoredSecrets c @ [s]\<rparr>"
      by (auto simp: fetch_def split: option.splits)
    show "secrets_view c' k = ((secrets_view c)(key s \<mapsto> s)) k" for k
      using none by (auto simp: c' secrets_view_def find_append split: option.split)
  qed
  show "secrets_view c' = (secrets_view c)(k := None)"
    if "delete_secret reference k c = (Inr u, c')" for k c u c'
    using that by (auto simp: secrets_view_def find_remove_from fun_eq_iff)
qed (auto split: sum.splits)

definition projects_view :: "cluster project_view" where
  "projects_view c u = map_option (\<lambda>p. (ProjectName p, ProjectParent p)) (stored_project c u)"

lemma project_uuid: "stored_project c u = Some p \<Longrightarrow> ProjectUUID p = u"
  unfolding stored_project_def by (induction "StoredProjects c") (auto simp: find_Some_iff)

lemma create_project_stores:
  assumes "create_project p c = (r, c')"
  shows "projects_view c \<subseteq>\<^sub>m projects_view c'"
    and "r = Inr q \<Longrightarrow> projects_view c' (ProjectUUID q) = Some (ProjectName p, ProjectParent p)"
  using assms
  by (auto simp: create_project_def Let_def stored_project_def projects_view_def map_le_def find_append
      split: option.splits)

lemma reference_projects: "project_store reference cl projects_view"
proof -
  have "projects_view c \<subseteq>\<^sub>m projects_view (snd (create_project p c))" for p c
    using create_project_stores(1) [OF surjective_pairing] .
  then have "project_frame reference cl projects_view"
    by (simp add: project_frame_def map_le_refl)
  moreover have "projects_view c' (ProjectUUID q) = Some (ProjectName p, ProjectParent p)"
    if "create_project p c = (Inr q, c')" for p c q c'
    using create_project_stores(2) [OF that refl] .
  then have "project_answers reference cl projects_view"
    unfolding project_answers_def
    by (auto simp: projects_view_def project_uuid split: option.splits)
  ultimately show ?thesis by (simp add: project_store_def)
qed

section \<open>Tokens\<close>

definition escape :: "string \<Rightarrow> string" where
  "escape s = concat (map (\<lambda>c. [CHR ''a'', c]) s) @ ''b''"

fun unescape :: "string \<Rightarrow> (string \<times> string) option" where
  "unescape [] = None"
| "unescape [c] = (if c = CHR ''b'' then Some ([], []) else None)"
| "unescape (c # d # cs) =
     (if c = CHR ''b'' then Some ([], d # cs)
      else if c = CHR ''a'' then map_option (\<lambda>(f, r). (d # f, r)) (unescape cs)
      else None)"

lemma unescape_escape: "unescape (escape s @ r) = Some (s, r)"
proof (induction s)
  case Nil
  then show ?case by (cases r) (simp_all add: escape_def)
next
  case (Cons c s)
  then show ?case by (simp add: escape_def)
qed

fun unescapes :: "nat \<Rightarrow> string \<Rightarrow> string list option" where
  "unescapes 0 s = (if s = [] then Some [] else None)"
| "unescapes (Suc n) s =
     (case unescape s of None \<Rightarrow> None | Some (f, r) \<Rightarrow> map_option ((#) f) (unescapes n r))"

lemma unescapes_escapes: "unescapes (length fs) (concat (map escape fs)) = Some fs"
  by (induction fs) (simp_all add: unescape_escape)

definition reference_token :: "NamespaceDetails \<Rightarrow> bytes \<Rightarrow> string" where
  "reference_token d k =
     concat (map escape
       [TokenNamespace d, TokenEnvironmentId d, TokenProjectName d, TokenEnvironmentName d, k])"

definition reference_parse :: "string \<Rightarrow> keyfunc \<Rightarrow> jwt_token option \<times> go_error option" where
  "reference_parse tok kf =
     (case unescapes 5 tok of
        Some [ns, i, pr, en, k] \<Rightarrow>
          let claims = namespace_claims
                \<lparr>TokenNamespace = ns, TokenEnvironmentId = i, TokenProjectName = pr,
                 TokenEnvironmentName = en\<rparr>
          in
            (case kf (signed_token claims False) of
               Inl err \<Rightarrow> (Some (signed_token claims False), Some err)
             | Inr k' \<Rightarrow>
                 if k' = k then (Some (signed_token claims True), None)
                 else (Some (signed_token claims False), Some (Error ''signature is invalid'')))
      | _ \<Rightarrow> (None, Some (Error ''token is malformed'')))"

definition reference_jwt :: jwt_lib where
  "reference_jwt =
     \<lparr>jwt_signed_string = (\<lambda>m claims k.
        if m = SigningMethodHMAC ''HS256'' then (reference_token (fst (extractDetails claims)) k, None)
        else ('''', Some (Error ''key is of invalid type''))),
      jwt_parse = reference_parse\<rparr>"

lemma reference_parse_token:
  "reference_parse (reference_token d k) kf =
     (case kf (signed_token (namespace_claims d) False) of
        Inl err \<Rightarrow> (Some (signed_token (namespace_claims d) False), Some err)
      | Inr k' \<Rightarrow>
          if k' = k then (Some (signed_token (namespace_claims d) True), None)
          else (Some (signed_token (namespace_claims d) False), Some (Error ''signature is invalid'')))"
proof -
  have "unescapes 5 (reference_token d k) = Some
      [TokenNamespace d, TokenEnvironmentId d, TokenProjectName d, TokenEnvironmentName d, k]"
    unfolding reference_token_def
    using unescapes_escapes [of "[TokenNamespace d, TokenEnvironmentId d, TokenProjectName d,
        TokenEnvironmentName d, k]"]
    by (simp add: eval_nat_numeral)
  then show ?thesis by (cases d) (simp add: reference_parse_def Let_def split: sum.split)
qed

lemma reference_round_trip: "jwt_round_trip reference_jwt"
  by (simp add: jwt_round_trip_def reference_jwt_def reference_parse_token)

lemma reference_checks: "jwt_checks reference_jwt"
  unfolding jwt_checks_def
  by (auto simp: reference_jwt_def reference_parse_def Let_def signed_token_def
      split: option.splits list.splits sum.splits if_splits)

section \<open>JSON\<close>

definition reference_fact :: Fact where
  "reference_fact =
     \<lparr>FactEnvironmentId = ''666'', FactProjectName = ''other'', FactEnvironmentName = ''other'',
      FactName = ''php'', FactValue = ''8.2'', FactSource = '''', FactDescription = '''',
      FactType = '''', FactCategory = '''', FactService = ''cli''\<rparr>"

text \<open>The body \<open>[]\<close> is an empty list, \<open>[php]\<close> a list with one fact, and nothing else parses.\<close>

definition reference_json :: json_lib where
  "reference_json =
     \<lparr>json_marshal = (\<lambda>doc. case doc of
        DocInsights m \<Rightarrow> Inr (''insights of '' @ MsgNamespace m)
      | DocFacts m \<Rightarrow> Inr (''facts of '' @ FactsProjectName m @ '' '' @ FactsEnvironmentName m)
      | DocProblems m \<Rightarrow> Inr (''problems of '' @ ProblemsProjectName m)
      | DocDelete m \<Rightarrow> Inr (''deletion of '' @ DeleteSource m)),
      json_problem_list = (\<lambda>b. if b = ''[]'' then Inr (Some []) else Inl (Error ''invalid'')),
      json_fact_list = (\<lambda>b. if b = ''[]'' then Inr (Some [])
        else if b = ''[php]'' then Inr (Some [reference_fact]) else Inl (Error ''invalid'')),
      json_facts_into = (\<lambda>b m. Inl (Error ''invalid''))\<rparr>"

definition reference_deptrack :: deptrack_lib where
  "reference_deptrack =
     \<lparr>template_parse = (\<lambda>t. Inr (\<lambda>v. Inr (TvProjectName v @ ''-'' @ t))),
      gzip_open = (\<lambda>b. Inr (Inr b)),
      map_first = (\<lambda>m. hd (map (\<lambda>k. the (fmlookup m k)) (sorted_list_of_fset (fmdom m))))\<rparr>"

end
