(* ===== verification/Insights_Properties.thy ===== *)
theory Insights_Properties
  imports Reference_Cluster
begin

text \<open>
  The properties of the path an insights ConfigMap takes: reconciliation by the processors the
  program is configured with, the record of the outcome, the two periodic jobs, and the invariants
  of the whole life cycle. A property that has hypotheses is followed by an instance of it on the
  reference cluster.
\<close>

section \<open>An example\<close>

text \<open>An SBOM of a service, posted by a build, in a namespace of a production environment.\<close>

definition ex_configmap :: ConfigMap where
  "ex_configmap =
     \<lparr>Name = ''sbom'', Namespace = ''shop-main'',
      Labels = gomap_of
        [(''lagoon.sh/insightsType'', ''sbom-gz''), (''lagoon.sh/service'', ''cli''),
         (''lagoon.sh/environmentType'', ''production'')],
      Annotations = gomap_of [(''core.insights.lagoon.sh/enabled'', ''true'')],
      Data = None, BinaryData = gomap_of [(''cli.cyclonedx.json.gz'', ''{}'')]\<rparr>"

definition ex_key :: NamespacedName where
  "ex_key = NamespacedName ''shop-main'' ''sbom''"

definition ex_namespace :: NamespaceObject where
  "ex_namespace =
     \<lparr>Name = ''shop-main'', Namespace = '''',
      Labels = gomap_of
        [(''lagoon.sh/environment'', ''main''), (''lagoon.sh/project'', ''shop''),
         (''lagoon.sh/environmentId'', ''42'')],
      Annotations = None, NamespacePhase = ''Active''\<rparr>"

definition ex_cluster :: "ConfigMap list \<Rightarrow> cluster" where
  "ex_cluster cms =
     empty_cluster\<lparr>StoredConfigMaps := cms, StoredNamespaces := [ex_namespace]\<rparr>"

abbreviation ex_reconciler :: "cluster ConfigMapReconciler" where
  "ex_reconciler \<equiv>
     configMapReconciler reference reference_deptrack (json_marshal reference_json) default_settings"

lemma key_ex_configmap [simp]: "key ex_configmap = ex_key"
  by (simp add: key_def ex_configmap_def ex_key_def)

lemma ex_retries [simp]: "CmReconcilerMaxRetries default_settings = 3"
  by (simp add: default_settings_def)

lemma ex_max [simp]: "MaxNumberOfRetries ex_reconciler = 3"
  by (simp add: configMapReconciler_def default_settings_def)

lemma ex_processors [simp]:
  "processors (postProcessors reference reference_deptrack (json_marshal reference_json)
     default_settings) = [core_processor reference (json_marshal reference_json)]"
  by (simp add: postProcessors_def default_settings_def NewCorePostProcessor_mq
      NewDefaultPostProcessor_def NewCustomPostProcessor_def)

lemma reconciler_processors [simp]:
  "PostProcessors (configMapReconciler E D marshal s) = postProcessors E D marshal s"
  by (simp add: configMapReconciler_def)

lemma processed_is_not_retries [simp]:
  "InsightsUpdatedAnnotationLabel \<noteq> postProcRetriesAnnotationKey"
  by (simp add: InsightsUpdatedAnnotationLabel_def postProcRetriesAnnotationKey_def)

section \<open>Reconciliation\<close>

text \<open>
  C1: Whatever the outside answers and however the run ends, a reconciliation of the program
  writes at most one object: the ConfigMap it read, of an accepted type, with the record of one
  outcome for every processor that had not succeeded before.
\<close>

theorem reconcile_writes_one_record:
  "\<exists>ws. filter kube_write (calls (snd (reconcileConfigMap E (configMapReconciler E D marshal s) req w))) =
      filter kube_write (calls w) @ ws \<and>
    (ws = [] \<or>
     (\<exists>cm rs now. fst (get_configmap E req (outside w)) = Inr cm \<and>
        insightsTypeOf (Labels cm) \<in> {InsightsTypeSBOM, InsightsTypeInspect} \<and>
        map fst rs = map ProcessorLabel (pending (Annotations cm) (postProcessors E D marshal s)) \<and>
        ws = [KUpdateConfigMap (recorded (configMapReconciler E D marshal s) cm rs now)]))"
  by (rule program.reconcile_writes
      [OF reconciler_processors surjective_pairing, unfolded accepted_type_def])

text \<open>
  C2: The accumulating loop over the processors and the bookkeeping after it implement the
  specification: run the pending processors in order, read the clock once, and write the recorded
  ConfigMap.
\<close>

theorem processing_refines_specification:
  "processConfigMap E R cm (newInsightsMessage cm ns t) =
     bind (runAll (pending (Annotations cm) (PostProcessors R)) (newInsightsMessage cm ns t)) (\<lambda>rs.
     bind (TimeNow E) (\<lambda>now.
     UpdateConfigMap E (recorded R cm rs now)))"
  by (rule processConfigMap_eq) simp

text \<open>
  C3: The record of a run: with a failure the write is deferred by the configured minutes, one more
  retry is counted and past the maximum the ConfigMap is labelled; without one it is marked as
  processed at the time of the run and the count stays. Other labels, and the payload, never change.
\<close>

theorem recorded_outcome:
  "mlookup (Labels (recorded R cm rs now)) k =
     (if failures rs \<noteq> [] \<and> k = InsightsWriteDeferred
      then Some (deferredStamp (MinutesBetweenRetries R) now)
      else if failures rs \<noteq> [] \<and> k = maxRetryExceededLabelKey \<and>
        int64_of (initialRetries (Annotations cm) + 1) > MaxNumberOfRetries R
      then Some ''MAX_RETRY_EXCEEDED''
      else mlookup (Labels cm) k) \<and>
   initialRetries (Annotations (recorded R cm rs now)) =
     (if failures rs = [] then initialRetries (Annotations cm)
      else int64_of (initialRetries (Annotations cm) + 1)) \<and>
   mlookup (Annotations (recorded R cm rs now)) InsightsUpdatedAnnotationLabel =
     (if failures rs = [] then Some (rfc3339_utc (now div 1000000000))
      else
        (case fmlookup (outcomeAnnotations rs fmempty) InsightsUpdatedAnnotationLabel of
           None \<Rightarrow> mlookup (Annotations cm) InsightsUpdatedAnnotationLabel
         | Some v \<Rightarrow> Some v)) \<and>
   Data (recorded R cm rs now) = Data cm \<and> BinaryData (recorded R cm rs now) = BinaryData cm"
  by (simp add: mlookup_recorded_label initialRetries_recorded retriesAfter_def
      mlookup_recorded_annotation)

text \<open>
  C4: After a run with one outcome for every pending processor of the program, each processor's
  annotation tells its status: success if it succeeded now or before, failure otherwise, and the
  error annotation of a failed one tells why.
\<close>

theorem recorded_statuses:
  assumes "map fst rs = map ProcessorLabel (pending (Annotations cm) (postProcessors E D marshal s))"
    and "p \<in> set (processors (postProcessors E D marshal s))"
  shows "mlookup (Annotations (recorded R cm rs now)) (ProcessorLabel p) =
    (if succeeded (Annotations cm) (ProcessorLabel p) then Some successfulPostProcessRun
     else map_option status (map_of rs (ProcessorLabel p)))"
  by (rule program.recorded_status [OF assms])

theorem recorded_statuses_witness:
  "mlookup (Annotations (recorded ex_reconciler ex_configmap
      [(coreLabel, Inl (Error ''no broker''))] 0)) coreLabel = Some failedPostProcessRun"
proof -
  have pend: "pending (Annotations ex_configmap)
      (postProcessors reference reference_deptrack (json_marshal reference_json) default_settings) =
      [core_processor reference (json_marshal reference_json)]"
    by (simp add: pending_def succeeded_def ex_configmap_def coreLabel_def)
  have "mlookup (Annotations (recorded ex_reconciler ex_configmap
      [(coreLabel, Inl (Error ''no broker''))] 0))
      (ProcessorLabel (core_processor reference (json_marshal reference_json))) =
    (if succeeded (Annotations ex_configmap)
        (ProcessorLabel (core_processor reference (json_marshal reference_json)))
     then Some successfulPostProcessRun
     else map_option status (map_of [(coreLabel, Inl (Error ''no broker''))]
       (ProcessorLabel (core_processor reference (json_marshal reference_json)))))"
    by (rule recorded_statuses [where E = reference and D = reference_deptrack and
          marshal = "json_marshal reference_json" and s = default_settings]) (simp_all add: pend)
  then show ?thesis by (simp add: succeeded_def ex_configmap_def coreLabel_def)
qed

text \<open>
  An object of any other type than SBOM or inspect is rejected with an error: no processor
  runs, nothing is written, and the two reads are the only calls.
\<close>

lemma unrecognised_type_rejected:
  assumes "get_configmap E req (outside w) = (Inr cm, c1)"
    and "get_namespace E (KeyNamespace req) c1 = (Inr ns, c2)"
    and "insightsTypeOf (Labels cm) \<notin> {InsightsTypeSBOM, InsightsTypeInspect}"
  shows "reconcileConfigMap E R req w =
    (Returns (Inl (Error (''insightsType '' @ [CHR 0x27] @ insightsTypeOf (Labels cm) @ [CHR 0x27] @
        '' unrecognized - rejecting configMap''))),
     w\<lparr>outside := c2,
        calls := calls w @ [KGetConfigMap req, KGetNamespace (KeyNamespace req)]\<rparr>)"
  using assms by (simp add: reconcileConfigMap_def GetConfigMap_def GetNamespace_def monad_defs)

text \<open>
  C5: A record never passes the event filters: the update a reconciliation makes does not by itself
  start another one.
\<close>

theorem record_not_eligible:
  assumes "map fst rs = map ProcessorLabel (pending (Annotations cm) (postProcessors E D marshal s))"
  shows "\<not> admitted configMapFilters (UpdateEvent cm (recorded R cm rs now))"
proof (cases "failures rs = []")
  case True
  with program.recorded_processed [OF assms, of R now] show ?thesis
    by (simp add: admitted_update_iff eligible_iff)
next
  case False
  then have "labelExists InsightsWriteDeferred (recorded R cm rs now)"
    by (intro labelExists_key) (simp add: mlookup_recorded_label)
  then show ?thesis by (simp add: admitted_update_iff eligible_iff)
qed

theorem record_not_eligible_witness:
  "\<not> admitted configMapFilters (UpdateEvent ex_configmap
      (recorded ex_reconciler ex_configmap [(coreLabel, Inr ())] 1700000000000000000))"
  by (rule record_not_eligible [where E = reference and D = reference_deptrack and
        marshal = "json_marshal reference_json" and s = default_settings])
    (simp add: pending_def succeeded_def ex_configmap_def coreLabel_def)

text \<open>
  C6: Deletions never start a reconciliation. A creation or an update does exactly if the object
  carries the insights label (as a key or a value), is neither deferred nor past the maximal number
  of retries, and is not marked as processed.
\<close>

theorem configmap_events:
  "(admitted configMapFilters ev \<longleftrightarrow>
     (case ev of
        CreateEvent obj \<Rightarrow> eligible obj
      | UpdateEvent old new \<Rightarrow> eligible new
      | DeleteEvent obj \<Rightarrow> False
      | GenericEvent obj \<Rightarrow> True)) \<and>
   (eligible obj \<longleftrightarrow>
     labelExists InsightsLabel obj \<and> \<not> labelExists InsightsWriteDeferred obj \<and>
     \<not> labelExists maxRetryExceededLabelKey obj \<and>
     mlookup (Annotations obj) InsightsUpdatedAnnotationLabel = None)"
proof -
  have "\<not> admitted configMapFilters (DeleteEvent obj)" for obj :: "'a ObjectMeta_scheme"
    by (rule insight_labels.delete_not_admitted) (simp add: configMapFilters_def)
  then show ?thesis
    by (cases ev)
      (auto simp: eligible_iff admitted_update_iff insightsProcessedAnnotationExists_def
        eligible_def [symmetric] admitted_def configMapFilters_def insightLabelsOnlyPredicate_def
        insightMaxRetryPredicate_def)
qed

section \<open>The life of a ConfigMap\<close>

lemma ex_view: "cm_view (ex_cluster cms) k = find (\<lambda>cm. key cm = k) cms"
  by (simp add: cm_view_def ex_cluster_def)

definition ex_record :: ConfigMap where
  "ex_record = recorded ex_reconciler ex_configmap [(coreLabel, Inr ())] 1700000000000000000"

lemma key_ex_record [simp]: "key ex_record = ex_key"
  by (simp add: ex_record_def)

lemma ex_pending:
  "pending (Annotations ex_configmap)
     (postProcessors reference reference_deptrack (json_marshal reference_json) default_settings) =
   [core_processor reference (json_marshal reference_json)]"
  by (simp add: pending_def succeeded_def ex_configmap_def coreLabel_def)

lemma ex_run_core:
  "runAll [core_processor reference (json_marshal reference_json)] 
     (newInsightsMessage ex_configmap ns t) w =
   (Returns [(coreLabel, Inr ())],
    w\<lparr>calls := calls w @ [MqNew, MqSyncProducer ''lagoon-insights'',
      MqProduce (''insights of shop-main''), MqClose]\<rparr>)"
  by (simp add: core_processor_def corePostProcess_def newInsightsMessage_def ex_configmap_def
      mget_def reference_json_def mqWriteObject_def closing_def mq_ops monad_defs)

lemma ex_reconcile:
  "\<exists>cs. reconcileConfigMap reference ex_reconciler ex_key (start_world (ex_cluster [ex_configmap])) =
     (Returns (Inr ()), \<lparr>outside = ex_cluster [ex_record], calls = cs\<rparr>)"
proof -
  let ?c = "ex_cluster [ex_configmap]"
  let ?cs = "[KGetConfigMap ex_key, KGetNamespace (KeyNamespace ex_key)]"
  have type: "insightsTypeOf (Labels ex_configmap) = ''sbom''"
    by (simp add: insightsTypeOf_def ex_configmap_def InsightsTypeSBOM_def)
  have cm: "fetch (StoredConfigMaps ?c) ex_key = Inr ex_configmap"
    by (simp add: fetch_def ex_cluster_def)
  have ns: "fetch (StoredNamespaces ?c) (NamespacedName '''' (KeyNamespace ex_key)) = Inr ex_namespace"
    by (simp add: fetch_def ex_cluster_def key_def ex_namespace_def ex_key_def)
  have clock: "Clock ?c = 1700000000000000000"
    by (simp add: ex_cluster_def empty_cluster_def)
  have upd: "?c\<lparr>StoredConfigMaps := replace_in ex_record (StoredConfigMaps ?c)\<rparr> = ex_cluster [ex_record]"
    by (simp add: ex_cluster_def replace_in_def)
  have "reconcileConfigMap reference ex_reconciler ex_key (start_world ?c) =
      processConfigMap reference ex_reconciler ex_configmap
        (newInsightsMessage ex_configmap ex_namespace ''sbom'') \<lparr>outside = ?c, calls = ?cs\<rparr>"
    by (simp add: reconcileConfigMap_def GetConfigMap_def GetNamespace_def monad_defs cm ns type
        start_world_def InsightsTypeSBOM_def)
  also have "\<exists>cs. \<dots> = (Returns (Inr ()), \<lparr>outside = ex_cluster [ex_record], calls = cs\<rparr>)"
    unfolding processConfigMap_eq [OF newInsightsMessage_annotations(1)] reconciler_processors ex_pending
    by (simp add: bind_def ex_run_core TimeNow_def UpdateConfigMap_def consult_def invoke_def clock
        ex_record_def [symmetric] cm upd del: runAll.simps)
  finally show ?thesis .
qed

lemma ex_eligible: "eligible ex_configmap"
  by (simp add: eligible_iff labelExists_def ex_configmap_def gomap_of_def fmlookup_of_list
      InsightsLabel_def InsightsWriteDeferred_def maxRetryExceededLabelKey_def
      insightsProcessedAnnotationExists_def InsightsUpdatedAnnotationLabel_def)

lemma ex_fresh: "fresh ex_configmap"
  by (simp add: fresh_def ex_configmap_def postProcRetriesAnnotationKey_def
      InsightsUpdatedAnnotationLabel_def maxRetryExceededLabelKey_def)

text \<open>The example is posted, queued, processed and burned.\<close>

lemma ex_posted: "reachable reference cm_view ex_reconciler (ex_cluster [ex_configmap], {})"
proof (rule reachable.step [OF reachable.start])
  show "cm_view (ex_cluster []) = Map.empty" by (rule ext) (simp add: ex_view)
  show "cluster_step reference cm_view ex_reconciler (ex_cluster [], {}) (ex_cluster [ex_configmap], {})"
  proof (rule cluster_step.Posted [OF _ _ key_ex_configmap ex_fresh])
    show "cm_view (ex_cluster []) ex_key = None" by (simp add: ex_view)
    show "cm_view (ex_cluster [ex_configmap]) = (cm_view (ex_cluster []))(ex_key \<mapsto> ex_configmap)"
      by (rule ext) (simp add: ex_view)
  qed
qed

lemma ex_observed_step:
  "cluster_step reference cm_view ex_reconciler (ex_cluster [ex_configmap], {})
     (ex_cluster [ex_configmap], {ex_key})"
  by (rule cluster_step.Observed [OF _ ex_eligible]) (simp add: ex_view)

lemma ex_reconciled_step:
  "cluster_step reference cm_view ex_reconciler (ex_cluster [ex_configmap], {ex_key})
     (ex_cluster [ex_record], {})"
proof -
  from ex_reconcile obtain cs where
    "reconcileConfigMap reference ex_reconciler ex_key (start_world (ex_cluster [ex_configmap])) =
      (Returns (Inr ()), \<lparr>outside = ex_cluster [ex_record], calls = cs\<rparr>)" ..
  from cluster_step.Reconciled [of ex_key "{ex_key}", OF _ this, of cm_view] show ?thesis by simp
qed

lemma ex_processed: "reachable reference cm_view ex_reconciler (ex_cluster [ex_record], {})"
  by (rule reachable.step [OF reachable.step [OF ex_posted ex_observed_step] ex_reconciled_step])

lemma ex_record_processed: "isProcessed ex_record"
  by (simp add: isProcessed_def ex_record_def mlookup_recorded_annotation)

lemma ex_burned_step:
  "cluster_step reference cm_view ex_reconciler (ex_cluster [ex_record], {}) (ex_cluster [], {})"
proof -
  have "mlookup (Labels ex_record) InsightsLabel \<noteq> None"
    by (simp add: ex_record_def mlookup_recorded_label ex_configmap_def InsightsLabel_def)
  then have "\<exists>cs. burnAfterReadingJob reference (start_world (ex_cluster [ex_record])) =
      (Returns (), \<lparr>outside = ex_cluster [], calls = cs\<rparr>)"
    by (simp add: burnAfterReadingJob_def ListConfigMaps_def DeleteConfigMap_def monad_defs
        ex_record_processed configMapListLimit_def ex_cluster_def remove_from_def start_world_def)
  then obtain cs where "burnAfterReadingJob reference (start_world (ex_cluster [ex_record])) =
      (Returns (), \<lparr>outside = ex_cluster [], calls = cs\<rparr>)" ..
  from cluster_step.Burned [OF this] show ?thesis by simp
qed

text \<open>
  C7: In every reachable state of a cluster that stores ConfigMaps as documented, every stored one
  has at most one retry more than the maximum, carries the max-retry label if it has more than the
  maximum, and if it is marked as processed, every processor of the program has succeeded on it.
  One that is queued is neither.
\<close>

theorem lifecycle_invariant:
  assumes "cm_store E view"
    and "0 \<le> CmReconcilerMaxRetries s" and "CmReconcilerMaxRetries s < 2 ^ 63 - 1"
    and "reachable E view (configMapReconciler E D marshal s) (c, Q)" and "view c k = Some cm"
  shows "initialRetries (Annotations cm) \<le> CmReconcilerMaxRetries s + 1 \<and>
    (CmReconcilerMaxRetries s < initialRetries (Annotations cm) \<longrightarrow>
       mlookup (Labels cm) maxRetryExceededLabelKey \<noteq> None) \<and>
    (isProcessed cm \<longrightarrow>
       (\<forall>p\<in>set (processors (postProcessors E D marshal s)).
          succeeded (Annotations cm) (ProcessorLabel p))) \<and>
    (k \<in> Q \<longrightarrow> \<not> isProcessed cm \<and> mlookup (Labels cm) maxRetryExceededLabelKey = None)"
proof -
  let ?R = "configMapReconciler E D marshal s"
  have max: "MaxNumberOfRetries ?R = CmReconcilerMaxRetries s"
    by (simp add: configMapReconciler_def)
  with assms(2,3) have "0 \<le> MaxNumberOfRetries ?R" "MaxNumberOfRetries ?R < 2 ^ 63 - 1" by simp_all
  from program.reachable_inv [OF assms(1) reconciler_processors this assms(4)] assms(5)
  show ?thesis by (simp add: state_inv_def cm_inv_def unsettled_def max)
qed

theorem lifecycle_invariant_witness:
  "succeeded (Annotations ex_record) coreLabel"
  using lifecycle_invariant [OF reference_store, of default_settings reference_deptrack
      "json_marshal reference_json" "ex_cluster [ex_record]" "{}" ex_key ex_record]
    ex_processed ex_record_processed
  by (simp add: ex_view)

text \<open>
  C8: No step of the cluster takes a success back: a processor that has succeeded on a ConfigMap
  is annotated so as long as the ConfigMap is stored, so it is not pending again.
\<close>

theorem success_is_kept:
  assumes "cm_store E view"
    and "cluster_step E view (configMapReconciler E D marshal s) (c, Q) (c', Q')"
    and "view c k = Some cm" and "view c' k = Some cm'"
    and "p \<in> set (processors (postProcessors E D marshal s))"
    and "succeeded (Annotations cm) (ProcessorLabel p)"
  shows "p \<notin> set (pending (Annotations cm') (postProcessors E D marshal s))"
  using program.step_success_kept [OF assms(1) reconciler_processors assms(2-6)]
  by (simp add: pending_def)

theorem success_is_kept_witness:
  "core_processor reference (json_marshal reference_json) \<notin> set (pending (Annotations ex_record)
      (postProcessors reference reference_deptrack (json_marshal reference_json) default_settings))"
proof (rule success_is_kept [OF reference_store])
  show "cluster_step reference cm_view
      (configMapReconciler reference reference_deptrack (json_marshal reference_json) default_settings)
      (ex_cluster [ex_record], {}) (ex_cluster [ex_record], {})"
  proof -
    have "\<exists>cs. deferredClearJob reference (start_world (ex_cluster [ex_record])) =
        (Returns (), \<lparr>outside = ex_cluster [ex_record], calls = cs\<rparr>)"
      by (simp add: deferredClearJob_def ListConfigMaps_def monad_defs ex_cluster_def start_world_def
          ex_record_def mlookup_recorded_label ex_configmap_def InsightsWriteDeferred_def)
    then obtain cs where "deferredClearJob reference (start_world (ex_cluster [ex_record])) =
        (Returns (), \<lparr>outside = ex_cluster [ex_record], calls = cs\<rparr>)" ..
    from cluster_step.Cleared [OF this] show ?thesis by simp
  qed
  show "succeeded (Annotations ex_record)
      (ProcessorLabel (core_processor reference (json_marshal reference_json)))"
    by (simp add: succeeded_def ex_record_def mlookup_recorded_annotation coreLabel_def
        postProcRetriesAnnotationKey_def InsightsUpdatedAnnotationLabel_def)
qed (simp_all add: ex_view)

text \<open>
  C9: No insights are lost: a ConfigMap only disappears from the cluster by a step that finds it
  marked as processed, and then every processor of the program has succeeded on it.
\<close>

theorem deleted_only_after_success:
  assumes "cm_store E view"
    and "0 \<le> CmReconcilerMaxRetries s" and "CmReconcilerMaxRetries s < 2 ^ 63 - 1"
    and "reachable E view (configMapReconciler E D marshal s) (c, Q)"
    and "cluster_step E view (configMapReconciler E D marshal s) (c, Q) (c', Q')"
    and "view c k = Some cm" and "view c' k = None"
  shows "isProcessed cm \<and>
    (\<forall>p\<in>set (processors (postProcessors E D marshal s)). succeeded (Annotations cm) (ProcessorLabel p))"
proof -
  let ?R = "configMapReconciler E D marshal s"
  have "MaxNumberOfRetries ?R = CmReconcilerMaxRetries s" by (simp add: configMapReconciler_def)
  with assms(2,3) have "0 \<le> MaxNumberOfRetries ?R" "MaxNumberOfRetries ?R < 2 ^ 63 - 1" by simp_all
  from program.step_deletes_processed [OF assms(1) reconciler_processors this assms(4-7)]
  show ?thesis .
qed

theorem deleted_only_after_success_witness:
  "isProcessed ex_record \<and> succeeded (Annotations ex_record) coreLabel"
  using deleted_only_after_success [OF reference_store _ _ ex_processed ex_burned_step, of ex_key ex_record]
  by (simp add: ex_view)

text \<open>
  C10: The retries end: along any run of the cluster, however the steps interleave and whatever
  fails, a ConfigMap is processed and recorded at most once more than the configured maximum of
  retries, as long as it stays stored. After that it is settled: processed, or past the maximum.
\<close>

theorem attempts_are_bounded:
  assumes "cm_store E view"
    and "0 \<le> CmReconcilerMaxRetries s" and "CmReconcilerMaxRetries s < 2 ^ 63 - 1"
    and "reachable E view (configMapReconciler E D marshal s) s0"
    and "cluster_path E view (configMapReconciler E D marshal s) (s0 # ss)"
    and "list_all (\<lambda>st. view (fst st) k \<noteq> None) (s0 # ss)"
  shows "records view k (s0 # ss) \<le> nat (CmReconcilerMaxRetries s) + 1"
proof -
  let ?R = "configMapReconciler E D marshal s"
  have max: "MaxNumberOfRetries ?R = CmReconcilerMaxRetries s" by (simp add: configMapReconciler_def)
  with assms(2,3) have bounds: "0 \<le> MaxNumberOfRetries ?R" "MaxNumberOfRetries ?R < 2 ^ 63 - 1"
    by simp_all
  from program.reachable_inv [OF assms(1) reconciler_processors bounds assms(4)]
  have inv: "state_inv view ?R s0" .
  from assms(6) obtain cm where cm: "view (fst s0) k = Some cm" by auto
  with inv have "cm_inv ?R cm" by (simp add: state_inv_def)
  from program.path_records [OF assms(1) reconciler_processors bounds assms(5) inv assms(6) cm]
    program.records_left_bound [OF this] max
  show ?thesis by simp
qed

text \<open>The instance is posted, queued and processed: one record, of four that are possible.\<close>

theorem attempts_are_bounded_witness:
  "records cm_view ex_key
     [(ex_cluster [ex_configmap], {}), (ex_cluster [ex_configmap], {ex_key}), (ex_cluster [ex_record], {})]
     \<le> 4"
  using attempts_are_bounded [OF reference_store _ _ ex_posted, of
      "[(ex_cluster [ex_configmap], {ex_key}), (ex_cluster [ex_record], {})]" ex_key]
    ex_observed_step ex_reconciled_step
  by (simp add: ex_view)

section \<open>The periodic jobs\<close>

text \<open>
  C11: Burn-after-reading lists at most the configured number of ConfigMaps with the insights
  label and deletes exactly the processed ones among them, in order, whatever each deletion answers;
  it has no other effect and never fails.
\<close>

theorem burn_deletes_exactly_processed:
  "fst (burnAfterReadingJob E w) = Returns () \<and>
   calls (snd (burnAfterReadingJob E w)) =
     calls w @ KListConfigMaps InsightsLabel 5 #
     (case fst (list_configmaps E InsightsLabel 5 (outside w)) of
        Inl err \<Rightarrow> []
      | Inr items \<Rightarrow> map (\<lambda>x. KDeleteConfigMap (key x)) (filter isProcessed items))"
  using burnAfterReadingJob_log [OF surjective_pairing] by (simp add: configMapListLimit_def)

text \<open>
  C12: Clearing deferrals only removes the deferral label, only of stored ConfigMaps that carry it,
  and makes at most six calls in a run.
\<close>

theorem clear_touches_only_deferred:
  assumes "cm_reads E view" and "deferredClearJob E w = (r, w')"
  shows "\<exists>xs. calls w' = calls w @ KListConfigMaps InsightsWriteDeferred 5 #
        map (\<lambda>x. KUpdateConfigMap (withoutDeferral x)) xs \<and> length xs \<le> 5 \<and>
      (\<forall>x\<in>set xs. view (outside w) (key x) = Some x \<and> isDeferred x)"
proof -
  from clear.sweep_acts_on_stored [OF assms] obtain xs where
    xs: "calls w' = calls w @ KListConfigMaps InsightsWriteDeferred configMapListLimit #
      map (\<lambda>x. KUpdateConfigMap (withoutDeferral x)) xs"
    "\<forall>x\<in>set xs. view (outside w) (key x) = Some x \<and>
      mlookup (Labels x) InsightsWriteDeferred \<noteq> None \<and> isDeferred x" .
  moreover from clear.sweep_bound [OF assms] xs(1) have "length xs \<le> 5" by simp
  ultimately show ?thesis by (auto simp: configMapListLimit_def)
qed

definition ex_deferred :: ConfigMap where
  "ex_deferred = ex_configmap\<lparr>Labels := gomap_of [(InsightsWriteDeferred, ''1600000000'')]\<rparr>"

theorem clear_touches_only_deferred_witness:
  "\<exists>xs. calls (snd (deferredClearJob reference (start_world (ex_cluster [ex_deferred])))) =
      KListConfigMaps InsightsWriteDeferred 5 # map (\<lambda>x. KUpdateConfigMap (withoutDeferral x)) xs \<and>
      length xs \<le> 5 \<and>
      (\<forall>x\<in>set xs. cm_view (ex_cluster [ex_deferred]) (key x) = Some x \<and> isDeferred x)"
  using clear_touches_only_deferred [OF _ surjective_pairing, of reference cm_view
      "start_world (ex_cluster [ex_deferred])"] reference_store
  by (simp add: cm_store_def)

text \<open>
  C13: The deferral stamp the reconciler writes is the one the clearing job reads back, as long as
  it fits a signed 32-bit number of seconds. From 2038 on every stamp reads as the largest such
  number, which is past, so a deferral is released at once.
\<close>

theorem deferral_stamp_round_trip:
  "(fits 32 n \<longrightarrow> writeDeferredValTS (FormatInt n) = n) \<and>
   (2 ^ 31 \<le> n \<longrightarrow> writeDeferredValTS (FormatInt n) = 2 ^ 31 - 1)"
  by (simp add: stamp_read_back stamp_clamped)

theorem deferral_stamp_round_trip_witness:
  "writeDeferredValTS (FormatInt 1700000000) = 1700000000 \<and>
   writeDeferredValTS (FormatInt 2500000000) = 2147483647"
  using deferral_stamp_round_trip [of 1700000000] deferral_stamp_round_trip [of 2500000000]
  by (simp add: fits_def)

end
