(* ===== verification/Deptrack_Properties.thy ===== *)
theory Deptrack_Properties
  imports Insights_Properties
begin

text \<open>
  The properties of the processors: what is forwarded to Lagoon core, and what is sent to
  Dependency Track, where, and for how long the program waits for it.
\<close>

section \<open>Lagoon core\<close>

text \<open>
  C14: The core processor hands the broker exactly the encoded message, at most once, and never
  reports success for an enabled message that was not handed over. For a message that does not ask
  for it, it succeeds without any call. What asks for it is the annotation
  \<open>core.insights.lagoon.sh/enabled\<close>; a label of that name, where the README lists it, does not.
\<close>

theorem core_forwards_message:
  "\<exists>es. calls (snd (PostProcess (core_processor E marshal) msg w)) = calls w @ es \<and>
    (if mget (MsgAnnotations msg) ''core.insights.lagoon.sh/enabled'' = ''true''
     then
       (case marshal (DocInsights msg) of
          Inl err \<Rightarrow> es = [] \<and> (\<exists>e. fst (PostProcess (core_processor E marshal) msg w) = Returns (Inl e))
        | Inr b \<Rightarrow>
            produced es = [b] \<or>
            produced es = [] \<and> (\<exists>e. fst (PostProcess (core_processor E marshal) msg w) = Returns (Inl e)))
     else es = [] \<and> fst (PostProcess (core_processor E marshal) msg w) = Returns (Inr ()))"
proof (cases "mget (MsgAnnotations msg) ''core.insights.lagoon.sh/enabled'' = ''true''")
  case False
  then show ?thesis by (simp add: core_processor_def corePostProcess_def ret_def)
next
  case enabled: True
  show ?thesis
  proof (cases "marshal (DocInsights msg)")
    case (Inl err)
    with enabled show ?thesis by (simp add: core_processor_def corePostProcess_def ret_def)
  next
    case (Inr b)
    obtain q w1 where mq: "mqWriteObject E b w = (q, w1)" by fastforce
    have run: "PostProcess (core_processor E marshal) msg w = (case q of
        Returns (Inl err) \<Rightarrow>
          (Returns (Inl (wrap_error ''unable to write to message broker: '' err)), w1)
      | Returns (Inr u) \<Rightarrow> (Returns (Inr ()), w1)
      | Panics p \<Rightarrow> (Panics p, w1))"
      using enabled Inr mq
      by (auto simp: core_processor_def corePostProcess_def monad_defs split: exec.split sum.split)
    from mq show ?thesis
    proof (cases rule: mqWriteObject_log)
      case (Closed err)
      with run enabled Inr show ?thesis by (intro exI [of _ "[MqNew]"]) simp
    next
      case (NoProducer err)
      with run enabled Inr show ?thesis
        by (intro exI [of _ "[MqNew, MqSyncProducer ''lagoon-insights'', MqClose]"]) simp
    next
      case (Written res)
      with run enabled Inr show ?thesis
        by (intro exI [of _ "[MqNew, MqSyncProducer ''lagoon-insights'', MqProduce b, MqClose]"])
          (cases res; simp)
    qed
  qed
qed

section \<open>Dependency Track\<close>

text \<open>The request of an upload, from the message and the UUID of the project it goes under.\<close>

definition bomRequest ::
  "LagoonInsightsMessage \<Rightarrow> writeInfo \<Rightarrow> string \<Rightarrow> bytes \<Rightarrow> dt_bom_request" where
  "bomRequest msg info parent payload =
     \<lparr>BomProjectName = WriteProjectName info, BomParentUUID = Some parent,
      BomAutoCreate = True, BomProjectVersion = ProjectVersion info, BomBOM = base64 payload,
      BomProjectTags = environmentTypeTags msg\<rparr>"

definition uploads :: "effect list \<Rightarrow> dt_bom_request list" where
  "uploads es = concat (map (\<lambda>e. case e of DtUpload c rq \<Rightarrow> [rq] | _ \<Rightarrow> []) es)"

lemma uploads_append [simp]: "uploads (es @ fs) = uploads es @ uploads fs"
  by (simp add: uploads_def)

lemma uploads_Nil [simp]: "uploads [] = []"
  by (simp add: uploads_def)

lemma no_uploads:
  assumes "emits (\<lambda>e. \<not> (\<exists>c rq. e = DtUpload c rq)) m" and "m w = (r, w')"
  shows "uploads (calls w') = uploads (calls w)"
proof -
  from emitsE [OF assms] obtain es
    where "calls w' = calls w @ es" "list_all (\<lambda>e. \<not> (\<exists>c rq. e = DtUpload c rq)) es" .
  moreover from this(2) have "uploads es = []"
    by (induction es) (auto simp: uploads_def split: effect.splits)
  ultimately show ?thesis by simp
qed

lemma createParents_emits_no_upload:
  "emits (\<lambda>e. \<not> (\<exists>c rq. e = DtUpload c rq)) (createParents E cl ns project)"
  by (induction ns arbitrary: project) (auto intro!: emits_rules getOrCreateProject_emits)

lemma awaitProcessing_no_upload:
  "awaitProcessing E cl t n w = (r, w') \<Longrightarrow> uploads (calls w') = uploads (calls w)"
  by (rule no_uploads [OF awaitProcessing_emits]) simp_all

lemma upload_tail:
  assumes "bind (TicksBeforeTimeout E) (awaitProcessing E cl tok) w = (r, w')"
  shows "uploads (calls w') = uploads (calls w)"
proof -
  obtain n c where "ticks_before_timeout E (outside w) = (n, c)" by fastforce
  with assms have "awaitProcessing E cl tok n (w\<lparr>outside := c\<rparr>) = (r, w')"
    by (simp add: TicksBeforeTimeout_def monad_defs)
  from awaitProcessing_no_upload [OF this] show ?thesis by simp
qed

text \<open>
  C15: On a server that stores projects as documented, a run for Dependency Track uploads at most
  once: the payload of the message under the name and version of the templates, below a chain of
  stored projects that have the names of the parent templates, in their order, each stored under the
  one before. The top of the chain has no parent, unless there was already a project of its name,
  which is then taken wherever it is.
\<close>

theorem upload_below_stored_parents:
  assumes "project_store E client V" and "postProcess E D msg only templates client w = (r, w')"
  shows "uploads (calls w') = uploads (calls w) \<or>
    (\<exists>info payload us top. getWriteInfo D msg templates = Inr info \<and>
       unzipByteStream D (firstPayload D msg) = Inr payload \<and>
       us \<noteq> [] \<and> lineage (V (outside w')) top (ParentProjectNames info) us \<and>
       (top = None \<or> (\<exists>u a. V (outside w) u = Some (hd (ParentProjectNames info), a))) \<and>
       uploads (calls w') = uploads (calls w) @ [bomRequest msg info (last us) payload])"
proof (cases "getWriteInfo D msg templates")
  case (Inl err)
  with assms(2) show ?thesis by (simp add: postProcess_def ret_def)
next
  case info: (Inr info)
  show ?thesis
  proof (cases "only \<and> mget (MsgLabels msg) ''lagoon.sh/environmentType'' \<noteq> lagoonShEnvironmentTypeProd")
    case True
    with assms(2) info show ?thesis by (simp add: postProcess_def ret_def)
  next
    case False
    obtain pr w1 where parents: "createParents E client (ParentProjectNames info) None w = (pr, w1)"
      by fastforce
    have w1: "uploads (calls w1) = uploads (calls w)"
      by (rule no_uploads [OF createParents_emits_no_upload parents])
    have quiet: ?thesis if "w' = w1" using that w1 by simp
    show ?thesis
    proof (cases "\<exists>p. pr = Returns (Inr (Some p))")
      case False': False
      with assms(2) info False parents show ?thesis
        by (intro quiet)
          (auto simp: postProcess_def monad_defs split: exec.splits sum.splits option.splits)
    next
      case True
      then obtain p where p: "pr = Returns (Inr (Some p))" by blast
      from createParents_lineage [OF assms(1) parents [unfolded p]] obtain us top where
        us: "lineage (V (outside w1)) top (ParentProjectNames info) us" "us \<noteq> []"
          "ProjectUUID p = last us" and
        top: "ParentProjectNames info \<noteq> [] \<longrightarrow>
          top = None \<or> (\<exists>u a. V (outside w) u = Some (hd (ParentProjectNames info), a))"
        by (auto split: if_splits)
      from lineage_length [OF us(1)] us(2) have "ParentProjectNames info \<noteq> []" by auto
      with top have top: "top = None \<or> (\<exists>u a. V (outside w) u = Some (hd (ParentProjectNames info), a))"
        by blast
      show ?thesis
      proof (cases "unzipByteStream D (firstPayload D msg)")
        case (Inl err)
        with assms(2) info False parents p show ?thesis
          by (intro quiet) (auto simp: postProcess_def monad_defs)
      next
        case payload: (Inr payload)
        let ?rq = "bomRequest msg info (last us) payload"
        from assms(2) info False parents p payload us(3)
        have "attempt (Upload E client ?rq) (\<lambda>err. ret (Inl err))
            (\<lambda>tok. bind (TicksBeforeTimeout E) (awaitProcessing E client tok)) w1 = (r, w')"
          by (simp add: postProcess_def bomRequest_def attempt_def bind_def ret_def)
        then obtain u w2 where up: "Upload E client ?rq w1 = (u, w2)"
          and tail: "uploads (calls w') = uploads (calls w2) \<and> V (outside w2) \<subseteq>\<^sub>m V (outside w')"
        proof (cases rule: attempt_cases)
          case (Success tok w2)
          have "grows V (bind (TicksBeforeTimeout E) (awaitProcessing E client tok))"
            by (auto intro!: keeps_rules store_grows [OF assms(1)]
                awaitProcessing_grows [OF assms(1), rule_format])
          from growsD [OF this Success(2)] upload_tail [OF Success(2)] Success(1) that show thesis by blast
        qed (auto simp: ret_def map_le_refl intro: that)
        from up have w2: "uploads (calls w2) = uploads (calls w) @ [?rq]"
          using w1 by (auto simp: uploads_def Upload_def invoke_def split: prod.splits)
        note tail
        moreover have "V (outside w1) \<subseteq>\<^sub>m V (outside w2)"
          by (rule growsD, rule allI, rule store_grows(4) [OF assms(1)], rule up)
        ultimately have "lineage (V (outside w')) top (ParentProjectNames info) us"
          and "uploads (calls w') = uploads (calls w) @ [?rq]"
          using us(1) w2 by (auto intro: lineage_mono map_le_trans)
        with info payload us(2) top show ?thesis by blast
      qed
    qed
  qed
qed

definition ex_message :: LagoonInsightsMessage where
  "ex_message = newInsightsMessage ex_configmap ex_namespace ''sbom''"

definition ex_templates :: Templates where
  "ex_templates = newTemplate ''root'' ''env'' ''service'' ''v1''"

lemma ex_info:
  "getWriteInfo reference_deptrack ex_message ex_templates =
     Inr \<lparr>ParentProjectNames = [''shop-root'', ''shop-env''], WriteProjectName = ''shop-service'',
          ProjectVersion = ''shop-v1''\<rparr>"
  by (simp add: getWriteInfo_def templateValuesOf_def processTemplate_def reference_deptrack_def
      ex_message_def ex_templates_def newTemplate_def newInsightsMessage_def ex_configmap_def
      ex_namespace_def mget_def)

lemma ex_unzip: "unzipByteStream reference_deptrack b = Inr b"
  by (simp add: unzipByteStream_def reference_deptrack_def)

lemma ex_production: "mget (MsgLabels ex_message) ''lagoon.sh/environmentType'' = ''production''"
  by (simp add: ex_message_def newInsightsMessage_def ex_configmap_def mget_def)

definition ex_client :: dt_client where
  "ex_client = \<lparr>ApiEndpoint = ''http://dt'', ApiKey = ''key''\<rparr>"

abbreviation ex_upload :: "(go_error + unit) exec \<times> (cluster, effect) world" where
  "ex_upload \<equiv> postProcess reference reference_deptrack ex_message True ex_templates ex_client
     (start_world (ex_cluster []))"

lemma ex_uploads: "uploads (calls (snd ex_upload)) \<noteq> []"
  by (simp add: postProcess_def ex_info ex_unzip ex_production lagoonShEnvironmentTypeProd_def
      getOrCreateProject_def dt_ops TicksBeforeTimeout_def monad_defs numeral_eq_Suc uploads_def
      start_world_def create_project_def stored_project_def ex_cluster_def empty_cluster_def Let_def)

theorem upload_below_stored_parents_witness:
  "\<exists>root env payload. projects_view (outside (snd ex_upload)) root = Some (''shop-root'', None) \<and>
     projects_view (outside (snd ex_upload)) env = Some (''shop-env'', Some root) \<and>
     (\<exists>info. uploads (calls (snd ex_upload)) = [bomRequest ex_message info env payload])"
proof -
  have none: "projects_view (outside (start_world (ex_cluster []))) u = None" for u
    by (simp add: projects_view_def stored_project_def ex_cluster_def empty_cluster_def)
  from upload_below_stored_parents [OF reference_projects surjective_pairing,
      of reference_deptrack ex_message True ex_templates ex_client "start_world (ex_cluster [])"] ex_uploads
  have "\<exists>info payload us top. getWriteInfo reference_deptrack ex_message ex_templates = Inr info \<and>
      lineage (projects_view (outside (snd ex_upload))) top (ParentProjectNames info) us \<and>
      (top = None \<or> (\<exists>u a. projects_view (outside (start_world (ex_cluster []))) u =
        Some (hd (ParentProjectNames info), a))) \<and>
      uploads (calls (snd ex_upload)) = [bomRequest ex_message info (last us) payload]"
    unfolding start_world_simps uploads_Nil append_Nil by blast
  then obtain info payload us top where info: "getWriteInfo reference_deptrack ex_message ex_templates = Inr info"
    and us: "lineage (projects_view (outside (snd ex_upload))) top (ParentProjectNames info) us"
    and top: "top = None \<or> (\<exists>u a. projects_view (outside (start_world (ex_cluster []))) u =
      Some (hd (ParentProjectNames info), a))"
    and ups: "uploads (calls (snd ex_upload)) = [bomRequest ex_message info (last us) payload]" by blast
  from info us obtain root env where "us = [root, env]"
    by (auto simp: ex_info lineage_Cons lineage_Nil)
  with us top ups info none show ?thesis
    by (intro exI [of _ root] exI [of _ env] exI [of _ payload]) (auto simp: ex_info)
qed

text \<open>
  C16: With the push-production-only setting, a message of any other type of environment makes no
  call to the central Dependency Track at all, and counts as a success or as a message that could
  not be named.
\<close>

theorem non_production_stays_local:
  assumes "DefaultPushProdOnly d"
    and "mget (MsgLabels msg) ''lagoon.sh/environmentType'' \<noteq> ''production''"
  shows "calls (snd (PostProcess (default_processor E D d) msg w)) = calls w"
proof (cases "getWriteInfo D msg (DefaultTemplates d)")
  case (Inl err)
  then show ?thesis
    by (auto simp: default_processor_def defaultPostProcess_def postProcess_def DtClient_def
        monad_defs split: sum.splits option.splits)
next
  case (Inr info)
  with assms show ?thesis
    by (auto simp: default_processor_def defaultPostProcess_def postProcess_def DtClient_def
        lagoonShEnvironmentTypeProd_def monad_defs split: sum.splits option.splits)
qed

theorem non_production_stays_local_witness:
  "calls (snd (PostProcess (default_processor reference reference_deptrack
      \<lparr>DefaultApiEndpoint = ''http://dt'', DefaultApiKey = ''key'', DefaultTemplates = ex_templates,
       DefaultPushProdOnly = True\<rparr>)
      (ex_message\<lparr>MsgLabels := gomap_of [(''lagoon.sh/environmentType'', ''development'')]\<rparr>)
      (start_world (ex_cluster [])))) = []"
  using non_production_stays_local [of "\<lparr>DefaultApiEndpoint = ''http://dt'', DefaultApiKey = ''key'',
      DefaultTemplates = ex_templates, DefaultPushProdOnly = True\<rparr>"
      "ex_message\<lparr>MsgLabels := gomap_of [(''lagoon.sh/environmentType'', ''development'')]\<rparr>"
      reference reference_deptrack "start_world (ex_cluster [])"]
  by (simp add: mget_def)

text \<open>
  C17: The goroutine and the caller that waits for it, run as two threads over a ticker, a timeout
  and two unbuffered channels, have exactly the outcomes and effects of the function that the rest
  of the model uses, for some number of ticks: poll until an answer is an error, which is returned,
  or says that the upload has been processed, which is a success, or until the timeout is taken. In
  particular the caller never receives from a channel that the goroutine has only closed.
\<close>

theorem polling_threads_outcome:
  "(\<exists>s. poll_steps E client tok (poll_start w) s \<and> received s = Some res \<and> pollWorld s = w') \<longleftrightarrow>
   (\<exists>n. awaitProcessing E client tok n w = (Returns res, w'))"
  using poll_run_outcome poll_run_exists by metis

text \<open>
  C18: At any moment of waiting for an upload there has been at most one poll for each second that
  has passed. If the caller has returned, then every poll but the last said that the upload is still
  being processed, and either so did the last, 300 seconds have passed and the error is the timeout,
  or the answer of the last poll is what is returned. If it has not, the two threads can still end,
  at once or when the 300 seconds are over.
\<close>

theorem polling_is_bounded:
  assumes "poll_steps E client tok (poll_start w) s"
  shows "\<exists>n. pollWorld s = polled E client tok n w \<and>
    n * tickerHeartbeatDuration \<le> elapsed s \<and>
    (case received s of
       Some res \<Rightarrow>
         timed_out (fst (polls E client tok n (outside w))) (elapsed s) res \<or>
         answered (fst (polls E client tok n (outside w))) res
     | None \<Rightarrow>
         (\<exists>s'. poll_steps E client tok s s' \<and> received s' \<noteq> None \<and>
            elapsed s' \<le> max (elapsed s) tickerTimeout))"
proof -
  from poll_inv_steps [OF assms] obtain n where inv: "poll_inv E client tok w n s" by blast
  then have "n \<le> elapsed s div tickerHeartbeatDuration" by (simp add: poll_inv_def Let_def)
  then have "n * tickerHeartbeatDuration \<le> elapsed s"
    by (meson div_times_less_eq_dividend le_trans mult_le_mono1)
  moreover have "case received s of
       Some res \<Rightarrow>
         timed_out (fst (polls E client tok n (outside w))) (elapsed s) res \<or>
         answered (fst (polls E client tok n (outside w))) res
     | None \<Rightarrow>
         (\<exists>s'. poll_steps E client tok s s' \<and> received s' \<noteq> None \<and>
            elapsed s' \<le> max (elapsed s) tickerTimeout)"
  proof (cases "received s")
    case None
    with poll_can_end [OF inv] show ?thesis by simp
  next
    case (Some res)
    with inv show ?thesis by (auto simp: poll_inv_def Let_def)
  qed
  ultimately show ?thesis using inv by (auto simp: poll_inv_def Let_def)
qed

lemma polls_reference:
  "fst (polls reference cl t n c) = replicate n (Inr False) \<and> snd (polls reference cl t n c) = c"
  by (induction n) (auto split: prod.splits simp: replicate_append_same)

lemma not_answered_error: "\<not> answered (replicate n (Inr False)) (Inl err)"
proof
  assume "answered (replicate n (Inr False)) (Inl err)"
  then obtain rs r where rs: "replicate n (Inr False) = rs @ [r]"
    and r: "case r of Inl e \<Rightarrow> Inl err = (Inl e :: go_error + unit)
      | Inr processing \<Rightarrow> \<not> processing \<and> Inl err = (Inr () :: go_error + unit)"
    unfolding answered_def by blast
  have "r \<in> set (replicate n (Inr False))" unfolding rs by simp
  with r show False by (auto dest: in_set_replicate [THEN iffD1])
qed

text \<open>A run that ends by the timeout without a poll.\<close>

theorem polling_is_bounded_witness:
  "\<exists>s. poll_steps reference ex_client ''upload'' (poll_start (start_world (ex_cluster []))) s \<and>
     received s = Some (Inl (Error ''timeout exceeded'')) \<and> tickerTimeout \<le> elapsed s"
proof -
  let ?w = "start_world (ex_cluster []) :: (cluster, effect) world"
  have "awaitProcessing reference ex_client ''upload'' 0 ?w =
      (Returns (Inl (Error ''timeout exceeded'')), ?w)" by (simp add: ret_def)
  from poll_run_exists [OF this] obtain s where
    s: "poll_steps reference ex_client ''upload'' (poll_start ?w) s"
      "received s = Some (Inl (Error ''timeout exceeded''))" by blast
  from polling_is_bounded [OF s(1)] s(2) have "tickerTimeout \<le> elapsed s"
    by (auto simp: timed_out_def polls_reference not_answered_error)
  with s show ?thesis by blast
qed

text \<open>
  C19: Without a parent template there is no parent project, and the program dereferences it
  anyway. So nothing is ever uploaded: a message that cannot be named fails, one that is skipped
  because only production is pushed succeeds, one whose payload does not unzip fails, and every
  other one makes the processor panic. No call is made to the server.
\<close>

theorem no_parent_template_panics:
  "postProcess E D msg only (newTemplate root '''' project version) client w =
    ((case getWriteInfo D msg (newTemplate root '''' project version) of
        Inl err \<Rightarrow> Returns (Inl err)
      | Inr info \<Rightarrow>
          if only \<and> mget (MsgLabels msg) ''lagoon.sh/environmentType'' \<noteq> ''production''
          then Returns (Inr ())
          else
            (case unzipByteStream D (firstPayload D msg) of
               Inl err \<Rightarrow> Returns (Inl err)
             | Inr payload \<Rightarrow> Panics nil_dereference)), w)"
proof (cases "getWriteInfo D msg (newTemplate root '''' project version)")
  case (Inl err)
  then show ?thesis by (simp add: postProcess_def ret_def)
next
  case (Inr info)
  then have "ParentProjectNames info = []"
    by (auto simp: getWriteInfo_def newTemplate_def split: sum.splits)
  with Inr show ?thesis
    by (auto simp: postProcess_def lagoonShEnvironmentTypeProd_def nil_dereference_def monad_defs
        split: sum.split)
qed

theorem no_parent_template_panics_witness:
  "fst (postProcess reference reference_deptrack ex_message True
      (newTemplate ''root'' '''' ''service'' ''v1'') ex_client (start_world (ex_cluster []))) =
    Panics nil_dereference"
proof -
  have "getWriteInfo reference_deptrack ex_message (newTemplate ''root'' '''' ''service'' ''v1'') =
      Inr \<lparr>ParentProjectNames = [], WriteProjectName = ''shop-service'', ProjectVersion = ''shop-v1''\<rparr>"
    by (simp add: getWriteInfo_def templateValuesOf_def processTemplate_def reference_deptrack_def
        ex_message_def newTemplate_def newInsightsMessage_def ex_configmap_def ex_namespace_def mget_def)
  with no_parent_template_panics [of reference reference_deptrack ex_message True "''root''" "''service''" "''v1''"
      ex_client "start_world (ex_cluster [])"] ex_production ex_unzip
  show ?thesis by simp
qed

end
