(* ===== verification/Token_Properties.thy ===== *)
theory Token_Properties
  imports Insights_Properties
begin

text \<open>
  The properties of tokens: what the namespace controller issues, keeps and deletes, and what the
  web service does for a token.
\<close>

section \<open>The namespace controller\<close>

text \<open>
  C20: What a reconciliation of a namespace writes follows from the secrets this run listed.
  Nothing is written if the namespace cannot be read, is terminating or its secrets cannot be
  listed. Otherwise the secrets before the first one that holds no good token (a token that
  validates) stay, and if the run succeeds that one and all after it are deleted, in order. Then
  either a secret was found whose token is good or at least names this namespace, and nothing more
  is written; or no token names this namespace, all secrets are deleted, and one secret with a
  new token for the namespace is created. A run that fails wrote a part of that.
\<close>

theorem namespace_writes:
  "\<exists>ws. filter kube_write (calls (snd (reconcileNamespace E L R req w))) =
      filter kube_write (calls w) @ ws \<and>
    (case get_namespace E req (outside w) of
       (Inl err, c1) \<Rightarrow> ws = []
     | (Inr ns, c1) \<Rightarrow>
         if NamespacePhase ns = ''Terminating'' then ws = []
         else
           (case list_secrets E insightsTokenLabel (Name ns) c1 of
              (Inl err, c2) \<Rightarrow> ws = []
            | (Inr items, c2) \<Rightarrow>
                namespaceWrites L (InsightsJWTSecret R) ns items
                  (fst (reconcileNamespace E L R req w)) ws))"
  by (rule reconcileNamespace_writes [OF surjective_pairing])

text \<open>
  C21: The token of a namespace that carries the three labels, and whose name and labels are plain
  text, validates under the same key to exactly this namespace, environment and project.
\<close>

theorem issued_token_validates:
  assumes "jwt_round_trip L" and "tokenDetails ns = Inr d"
    and "plain_details d"
    and "snd (GenerateTokenForNamespace L k d) = None"
  shows "holds_token L k (freshSecret L k (Name ns) d) d \<and>
    TokenNamespace d = Name ns \<and>
    mlookup (Labels ns) ''lagoon.sh/environmentId'' = Some (TokenEnvironmentId d) \<and>
    mlookup (Labels ns) ''lagoon.sh/project'' = Some (TokenProjectName d) \<and>
    mlookup (Labels ns) ''lagoon.sh/environment'' = Some (TokenEnvironmentName d)"
proof -
  from fresh_holds_token [OF assms(1,3,4)] assms(2) show ?thesis
    by (auto simp: tokenDetails_def getValueFromMap_def split: option.splits)
qed

definition ex_details :: NamespaceDetails where
  "ex_details =
     \<lparr>TokenNamespace = ''shop-main'', TokenEnvironmentId = ''42'', TokenProjectName = ''shop'',
      TokenEnvironmentName = ''main''\<rparr>"

lemma ex_namespace_name: "Name ex_namespace = ''shop-main''"
  by (simp add: ex_namespace_def)

lemma ex_tokenDetails: "tokenDetails ex_namespace = Inr ex_details"
  by (simp add: tokenDetails_def ex_namespace_def ex_details_def getValueFromMap_def)

lemma ex_plain: "plain_details ex_details"
  by (simp add: plain_details_def plain_text_def ex_details_def)

lemma ex_signed: "snd (GenerateTokenForNamespace reference_jwt k d) = None"
  by (simp add: GenerateTokenForNamespace_def reference_jwt_def)

theorem issued_token_validates_witness:
  "holds_token reference_jwt ''k'' (freshSecret reference_jwt ''k'' ''shop-main'' ex_details) ex_details"
  using issued_token_validates [OF reference_round_trip ex_tokenDetails ex_plain ex_signed, of "''k''"]
  unfolding ex_namespace_name by blast

text \<open>
  C22: A namespace all of whose token secrets hold a token that validates, and which has one, is
  left alone: the reconciliation reads the namespace and its secrets and succeeds. Tokens that
  validate to another namespace are kept as well.
\<close>

theorem valid_tokens_are_kept:
  assumes "get_namespace E req (outside w) = (Inr ns, c1)" and "NamespacePhase ns \<noteq> ''Terminating''"
    and "list_secrets E insightsTokenLabel (Name ns) c1 = (Inr items, c2)"
    and "items \<noteq> []" and "\<forall>v\<in>set items. \<exists>d. holds_token L (InsightsJWTSecret R) v d"
  shows "reconcileNamespace E L R req w =
    (Returns (Inr ()),
     w\<lparr>outside := c2,
       calls := calls w @ [KGetNamespace req, KListSecrets insightsTokenLabel (Name ns)]\<rparr>)"
proof -
  let ?w = "w\<lparr>outside := c2,
    calls := calls w @ [KGetNamespace req, KListSecrets insightsTokenLabel (Name ns)]\<rparr>"
  from assms(4) show ?thesis
    unfolding reconcileNamespace_active [OF assms(1-3)]
    by (simp add: checkSecrets_all_valid [OF assms(5)] attempt_def bind_def ret_def)
qed

definition ex_secret :: "NamespaceDetails \<Rightarrow> Secret" where
  "ex_secret d = freshSecret reference_jwt ''k'' ''shop-main'' d"

definition ex_secrets_cluster :: "Secret list \<Rightarrow> cluster" where
  "ex_secrets_cluster secrets = (ex_cluster [])\<lparr>StoredSecrets := secrets\<rparr>"

lemma ex_secret_holds: "plain_details d \<Longrightarrow> holds_token reference_jwt ''k'' (ex_secret d) d"
proof -
  assume "plain_details d"
  moreover obtain tok where tok: "GenerateTokenForNamespace reference_jwt ''k'' d = (tok, None)"
    using ex_signed [of "''k''" d] by (cases "GenerateTokenForNamespace reference_jwt ''k'' d") simp
  ultimately show ?thesis
    using validate_issued [OF reference_round_trip]
    by (simp add: holds_token_def ex_secret_def freshSecret_def tokenSecret_def)
qed

lemma ex_get_namespace:
  "get_namespace reference ''shop-main'' (outside (start_world (ex_secrets_cluster vs))) =
     (Inr ex_namespace, ex_secrets_cluster vs)"
  by (simp add: fetch_def ex_secrets_cluster_def ex_cluster_def key_def ex_namespace_def)

lemma ex_list_secrets:
  "\<forall>v\<in>set vs. Namespace v = ''shop-main'' \<and> mlookup (Labels v) insightsTokenLabel \<noteq> None \<Longrightarrow>
     firsts vs = vs \<Longrightarrow>
     list_secrets reference insightsTokenLabel (Name ex_namespace) (ex_secrets_cluster vs) =
       (Inr vs, ex_secrets_cluster vs)"
  by (auto simp: ex_secrets_cluster_def ex_namespace_def intro: filter_True)

lemma ex_active: "NamespacePhase ex_namespace \<noteq> ''Terminating''"
  by (simp add: ex_namespace_def)

lemma ex_secret_meta [simp]:
  "Namespace (ex_secret d) = ''shop-main''" "mlookup (Labels (ex_secret d)) insightsTokenLabel = Some ''true''"
  by (simp_all add: ex_secret_def freshSecret_def tokenSecret_def)

definition ex_other :: NamespaceDetails where
  "ex_other = ex_details\<lparr>TokenNamespace := ''another-namespace''\<rparr>"

text \<open>The instance has a token of another namespace.\<close>

theorem valid_tokens_are_kept_witness:
  "fst (reconcileNamespace reference reference_jwt \<lparr>InsightsJWTSecret = ''k''\<rparr> ''shop-main''
      (start_world (ex_secrets_cluster [ex_secret ex_other]))) = Returns (Inr ()) \<and>
   filter kube_write (calls (snd (reconcileNamespace reference reference_jwt
      \<lparr>InsightsJWTSecret = ''k''\<rparr> ''shop-main''
      (start_world (ex_secrets_cluster [ex_secret ex_other]))))) = [] \<and>
   TokenNamespace ex_other \<noteq> ''shop-main''"
proof -
  have "plain_details ex_other"
    by (simp add: plain_details_def plain_text_def ex_other_def ex_details_def)
  from ex_secret_holds [OF this]
  have "\<forall>v\<in>set [ex_secret ex_other]. \<exists>d. holds_token reference_jwt
      (InsightsJWTSecret \<lparr>InsightsJWTSecret = ''k''\<rparr>) v d" by auto
  moreover have list: "list_secrets reference insightsTokenLabel (Name ex_namespace)
      (ex_secrets_cluster [ex_secret ex_other]) =
      (Inr [ex_secret ex_other], ex_secrets_cluster [ex_secret ex_other])"
    by (rule ex_list_secrets) simp_all
  ultimately have "reconcileNamespace reference reference_jwt \<lparr>InsightsJWTSecret = ''k''\<rparr> ''shop-main''
      (start_world (ex_secrets_cluster [ex_secret ex_other])) =
      (Returns (Inr ()), (start_world (ex_secrets_cluster [ex_secret ex_other]))
        \<lparr>outside := ex_secrets_cluster [ex_secret ex_other],
         calls := calls (start_world (ex_secrets_cluster [ex_secret ex_other])) @
           [KGetNamespace ''shop-main'', KListSecrets insightsTokenLabel (Name ex_namespace)]\<rparr>)"
    by (intro valid_tokens_are_kept [OF ex_get_namespace ex_active list]) simp
  moreover have "TokenNamespace ex_other \<noteq> ''shop-main''" by (simp add: ex_other_def)
  ultimately show ?thesis by simp
qed

text \<open>
  C23: A secret without a token is deleted, and so is every secret listed after it, the ones with a
  good token of this very namespace included: once set, the reason for a deletion is never reset.
  If all validations and deletions go through, no secret of the list is left.
\<close>

theorem bad_secret_takes_the_rest:
  assumes "mlookup (SecretData v) ''INSIGHTS_TOKEN'' = None"
    and "checkSecrets E L k n (v # vs) found msg w = (Returns (Inr f), w')"
  shows "calls w' = calls w @ map (\<lambda>s. KDeleteSecret (key s)) (v # vs)"
proof -
  obtain ds res where loop: "tokenLoop L k n (v # vs) found msg = (ds, res)" by fastforce
  from checkSecrets_log [OF assms(2) loop] obtain m where
    w': "calls w' = calls w @ map deletion (take m ds)" and "res = Returns f" "take m ds = ds" by auto
  moreover from this loop have "ds = v # vs" by (intro tokenLoop_bad_head [OF assms(1)]) simp
  ultimately show ?thesis by simp
qed

definition ex_bad_secret :: Secret where
  "ex_bad_secret = (ex_secret ex_details)\<lparr>Name := ''old'', SecretData := None\<rparr>"

lemma ex_keys:
  "key ex_bad_secret = NamespacedName ''shop-main'' ''old''"
  "key (ex_secret d) = NamespacedName ''shop-main'' ''insights-token''"
  by (simp_all add: key_def ex_bad_secret_def ex_secret_def freshSecret_def tokenSecret_def)

lemma ex_first_verdict:
  "secretVerdict reference_jwt ''k'' ''shop-main'' ex_bad_secret False '''' =
     Returns (False, missingTokenMessage)"
  by (simp add: secretVerdict_def ex_bad_secret_def)

lemma ex_second_verdict:
  "secretVerdict reference_jwt ''k'' ''shop-main'' (ex_secret ex_details) False missingTokenMessage =
     Returns (True, missingTokenMessage)"
  using ex_secret_holds [OF ex_plain]
  by (auto simp: holds_token_def secretVerdict_def ex_details_def split: option.splits)

text \<open>Here a secret with the namespace's own valid token goes with a bad one, and none is created.\<close>

theorem bad_secret_takes_the_rest_witness:
  "calls (snd (checkSecrets reference reference_jwt ''k'' ''shop-main''
      [ex_bad_secret, ex_secret ex_details] False '''' (start_world (ex_secrets_cluster [])))) =
    [KDeleteSecret (key ex_bad_secret), KDeleteSecret (key (ex_secret ex_details))] \<and>
   fst (checkSecrets reference reference_jwt ''k'' ''shop-main''
      [ex_bad_secret, ex_secret ex_details] False '''' (start_world (ex_secrets_cluster []))) =
    Returns (Inr True)"
proof -
  have bad: "mlookup (SecretData ex_bad_secret) ''INSIGHTS_TOKEN'' = None"
    by (simp add: ex_bad_secret_def)
  obtain f w' where run: "checkSecrets reference reference_jwt ''k'' ''shop-main''
      [ex_bad_secret, ex_secret ex_details] False '''' (start_world (ex_secrets_cluster [])) =
      (Returns (Inr f), w')" and "f = True"
    by (auto simp: ex_first_verdict ex_second_verdict DeleteSecret_def monad_defs)
  with bad_secret_takes_the_rest [OF bad run] show ?thesis by simp
qed

text \<open>
  C24: In a cluster that stores secrets as documented, two reconciliations of an active namespace
  that succeed settle it, whatever secrets there were before: it then has a token secret, every
  token secret holds a token that validates, and further reconciliations write nothing.
\<close>

theorem two_reconciliations_converge:
  assumes "secret_store E view" and "jwt_round_trip L"
    and "NamespacePhase ns \<noteq> ''Terminating''" and "tokenDetails ns = Inr d" and "plain_details d"
    and "snd (GenerateTokenForNamespace L (InsightsJWTSecret R) d) = None"
    and "fst (get_namespace E req (outside w)) = Inr ns"
    and "reconcileNamespace E L R req w = (Returns (Inr ()), w1)"
    and "fst (get_namespace E req (outside w1)) = Inr ns"
    and "reconcileNamespace E L R req w1 = (Returns (Inr ()), w2)"
    and "fst (get_namespace E req (outside w2)) = Inr ns"
  shows "tokenSecrets view (Name ns) (outside w2) \<noteq> {} \<and>
    (\<forall>v\<in>tokenSecrets view (Name ns) (outside w2). \<exists>d. holds_token L (InsightsJWTSecret R) v d) \<and>
    filter kube_write (calls (snd (reconcileNamespace E L R req w2))) = filter kube_write (calls w2)"
proof -
  from fresh_holds_token [OF assms(2,5,6)]
  have "holds_token L (InsightsJWTSecret R) (freshSecret L (InsightsJWTSecret R) (Name ns) d) d" .
  from two_reconciliations_settle [OF assms(1,3,4) this assms(7-10)]
  have settled: "settled view L (InsightsJWTSecret R) (Name ns) (outside w2)" .
  from settled_untouched(2) [OF assms(1,11,3) this surjective_pairing] settled
  show ?thesis by (simp add: settled_def)
qed

text \<open>
  The instance needs both: the first run deletes a secret without a token and the good one after
  it, and takes the good one for found; the second run creates a new one.
\<close>

lemma ex_remove:
  "remove_from (key (ex_secret ex_details))
     (remove_from (key ex_bad_secret) [ex_bad_secret, ex_secret ex_details]) = []"
  by (simp add: remove_from_def ex_keys)

abbreviation ex_reconcile_namespace ::
  "(cluster, effect) world \<Rightarrow> (go_error + unit) exec \<times> (cluster, effect) world" where
  "ex_reconcile_namespace \<equiv>
     reconcileNamespace reference reference_jwt \<lparr>InsightsJWTSecret = ''k''\<rparr> ''shop-main''"

lemma ex_first_run:
  "\<exists>cs. ex_reconcile_namespace (start_world (ex_secrets_cluster [ex_bad_secret, ex_secret ex_details])) =
     (Returns (Inr ()), \<lparr>outside = ex_secrets_cluster [], calls = cs\<rparr>)"
proof -
  have "list_secrets reference insightsTokenLabel (Name ex_namespace)
      (ex_secrets_cluster [ex_bad_secret, ex_secret ex_details]) =
      (Inr [ex_bad_secret, ex_secret ex_details],
       ex_secrets_cluster [ex_bad_secret, ex_secret ex_details])"
    by (rule ex_list_secrets) (simp_all add: ex_bad_secret_def ex_keys [unfolded ex_bad_secret_def])
  from reconcileNamespace_active [OF ex_get_namespace ex_active this, of reference_jwt
      "\<lparr>InsightsJWTSecret = ''k''\<rparr>"]
  show ?thesis
    by (simp add: ex_namespace_name ex_first_verdict ex_second_verdict DeleteSecret_def monad_defs
        start_world_def ex_secrets_cluster_def ex_remove)
qed

lemma ex_second_run:
  "\<exists>cs. ex_reconcile_namespace \<lparr>outside = ex_secrets_cluster [], calls = cs0\<rparr> =
     (Returns (Inr ()), \<lparr>outside = ex_secrets_cluster [ex_secret ex_details], calls = cs\<rparr>) \<and>
   KCreateSecret (ex_secret ex_details) \<in> set cs"
proof -
  let ?w = "\<lparr>outside = ex_secrets_cluster [], calls = cs0\<rparr>"
  have get: "get_namespace reference ''shop-main'' (outside ?w) = (Inr ex_namespace, ex_secrets_cluster [])"
    using ex_get_namespace [of "[]"] by simp
  have list: "list_secrets reference insightsTokenLabel (Name ex_namespace) (ex_secrets_cluster []) =
      (Inr [], ex_secrets_cluster [])"
    by (rule ex_list_secrets) simp_all
  obtain tok where tok: "GenerateTokenForNamespace reference_jwt ''k'' ex_details = (tok, None)"
    using ex_signed [of "''k''" ex_details]
    by (cases "GenerateTokenForNamespace reference_jwt ''k'' ex_details") simp
  then have "tokenSecret ''shop-main'' tok = ex_secret ex_details"
    by (simp add: ex_secret_def freshSecret_def)
  with reconcileNamespace_active [OF get ex_active list, of reference_jwt
      "\<lparr>InsightsJWTSecret = ''k''\<rparr>"] tok
  show ?thesis
    by (simp add: ex_namespace_name createToken_def ex_tokenDetails CreateSecret_def monad_defs
        fetch_def ex_secrets_cluster_def)
qed

theorem two_reconciliations_converge_witness:
  "\<exists>w1 w2. ex_reconcile_namespace
      (start_world (ex_secrets_cluster [ex_bad_secret, ex_secret ex_details])) = (Returns (Inr ()), w1) \<and>
    tokenSecrets secrets_view ''shop-main'' (outside w1) = {} \<and>
    ex_reconcile_namespace w1 = (Returns (Inr ()), w2) \<and>
    tokenSecrets secrets_view ''shop-main'' (outside w2) \<noteq> {}"
proof -
  obtain cs where one: "ex_reconcile_namespace
      (start_world (ex_secrets_cluster [ex_bad_secret, ex_secret ex_details])) =
      (Returns (Inr ()), \<lparr>outside = ex_secrets_cluster [], calls = cs\<rparr>)"
    using ex_first_run by blast
  obtain cs' where two: "ex_reconcile_namespace \<lparr>outside = ex_secrets_cluster [], calls = cs\<rparr> =
      (Returns (Inr ()), \<lparr>outside = ex_secrets_cluster [ex_secret ex_details], calls = cs'\<rparr>)"
    using ex_second_run by blast
  have get: "fst (get_namespace reference ''shop-main'' (ex_secrets_cluster vs)) = Inr ex_namespace" for vs
    using ex_get_namespace [of vs] by simp
  have "tokenSecrets secrets_view (Name ex_namespace)
      (outside \<lparr>outside = ex_secrets_cluster [ex_secret ex_details], calls = cs'\<rparr>) \<noteq> {}"
    using two_reconciliations_converge [OF reference_secrets reference_round_trip ex_active
        ex_tokenDetails ex_plain _ _ one _ two] get
    by (simp add: ex_signed)
  moreover have "tokenSecrets secrets_view ''shop-main'' (ex_secrets_cluster []) = {}"
    by (simp add: tokenSecrets_def secrets_view_def ex_secrets_cluster_def)
  ultimately show ?thesis using one two by (auto simp: ex_namespace_name)
qed

text \<open>
  C25: A secret whose token is a text that the library returns no token for (with golang-jwt: not
  three segments) stops the reconciliation, wherever it is listed: the validation dereferences the
  token that is not there, and the run panics, unless a deletion before it failed. Neither this
  secret nor one listed after it is deleted, and none is created: of the secrets before it, only
  such from the first bad one on are deleted.
\<close>

theorem malformed_token_panics:
  assumes "get_namespace E req (outside w) = (Inr ns, c1)" and "NamespacePhase ns \<noteq> ''Terminating''"
    and "list_secrets E insightsTokenLabel (Name ns) c1 = (Inr (us @ v # vs), c2)"
    and "unparsed_token L (InsightsJWTSecret R) v"
  shows "\<exists>ds. prefix ds (dropWhile (good_secret L (InsightsJWTSecret R)) us) \<and>
    calls (snd (reconcileNamespace E L R req w)) =
      calls w @ [KGetNamespace req, KListSecrets insightsTokenLabel (Name ns)] @ map deletion ds \<and>
    (case fst (reconcileNamespace E L R req w) of
       Panics p \<Rightarrow> p = nil_dereference
     | Returns (Inl err) \<Rightarrow> ds \<noteq> []
     | Returns (Inr u) \<Rightarrow> False)"
proof -
  let ?k = "InsightsJWTSecret R"
  let ?w = "w\<lparr>outside := c2,
    calls := calls w @ [KGetNamespace req, KListSecrets insightsTokenLabel (Name ns)]\<rparr>"
  obtain s w1 where check: "checkSecrets E L ?k (Name ns) (us @ v # vs) False '''' ?w = (s, w1)"
    by fastforce
  obtain ds res where loop: "tokenLoop L ?k (Name ns) (us @ v # vs) False '''' = (ds, res)"
    by fastforce
  note ends = tokenLoop_unparsed [OF assms(4) loop]
  from checkSecrets_log [OF check loop] obtain m where
    w1: "calls w1 = calls ?w @ map deletion (take m ds)" and
    out: "case s of Returns (Inl err) \<Rightarrow> take m ds \<noteq> []
       | Returns (Inr f) \<Rightarrow> res = Returns f \<and> take m ds = ds
       | Panics p \<Rightarrow> res = Panics p \<and> take m ds = ds" by blast
  have fails: "s \<noteq> Returns (Inr f)" for f using out ends(1) by auto
  have "reconcileNamespace E L R req w = (case s of Panics p \<Rightarrow> Panics p
      | Returns (Inl err) \<Rightarrow> Returns (Inl err) | Returns (Inr f) \<Rightarrow> Panics nil_dereference, w1)"
    unfolding reconcileNamespace_active [OF assms(1-3)] using check fails
    by (auto simp: monad_defs split: exec.split sum.split)
  then have r: "fst (reconcileNamespace E L R req w) = (case s of Panics p \<Rightarrow> Panics p
      | Returns (Inl err) \<Rightarrow> Returns (Inl err) | Returns (Inr f) \<Rightarrow> Panics nil_dereference)"
    and w': "snd (reconcileNamespace E L R req w) = w1" by simp_all
  from ends(2) have "prefix (take m ds) (dropWhile (good_secret L ?k) us)"
    by (meson take_is_prefix prefix_order.order_trans)
  then show ?thesis
    using w1 out ends(1) unfolding r w'
    by (intro exI [of _ "take m ds"]) (auto split: exec.split sum.split)
qed

definition ex_garbage :: Secret where
  "ex_garbage = (ex_secret ex_details)\<lparr>SecretData := gomap_of [(''INSIGHTS_TOKEN'', ''garbage'')]\<rparr>"

lemma ex_garbage_unparsed: "unparsed_token reference_jwt ''k'' ex_garbage"
  by (simp add: unparsed_token_def ex_garbage_def reference_jwt_def reference_parse_def
      eval_nat_numeral)

text \<open>A secret without a token before it: that one is deleted, and then the run panics.\<close>

theorem malformed_token_panics_witness:
  "fst (ex_reconcile_namespace (start_world (ex_secrets_cluster [ex_bad_secret, ex_garbage]))) =
     Panics nil_dereference \<and>
   (\<exists>ds. prefix ds [ex_bad_secret] \<and>
      calls (snd (ex_reconcile_namespace (start_world (ex_secrets_cluster [ex_bad_secret, ex_garbage])))) =
        [KGetNamespace ''shop-main'', KListSecrets insightsTokenLabel ''shop-main''] @ map deletion ds)"
proof -
  let ?c = "ex_secrets_cluster [ex_bad_secret, ex_garbage]"
  have keys: "key ex_garbage = NamespacedName ''shop-main'' ''insights-token''"
    by (simp add: ex_garbage_def ex_secret_def freshSecret_def tokenSecret_def key_def)
  have list: "list_secrets reference insightsTokenLabel (Name ex_namespace) ?c =
      (Inr ([ex_bad_secret] @ ex_garbage # []), ?c)"
    unfolding append_Cons append_Nil
    by (rule ex_list_secrets) (simp_all add: keys ex_keys, simp_all add: ex_bad_secret_def ex_garbage_def)
  have unparsed: "unparsed_token reference_jwt (InsightsJWTSecret \<lparr>InsightsJWTSecret = ''k''\<rparr>) ex_garbage"
    using ex_garbage_unparsed by simp
  from malformed_token_panics [OF ex_get_namespace ex_active list unparsed] obtain ds where
    "prefix ds (dropWhile (good_secret reference_jwt ''k'') [ex_bad_secret])"
    "calls (snd (ex_reconcile_namespace (start_world ?c))) =
       [KGetNamespace ''shop-main'', KListSecrets insightsTokenLabel ''shop-main''] @ map deletion ds"
    by (auto simp: ex_namespace_name)
  moreover have "fst (ex_reconcile_namespace (start_world ?c)) = Panics nil_dereference"
    using reconcileNamespace_active [OF ex_get_namespace ex_active list, of reference_jwt
        "\<lparr>InsightsJWTSecret = ''k''\<rparr>"]
    by (simp add: ex_namespace_name ex_first_verdict verdict_panics [OF ex_garbage_unparsed]
        DeleteSecret_def monad_defs)
  moreover have "\<not> good_secret reference_jwt ''k'' ex_bad_secret"
    by (simp add: good_secret_def ex_bad_secret_def)
  ultimately show ?thesis by auto
qed

end
