(* ===== verification/Service_Properties.thy ===== *)
theory Service_Properties
  imports Token_Properties
begin

text \<open>
  The properties of the web service: who may use it, what it refuses, and what it hands to the
  broker in whose name.
\<close>

section \<open>Authentication\<close>

text \<open>
  Every route the router serves is authenticated: to a token that does not validate under the
  service's secret it answers 401 and does nothing else.
\<close>

lemma every_route_authenticated:
  "list_all (\<lambda>(method, path, h). authenticated_handler L jwtSecret h)
     (SetupRouter L J jwtSecret writer queueEnabled)"
proof -
  let ?r = "\<lparr>secret = jwtSecret, MessageQWriter = writer, WriteToQueue = queueEnabled\<rparr>"
  have "authenticated_handler L jwtSecret (handle L J ?r e)" for e
    using any_handler.authenticated_handler_axioms [of L ?r J e] by simp
  then show ?thesis by (auto simp: SetupRouter_def list_all_iff)
qed

text \<open>
  C26: No call leaves a handler without an accepted token: if any endpoint does anything, the token
  of the request parsed without error, is valid, and was signed by a method of the HMAC family.
\<close>

theorem acting_needs_hmac_token:
  assumes "jwt_checks L" and "handle L J r e req w = (res, w')" and "calls w' \<noteq> calls w"
  shows "\<exists>t alg. jwt_parse L (AuthorizationHeader req) (hmacKeyFunc (secret r)) = (Some t, None) \<and>
    Valid t \<and> Method t = SigningMethodHMAC alg"
  using any_handler.acting_needs_hmac [OF assms] by metis

definition ex_router :: "cluster routerInstance" where
  "ex_router = \<lparr>secret = ''k'', MessageQWriter = mqWriteObject reference, WriteToQueue = True\<rparr>"

definition ex_request :: "NamespaceDetails \<Rightarrow> bytes \<Rightarrow> http_request" where
  "ex_request d body =
     \<lparr>AuthorizationHeader = fst (GenerateTokenForNamespace reference_jwt ''k'' d), HeaderError = None,
      RequestBody = body, PathParam = (\<lambda>n. if n = ''source'' then ''trivy'' else '''')\<rparr>"

lemma ex_router_simps [simp]:
  "secret ex_router = ''k''" "MessageQWriter ex_router = mqWriteObject reference" "WriteToQueue ex_router"
  by (simp_all add: ex_router_def)

lemma ex_request_simps [simp]:
  "headerResponses (ex_request d body) = []" "RequestBody (ex_request d body) = body"
  by (simp_all add: headerResponses_def ex_request_def)

lemma ex_request_validates:
  assumes "plain_details d"
  shows "ValidateAndExtractNamespaceDetailsFromToken reference_jwt ''k''
    (AuthorizationHeader (ex_request d body)) = Returns (d, None)"
proof -
  obtain tok where tok: "GenerateTokenForNamespace reference_jwt ''k'' d = (tok, None)"
    using ex_signed [of "''k''" d] by (cases "GenerateTokenForNamespace reference_jwt ''k'' d") simp
  with validate_issued [OF reference_round_trip assms tok] show ?thesis by (simp add: ex_request_def)
qed

lemma ex_parse_id: "parse_int 32 ''42'' = Inr 42"
  by (simp add: parse_int_def ParseInt_def signed_value_def digit_val_def)

lemma ex_handle_facts:
  "handle reference_jwt reference_json ex_router WriteFacts (ex_request ex_details ''[php]'') w =
     (Returns [(200, JMessage ''okay'')],
      w\<lparr>calls := calls w @ [MqNew, MqSyncProducer ''lagoon-insights'',
        MqProduce ''facts of shop main'', MqClose]\<rparr>)"
proof -
  have id: "parse_int 32 (TokenEnvironmentId ex_details) = Inr 42"
    using ex_parse_id by (simp add: ex_details_def)
  have marshal: "json_marshal reference_json (DocFacts (factsMessage ex_details 42 m)) =
      Inr ''facts of shop main''" for m
    by (simp add: reference_json_def factsMessage_def ex_details_def)
  have read: "\<exists>m. readFacts reference_json ''[php]'' = Inr m"
    by (simp add: readFacts_def reference_json_def)
  then obtain m where "readFacts reference_json ''[php]'' = Inr m" ..
  with id marshal ex_request_validates [OF ex_plain, of "''[php]''"] show ?thesis
    by (simp add: writeFacts_def authenticated_def publish_def writeToQueue_def mqWriteObject_def
        closing_def mq_ops monad_defs)
qed

theorem acting_needs_hmac_token_witness:
  "\<exists>t alg. jwt_parse reference_jwt (AuthorizationHeader (ex_request ex_details ''[php]''))
      (hmacKeyFunc (secret ex_router)) = (Some t, None) \<and>
    Valid t \<and> Method t = SigningMethodHMAC alg"
  by (rule acting_needs_hmac_token [OF reference_checks ex_handle_facts [of "start_world (ex_cluster [])"]])
    simp

text \<open>
  C27: A token that does not validate is answered with 401 by every endpoint, and nothing happens;
  a token that is not even returned by the parser makes the handler panic before anything happens.
\<close>

theorem unauthorised_does_nothing:
  assumes "ValidateAndExtractNamespaceDetailsFromToken L (secret r) (AuthorizationHeader req) = out"
    and "\<nexists>d. out = Returns (d, None)"
  shows "snd (handle L J r e req w) = w \<and>
    fst (handle L J r e req w) =
      (case out of
         Panics msg \<Rightarrow> Panics msg
       | Returns (d, err) \<Rightarrow>
           Returns (headerResponses req @
             [(401, JStatus ''unauthorized'' (case err of None \<Rightarrow> '''' | Some e \<Rightarrow> error_text e))]))"
proof (cases out)
  case (Returns res)
  with assms(2) obtain d err where "out = Returns (d, Some err)" by (cases res) auto
  with any_handler.refuses [of L r req d err J e] assms(1) show ?thesis by (simp add: ret_def)
next
  case (Panics msg)
  with any_handler.panics_first [of L r req msg J e] assms(1) show ?thesis by (simp add: panic_def)
qed

theorem unauthorised_does_nothing_witness:
  "fst (handle reference_jwt reference_json ex_router DeleteFacts
      ((ex_request ex_details '''')\<lparr>AuthorizationHeader := reference_token ex_details ''other''\<rparr>)
      (start_world (ex_cluster []))) =
    Returns [(401, JStatus ''unauthorized'' ''signature is invalid'')]"
proof -
  let ?req = "(ex_request ex_details '''')\<lparr>AuthorizationHeader := reference_token ex_details ''other''\<rparr>"
  have "ValidateAndExtractNamespaceDetailsFromToken reference_jwt (secret ex_router)
      (AuthorizationHeader ?req) = Returns (no_details, Some (Error ''signature is invalid''))"
    by (simp add: ValidateAndExtractNamespaceDetailsFromToken_def reference_jwt_def reference_parse_token)
  from unauthorised_does_nothing [OF this, of reference_json DeleteFacts] show ?thesis
    by (simp add: headerResponses_def ex_request_def)
qed

section \<open>Messages\<close>

text \<open>
  C28: Whatever a request contains, every message that leaves through the web service is the
  encoding of one document of the environment its token is for: its environment id is the token's,
  its project and environment are the token's, the same holds of every fact and problem in it, and
  none of them is without a source. At most one message leaves per request, and there is no other
  effect than talking to the broker.
\<close>

theorem messages_belong_to_token:
  assumes "MessageQWriter r = mqWriteObject E" and "handle L J r e req w = (res, w')"
  shows "\<exists>es. calls w' = calls w @ es \<and> list_all mq_effect es \<and>
    (produced es = [] \<or>
     (\<exists>d doc b.
        ValidateAndExtractNamespaceDetailsFromToken L (secret r) (AuthorizationHeader req) =
          Returns (d, None) \<and>
        document_of_token d doc \<and> json_marshal J doc = Inr b \<and> produced es = [b]))"
  by (rule handle_messages [OF assms])

theorem messages_belong_to_token_witness:
  "\<exists>d doc. document_of_token d doc \<and> TokenProjectName d = ''shop'' \<and>
     json_marshal reference_json doc = Inr ''facts of shop main''"
proof -
  from messages_belong_to_token [OF ex_router_simps(2) ex_handle_facts [of "start_world (ex_cluster [])"]]
  obtain d doc where
    "ValidateAndExtractNamespaceDetailsFromToken reference_jwt ''k''
      (AuthorizationHeader (ex_request ex_details ''[php]'')) = Returns (d, None)"
    "document_of_token d doc" "json_marshal reference_json doc = Inr ''facts of shop main''"
    by auto
  moreover from this(1) ex_request_validates [OF ex_plain, of "''[php]''"] have "d = ex_details"
    by simp
  moreover have "TokenProjectName ex_details = ''shop''" by (simp add: ex_details_def)
  ultimately show ?thesis by blast
qed

text \<open>
  C29: A list of facts under an accepted token with a readable environment id becomes exactly one
  document: the facts, forced to the token's environment, as \<open>direct.facts\<close>. The answer is 200 only
  if its encoding was handed to the broker, or the queue is disabled; otherwise it is 500.
\<close>

theorem facts_are_published:
  assumes "MessageQWriter r = mqWriteObject E"
    and "ValidateAndExtractNamespaceDetailsFromToken L (secret r) (AuthorizationHeader req) =
      Returns (d, None)"
    and "json_fact_list J (RequestBody req) = Inr facts"
    and "parse_int 32 (TokenEnvironmentId d) = Inr lid"
    and "json_marshal J (DocFacts
      \<lparr>FactsEnvironmentId = lid, FactsProjectName = TokenProjectName d,
       FactsEnvironmentName = TokenEnvironmentName d,
       FactsFacts = map_option (map (forceFact d)) facts, FactsType = ''direct.facts''\<rparr>) = Inr b"
    and "writeFacts L J r req w = (res, w')"
  shows "\<exists>es resp. calls w' = calls w @ es \<and> res = Returns (headerResponses req @ [resp]) \<and>
    (if WriteToQueue r
     then (produced es = [b] \<and> resp = (200, JMessage ''okay'')) \<or>
          (produced es \<in> {[], [b]} \<and> fst resp = 500)
     else es = [] \<and> resp = (200, JMessage ''okay''))"
proof -
  let ?doc = "DocFacts (factsMessage d lid (emptyFacts\<lparr>FactsFacts := facts\<rparr>))"
  obtain x w1 where pub: "publish J r ?doc w = (x, w1)" by fastforce
  have doc: "json_marshal J ?doc = Inr b"
    using assms(5) by (simp add: factsMessage_def emptyFacts_def)
  from publish_log [OF assms(1) pub] doc obtain es resp where
    es: "calls w1 = calls w @ es" and x: "x = Returns resp" and
    out: "if WriteToQueue r
     then (produced es = [b] \<and> resp = (200, JMessage ''okay'')) \<or>
          (produced es \<in> {[], [b]} \<and> fst resp = 500)
     else es = [] \<and> resp = (200, JMessage ''okay'')" by auto
  from assms(2-4,6) pub x have "res = Returns (headerResponses req @ [resp])" "w' = w1"
    by (simp_all add: writeFacts_def authenticated_def readFacts_def bind_def lift_exec_def ret_def)
  with es out show ?thesis by blast
qed

theorem facts_are_published_witness:
  "produced (calls (snd (writeFacts reference_jwt reference_json ex_router
      (ex_request ex_details ''[php]'') (start_world (ex_cluster []))))) = [''facts of shop main''] \<and>
   fst (writeFacts reference_jwt reference_json ex_router
      (ex_request ex_details ''[php]'') (start_world (ex_cluster []))) =
     Returns [(200, JMessage ''okay'')]"
proof -
  let ?run = "writeFacts reference_jwt reference_json ex_router
      (ex_request ex_details ''[php]'') (start_world (ex_cluster []))"
  have "ValidateAndExtractNamespaceDetailsFromToken reference_jwt (secret ex_router)
      (AuthorizationHeader (ex_request ex_details ''[php]'')) = Returns (ex_details, None)"
    using ex_request_validates [OF ex_plain] by simp
  moreover have "json_fact_list reference_json (RequestBody (ex_request ex_details ''[php]'')) =
      Inr (Some [reference_fact])"
    by (simp add: reference_json_def)
  moreover have "parse_int 32 (TokenEnvironmentId ex_details) = Inr 42"
    using ex_parse_id by (simp add: ex_details_def)
  moreover have "json_marshal reference_json (DocFacts
      \<lparr>FactsEnvironmentId = 42, FactsProjectName = TokenProjectName ex_details,
       FactsEnvironmentName = TokenEnvironmentName ex_details,
       FactsFacts = map_option (map (forceFact ex_details)) (Some [reference_fact]),
       FactsType = ''direct.facts''\<rparr>) = Inr ''facts of shop main''"
    by (simp add: reference_json_def ex_details_def)
  ultimately obtain es resp where
    "calls (snd ?run) = calls (start_world (ex_cluster [])) @ es" "fst ?run = Returns [resp]"
    "(produced es = [''facts of shop main''] \<and> resp = (200, JMessage ''okay'')) \<or>
     (produced es \<in> {[], [''facts of shop main'']} \<and> fst resp = 500)"
    using facts_are_published [OF ex_router_simps(2) _ _ _ _ surjective_pairing,
        of reference_jwt "ex_request ex_details ''[php]''" ex_details reference_json
        "Some [reference_fact]" 42 "''facts of shop main''" "start_world (ex_cluster [])"]
    by auto
  moreover have "fst ?run = Returns [(200, JMessage ''okay'')]"
    using ex_handle_facts [of "start_world (ex_cluster [])"] by simp
  ultimately show ?thesis by auto
qed

text \<open>
  C30: Under an accepted token whose environment id is not a signed 32-bit number, every endpoint
  answers 400 and nothing is sent.
\<close>

theorem bad_environment_id_refused:
  assumes "ValidateAndExtractNamespaceDetailsFromToken L (secret r) (AuthorizationHeader req) =
      Returns (d, None)"
    and "parse_int 32 (TokenEnvironmentId d) = Inl err"
  shows "snd (handle L J r e req w) = w \<and>
    (\<exists>body. fst (handle L J r e req w) = Returns (headerResponses req @ [(400, body)]))"
proof (cases e)
  case WriteFacts
  with assms show ?thesis
    by (cases "readFacts J (RequestBody req)")
      (simp_all add: writeFacts_def authenticated_def monad_defs)
next
  case WriteProblems
  with assms show ?thesis
    by (cases "json_problem_list J (RequestBody req)")
      (simp_all add: writeProblems_def authenticated_def monad_defs)
next
  case DeleteProblems
  with assms show ?thesis
    by (simp add: deleteProblems_def generateDeletionMessage_def authenticated_def monad_defs)
next
  case DeleteFacts
  with assms show ?thesis
    by (simp add: deleteFacts_def generateDeletionMessage_def authenticated_def monad_defs)
qed

theorem bad_environment_id_refused_witness:
  "\<exists>body. fst (handle reference_jwt reference_json ex_router DeleteProblems
      (ex_request (ex_details\<lparr>TokenEnvironmentId := ''2147483648''\<rparr>) '''')
      (start_world (ex_cluster []))) = Returns [(400, body)]"
proof -
  let ?d = "ex_details\<lparr>TokenEnvironmentId := ''2147483648''\<rparr>"
  have "plain_details ?d" by (simp add: plain_details_def plain_text_def ex_details_def)
  from ex_request_validates [OF this] have
    "ValidateAndExtractNamespaceDetailsFromToken reference_jwt (secret ex_router)
      (AuthorizationHeader (ex_request ?d '''')) = Returns (?d, None)" by simp
  moreover have "isl (parse_int 32 ''2147483648'')"
    by (simp add: parse_int_def ParseInt_def signed_value_def digit_val_def)
  then obtain err where "parse_int 32 (TokenEnvironmentId ?d) = Inl err"
    by (auto simp: isl_def)
  ultimately show ?thesis
    using bad_environment_id_refused [of reference_jwt ex_router "ex_request ?d ''''" ?d err
        reference_json DeleteProblems "start_world (ex_cluster [])"] by simp
qed

end
