(* ===== verification/Build_Properties.thy ===== *)
theory Build_Properties
  imports Insights_Properties
begin

text \<open>
  The properties of the build scanner: what it writes and in which order, when it can fail, and
  what the scan pod is given.
\<close>

section \<open>An example\<close>

definition ex_env :: "EnvVar list" where
  "ex_env =
     [env_value ''BRANCH'' ''main'', env_value ''SECRET'' ''hidden'',
      env_value ''lagoon_feature_flag_x'' ''on'', env_value ''BRANCH'' ''develop'']"

definition ex_build_pod :: Pod where
  "ex_build_pod =
     \<lparr>Name = ''lagoon-build-1'', Namespace = ''shop-main'',
      Labels = gomap_of [(''lagoon.sh/buildName'', ''lagoon-build-1'')],
      Annotations = None, ServiceAccountName = ''lagoon-deployer'',
      Containers =
        [\<lparr>ContainerName = ''build'', Image = ''build:1'', ImagePullPolicy = ''Always'', Env = ex_env,
          VolumeMounts = []\<rparr>],
      RestartPolicy = ''Never'', Volumes = [], PodPhase = ''Succeeded''\<rparr>"

section \<open>Reconciliation\<close>

text \<open>
  C31: What a reconciliation of a build pod writes is determined by what this run was answered: for
  a pod that has succeeded, whose namespace runs images and that can be given a scan pod, the plan
  is to delete every pod that the namespace lists under the labels of a scan, then to create the
  scan pod, then to label the build pod as scanned; the writes are made in that order, up to the
  first one that is refused. In every other case nothing is written. The scan pod is in the same
  namespace, is named after the build, carries the labels its successor will be found by, and
  neither it nor the labelled build pod passes the event filter again.
\<close>

theorem build_writes_follow_plan:
  "\<exists>ws. filter kube_write (calls (snd (reconcileBuild E R req w))) = filter kube_write (calls w) @ ws \<and>
    (case get_pod E req (outside w) of
       (Inl err, c1) \<Rightarrow> ws = []
     | (Inr pod, c1) \<Rightarrow>
         if PodPhase pod \<noteq> ''Succeeded'' then ws = []
         else
           (case list_deployments E (Namespace pod) c1 of
              (Inl err, c2) \<Rightarrow> ws = []
            | (Inr deployments, c2) \<Rightarrow>
                (case generateScanPodSpec pod (imagesOf deployments) (ScanImageName R)
                    (dockerHostOf pod) (ExtraEnvVars R) of
                   Panics msg \<Rightarrow> ws = []
                 | Returns (Inl err) \<Rightarrow> ws = []
                 | Returns (Inr spec) \<Rightarrow>
                     imagesOf deployments \<noteq> [] \<and> Namespace spec = Namespace pod \<and>
                     Name spec = ''insights-scanner-'' @ Name pod \<and>
                     Labels spec = Some imageScanPodLabels \<and> \<not> buildPodEligible spec \<and>
                     \<not> buildPodEligible (scannedPod pod (mentries (Labels pod))) \<and>
                     (case list_pods E (Namespace pod) imageScanPodLabels c2 of
                        (Inl err, c3) \<Rightarrow> ws = []
                      | (Inr pods, c3) \<Rightarrow>
                          ws = attempted E
                            (map (\<lambda>p. KDeletePod (key p)) pods @ [KCreatePod spec] @
                             (case Labels pod of
                                None \<Rightarrow> []
                              | Some labels \<Rightarrow> [KUpdatePod (scannedPod pod labels)])) c3))))"
  using reconcileBuild_writes [OF surjective_pairing, of E R req w]
proof (elim exE conjE, intro exI conjI)
  fix ws
  assume "case get_pod E req (outside w) of
       (Inl err, c1) \<Rightarrow> ws = []
     | (Inr pod, c1) \<Rightarrow>
         if PodPhase pod \<noteq> ''Succeeded'' then ws = []
         else
           (case list_deployments E (Namespace pod) c1 of
              (Inl err, c2) \<Rightarrow> ws = []
            | (Inr deployments, c2) \<Rightarrow>
                (case generateScanPodSpec pod (imagesOf deployments) (ScanImageName R)
                    (dockerHostOf pod) (ExtraEnvVars R) of
                   Returns (Inr spec) \<Rightarrow> ws = replacement E pod spec c2
                 | _ \<Rightarrow> ws = []))"
  then show "case get_pod E req (outside w) of
       (Inl err, c1) \<Rightarrow> ws = []
     | (Inr pod, c1) \<Rightarrow>
         if PodPhase pod \<noteq> ''Succeeded'' then ws = []
         else
           (case list_deployments E (Namespace pod) c1 of
              (Inl err, c2) \<Rightarrow> ws = []
            | (Inr deployments, c2) \<Rightarrow>
                (case generateScanPodSpec pod (imagesOf deployments) (ScanImageName R)
                    (dockerHostOf pod) (ExtraEnvVars R) of
                   Panics msg \<Rightarrow> ws = []
                 | Returns (Inl err) \<Rightarrow> ws = []
                 | Returns (Inr spec) \<Rightarrow>
                     imagesOf deployments \<noteq> [] \<and> Namespace spec = Namespace pod \<and>
                     Name spec = ''insights-scanner-'' @ Name pod \<and>
                     Labels spec = Some imageScanPodLabels \<and> \<not> buildPodEligible spec \<and>
                     \<not> buildPodEligible (scannedPod pod (mentries (Labels pod))) \<and>
                     (case list_pods E (Namespace pod) imageScanPodLabels c2 of
                        (Inl err, c3) \<Rightarrow> ws = []
                      | (Inr pods, c3) \<Rightarrow>
                          ws = attempted E
                            (map (\<lambda>p. KDeletePod (key p)) pods @ [KCreatePod spec] @
                             (case Labels pod of
                                None \<Rightarrow> []
                              | Some labels \<Rightarrow> [KUpdatePod (scannedPod pod labels)])) c3)))"
    using scanned_not_eligible
    by (auto simp: replacement_def buildPlan_def generated_meta scannerNameFromBuildname_def
        dest: scan_pod_not_eligible split: prod.split sum.split exec.split)
qed

text \<open>
  C32: The reconciliation of a pod that has labels and a container never panics, whatever the
  outside answers; in particular that of any pod that passed the event filter with a container.
\<close>

theorem build_of_eligible_pod_returns:
  assumes "get_pod E req (outside w) = (Inr pod, c)"
    and "buildPodEligible pod" and "Containers pod \<noteq> []"
  shows "\<exists>res. fst (reconcileBuild E R req w) = Returns res"
proof (cases "fst (reconcileBuild E R req w)")
  case (Panics msg)
  from assms(2) have "Labels pod \<noteq> None"
    by (cases "Labels pod") (simp_all add: buildPodEligible_def)
  with reconcileBuild_writes [OF surjective_pairing, of E R req w] Panics assms(1,3) show ?thesis
    by auto
qed auto

theorem build_of_eligible_pod_returns_witness:
  "\<exists>res. fst (reconcileBuild reference
      \<lparr>BuildJWTSecret = '''', ScanImageName = ''scanner'', ExtraEnvVars = fmempty\<rparr>
      (key ex_build_pod) (start_world (empty_cluster\<lparr>StoredPods := [ex_build_pod]\<rparr>))) = Returns res"
proof (rule build_of_eligible_pod_returns)
  show "get_pod reference (key ex_build_pod)
      (outside (start_world (empty_cluster\<lparr>StoredPods := [ex_build_pod]\<rparr>))) =
      (Inr ex_build_pod, empty_cluster\<lparr>StoredPods := [ex_build_pod]\<rparr>)"
    by (simp add: fetch_def)
  show "buildPodEligible ex_build_pod"
    by (simp add: buildPodEligible_def ex_build_pod_def insightsScanPodLabel_def
        insightsBuildPodScannedLabel_def)
  show "Containers ex_build_pod \<noteq> []" by (simp add: ex_build_pod_def)
qed

section \<open>The scan pod\<close>

text \<open>The environment of the scan pod is one map, sliced in the order of its keys.\<close>

lemma generateScanPodSpec_env:
  assumes "generateScanPodSpec pod images img host extra = Returns (Inr spec)"
  obtains container rest m where "Containers pod = container # rest"
    and "spec = scanPod pod img (envSlice m)" and "named_env m"
    and "m = copyEnv (Env container) (ownEnv pod images host) ++\<^sub>f extraEnv extra"
proof -
  from assms obtain container rest where c: "Containers pod = container # rest"
    by (auto simp: generateScanPodSpec_def split: if_splits list.splits)
  let ?m = "copyEnv (Env container) (ownEnv pod images host) ++\<^sub>f extraEnv extra"
  show thesis
  proof (rule that [OF c _ _ refl])
    from assms c show "spec = scanPod pod img (envSlice ?m)"
      by (auto simp: generateScanPodSpec_def split: if_splits)
    show "named_env ?m"
      by (intro named_env_extra named_env_copyEnv named_env_ownEnv)
  qed
qed

lemma fmlookup_scan_env:
  "fmlookup (m ++\<^sub>f extraEnv extra) k =
     (case fmlookup extra k of Some v \<Rightarrow> Some (env_value k v) | None \<Rightarrow> fmlookup m k)"
  by (cases "fmlookup extra k") (auto simp: fmdom_notI fmdomI extraEnv_def)

text \<open>
  C33: The environment of the scan pod lists each variable once, in the order of their names. An
  extra variable wins over everything; then comes the last variable of the build container that is
  to be copied, with its source; then the four variables of the scanner. Nothing else is in it. One
  of the four is \<open>LAGOON_BUILD_NAME\<close>, which the code always adds and the expectations of
  \<open>Test_generateScanPodSpec\<close> in \<open>build_controller_test.go\<close> leave out.
\<close>

theorem scan_pod_environment:
  assumes "generateScanPodSpec pod images img host extra = Returns (Inr spec)"
  shows "\<exists>container rest scanner. Containers pod = container # rest \<and> Containers spec = [scanner] \<and>
    sorted (map EnvVarName (Env scanner)) \<and> distinct (map EnvVarName (Env scanner)) \<and>
    map_of (map (\<lambda>e. (EnvVarName e, e)) (Env scanner)) k =
      (case fmlookup extra k of
         Some v \<Rightarrow> Some (env_value k v)
       | None \<Rightarrow>
           (case find (\<lambda>e. EnvVarName e = k)
               (rev (filter (\<lambda>e. containsRegex copyVars (EnvVarName e)) (Env container))) of
              Some e \<Rightarrow> Some e
            | None \<Rightarrow> fmlookup (ownEnv pod images host) k))"
  using assms
proof (rule generateScanPodSpec_env)
  fix container rest m
  assume c: "Containers pod = container # rest" and spec: "spec = scanPod pod img (envSlice m)"
    and named: "named_env m"
    and m: "m = copyEnv (Env container) (ownEnv pod images host) ++\<^sub>f extraEnv extra"
  have "sorted (map EnvVarName (envSlice m))" "distinct (map EnvVarName (envSlice m))"
    unfolding names_envSlice [OF named] by (simp_all add: sorted_list_of_fset.rep_eq)
  moreover have "map_of (map (\<lambda>e. (EnvVarName e, e)) (envSlice m)) k =
      (case fmlookup extra k of
         Some v \<Rightarrow> Some (env_value k v)
       | None \<Rightarrow>
           (case find (\<lambda>e. EnvVarName e = k)
               (rev (filter (\<lambda>e. containsRegex copyVars (EnvVarName e)) (Env container))) of
              Some e \<Rightarrow> Some e
            | None \<Rightarrow> fmlookup (ownEnv pod images host) k))"
    by (subst map_of_envSlice [OF named]) (simp only: m fmlookup_scan_env fmlookup_copyEnv)
  ultimately show ?thesis
    using c by (auto simp: spec scanPod_def)
qed

lemma ex_generate:
  "\<exists>spec. generateScanPodSpec ex_build_pod [''nginx:1'', ''php:8''] ''scanner'' ''host''
     (fmap_of_list [(''NAMESPACE'', ''overridden'')]) = Returns (Inr spec)"
  by (simp add: generateScanPodSpec_def ex_build_pod_def)

theorem scan_pod_environment_witness:
  "\<exists>spec container rest scanner.
    generateScanPodSpec ex_build_pod [''nginx:1'', ''php:8''] ''scanner'' ''host''
     (fmap_of_list [(''NAMESPACE'', ''overridden'')]) = Returns (Inr spec) \<and>
    Containers ex_build_pod = container # rest \<and> Containers spec = [scanner] \<and>
    map_of (map (\<lambda>e. (EnvVarName e, e)) (Env scanner)) ''NAMESPACE'' =
      Some (env_value ''NAMESPACE'' ''overridden'')"
proof -
  obtain spec where spec: "generateScanPodSpec ex_build_pod [''nginx:1'', ''php:8''] ''scanner'' ''host''
     (fmap_of_list [(''NAMESPACE'', ''overridden'')]) = Returns (Inr spec)"
    using ex_generate by blast
  from scan_pod_environment [OF this, of "''NAMESPACE''"] spec show ?thesis
    by (auto simp: fmlookup_of_list)
qed

text \<open>
  C34: Which names the scan pod gets from the build container is decided by the ten regular
  expressions: an ASCII name is in the environment of the scan pod if and only if it is an extra
  variable, one of the four of the scanner, or the name of a variable of the first build container
  that, whatever its case, is one of nine names or a feature flag with a non-empty, one-line rest.
  So \<open>LAGOON_BUILD_NAME\<close> is in every scan pod, although the repository's test expects it in none.
\<close>

theorem copied_names:
  assumes "generateScanPodSpec pod images img host extra = Returns (Inr spec)"
    and "list_all ascii k"
  shows "k \<in> EnvVarName ` set (Env (hd (Containers spec))) \<longleftrightarrow>
    k |\<in>| fmdom extra \<or>
    k \<in> {''INSIGHT_SCAN_IMAGES'', ''NAMESPACE'', ''DOCKER_HOST'', ''LAGOON_BUILD_NAME''} \<or>
    k \<in> EnvVarName ` set (Env (hd (Containers pod))) \<and>
    (map upper k \<in> set exactCopyVars \<or>
     length featureFlagPrefix < length k \<and>
     map upper (take (length featureFlagPrefix) k) = featureFlagPrefix \<and>
     CHR 0x0A \<notin> set (drop (length featureFlagPrefix) k))"
  using assms(1)
proof (rule generateScanPodSpec_env)
  fix container rest m
  assume c: "Containers pod = container # rest" and spec: "spec = scanPod pod img (envSlice m)"
    and named: "named_env m"
    and m: "m = copyEnv (Env container) (ownEnv pod images host) ++\<^sub>f extraEnv extra"
  have copied: "find (\<lambda>e. EnvVarName e = k)
        (rev (filter (\<lambda>e. containsRegex copyVars (EnvVarName e)) (Env container))) \<noteq> None \<longleftrightarrow>
      k \<in> EnvVarName ` set (Env container) \<and> containsRegex copyVars k"
    by (auto simp: find_None_iff)
  have "k \<in> EnvVarName ` set (Env (hd (Containers spec))) \<longleftrightarrow> fmlookup m k \<noteq> None"
    using arg_cong [OF names_envSlice [OF named], of set]
    by (simp add: spec scanPod_def sorted_list_of_fset.rep_eq fmlookup_dom_iff)
  also have "\<dots> \<longleftrightarrow> k |\<in>| fmdom extra \<or> fmlookup (ownEnv pod images host) k \<noteq> None \<or>
      k \<in> EnvVarName ` set (Env container) \<and> containsRegex copyVars k"
    using copied
    by (auto simp: m fmlookup_scan_env fmlookup_copyEnv fmlookup_dom_iff split: option.splits)
  finally show ?thesis
    by (auto simp: c containsRegex_copyVars [OF assms(2)] ownEnv_def fmlookup_of_list)
qed

theorem copied_names_witness:
  "\<exists>spec. generateScanPodSpec ex_build_pod [''nginx:1'', ''php:8''] ''scanner'' ''host''
     (fmap_of_list [(''NAMESPACE'', ''overridden'')]) = Returns (Inr spec) \<and>
    ''lagoon_feature_flag_x'' \<in> EnvVarName ` set (Env (hd (Containers spec))) \<and>
    ''SECRET'' \<notin> EnvVarName ` set (Env (hd (Containers spec)))"
proof -
  obtain spec where spec: "generateScanPodSpec ex_build_pod [''nginx:1'', ''php:8''] ''scanner'' ''host''
     (fmap_of_list [(''NAMESPACE'', ''overridden'')]) = Returns (Inr spec)"
    using ex_generate by blast
  have "list_all ascii ''lagoon_feature_flag_x''" "list_all ascii ''SECRET''"
    by (simp_all add: ascii_def)
  note names = this [THEN copied_names [OF spec]]
  have "length featureFlagPrefix < length ''lagoon_feature_flag_x'' \<and>
      map upper (take (length featureFlagPrefix) ''lagoon_feature_flag_x'') = featureFlagPrefix \<and>
      CHR 0x0A \<notin> set (drop (length featureFlagPrefix) ''lagoon_feature_flag_x'')"
    "\<not> (map upper ''SECRET'' \<in> set exactCopyVars \<or> length featureFlagPrefix < length ''SECRET'')"
    by code_simp+
  moreover have "''lagoon_feature_flag_x'' \<in> EnvVarName ` set (Env (hd (Containers ex_build_pod)))"
    by (simp add: ex_build_pod_def ex_env_def env_value_def)
  ultimately show ?thesis
    using spec names by (intro exI [of _ spec]) simp
qed

end
