(* ===== verification/Flags.thy ===== *)
theory Flags
  imports Startup
begin

text \<open>
  The command line of \<open>cmd/main.go\<close>: the flags as \<open>main\<close> declares them, and \<open>flag.Parse\<close> on them.
  A variable that a flag points to is a pair of a reader and a writer of the settings. The flags
  that the logging package and the Kubernetes client add to the same command line are a parameter.
  The locale \<open>flag_value\<close> is what the kinds of values promise: what is printed is read back.
\<close>

section \<open>Integers with a base prefix\<close>

text \<open>
  \<open>strconv.ParseInt(s, 0, bits)\<close>, which the integer flags use: the base is the prefix of the text,
  and underscores may separate digits.
\<close>

definition alnum_val :: "char \<Rightarrow> nat option" where
  "alnum_val c =
     (let n = of_char c :: nat in
      if 48 \<le> n \<and> n \<le> 57 then Some (n - 48)
      else if 97 \<le> n \<and> n \<le> 122 then Some (n - 87)
      else if 65 \<le> n \<and> n \<le> 90 then Some (n - 55)
      else None)"

fun parse_digits :: "nat \<Rightarrow> nat \<Rightarrow> nat \<Rightarrow> string \<Rightarrow> num_error + nat" where
  "parse_digits base maxVal n [] = Inr n"
| "parse_digits base maxVal n (c # cs) =
     (if c = CHR ''_'' then parse_digits base maxVal n cs
      else case alnum_val c of
        None \<Rightarrow> Inl ErrSyntax
      | Some d \<Rightarrow>
          if d \<ge> base then Inl ErrSyntax
          else if n * base + d > maxVal then Inl ErrRange
          else parse_digits base maxVal (n * base + d) cs)"

definition base_prefix :: "string \<Rightarrow> nat \<times> string" where
  "base_prefix s =
     (if take 1 s = ''0''
      then
        if length s \<ge> 3 \<and> s ! 1 \<in> {CHR ''b'', CHR ''B''} then (2, drop 2 s)
        else if length s \<ge> 3 \<and> s ! 1 \<in> {CHR ''o'', CHR ''O''} then (8, drop 2 s)
        else if length s \<ge> 3 \<and> s ! 1 \<in> {CHR ''x'', CHR ''X''} then (16, drop 2 s)
        else (8, drop 1 s)
      else (10, s))"

text \<open>Underscores only between digits, or between the base prefix and a digit.\<close>

datatype saw = SawStart | SawDigit | SawUnderscore | SawOther

definition hex_letter :: "char \<Rightarrow> bool" where
  "hex_letter c = (case alnum_val c of None \<Rightarrow> False | Some d \<Rightarrow> 10 \<le> d \<and> d < 16)"

fun underscores :: "bool \<Rightarrow> saw \<Rightarrow> string \<Rightarrow> bool" where
  "underscores hex saw [] = (saw \<noteq> SawUnderscore)"
| "underscores hex saw (c # cs) =
     (if digit_val c \<noteq> None \<or> hex \<and> hex_letter c then underscores hex SawDigit cs
      else if c = CHR ''_'' then saw = SawDigit \<and> underscores hex SawUnderscore cs
      else saw \<noteq> SawUnderscore \<and> underscores hex SawOther cs)"

definition underscoreOK :: "string \<Rightarrow> bool" where
  "underscoreOK s0 =
     (let s = if take 1 s0 \<in> {''-'', ''+''} then drop 1 s0 else s0
      in if length s \<ge> 2 \<and> s ! 0 = CHR ''0'' \<and>
            s ! 1 \<in> {CHR ''b'', CHR ''B'', CHR ''o'', CHR ''O'', CHR ''x'', CHR ''X''}
         then underscores (s ! 1 \<in> {CHR ''x'', CHR ''X''}) SawDigit (drop 2 s)
         else underscores False SawStart s)"

definition ParseUint0 :: "nat \<Rightarrow> string \<Rightarrow> num_error + nat" where
  "ParseUint0 bits s =
     (if s = '''' then Inl ErrSyntax
      else case base_prefix s of (base, digits) \<Rightarrow>
        (case parse_digits base (2 ^ bits - 1) 0 digits of
           Inl err \<Rightarrow> Inl err
         | Inr n \<Rightarrow>
             if CHR ''_'' \<in> set digits \<and> \<not> underscoreOK s then Inl ErrSyntax else Inr n))"

definition ParseInt0 :: "nat \<Rightarrow> string \<Rightarrow> int \<times> num_error option" where
  "ParseInt0 bits s =
     (let neg = (take 1 s = ''-'')
      in case ParseUint0 bits (if take 1 s \<in> {''-'', ''+''} then drop 1 s else s) of
           Inl ErrSyntax \<Rightarrow> (0, Some ErrSyntax)
         | Inl ErrRange \<Rightarrow> signed_value bits neg (2 ^ bits - 1)
         | Inr un \<Rightarrow> signed_value bits neg un)"

lemma ParseInt0_examples:
  "ParseInt0 64 ''0x_1F'' = (31, None)" "ParseInt0 64 ''-0b11'' = (- 3, None)"
  "ParseInt0 64 ''010'' = (8, None)" "ParseInt0 64 ''1_000'' = (1000, None)"
  "ParseInt0 64 ''1__0'' = (0, Some ErrSyntax)" "ParseInt0 64 ''0'' = (0, None)"
  "ParseInt0 64 ''09'' = (0, Some ErrSyntax)" "ParseInt0 64 ''0x'' = (0, Some ErrSyntax)"
  "ParseInt0 64 ''9223372036854775808'' = (9223372036854775807, Some ErrRange)"
  by (simp_all add: ParseInt0_def ParseUint0_def base_prefix_def alnum_val_def underscoreOK_def
      digit_val_def hex_letter_def signed_value_def)

text \<open>A decimal number has no base prefix, zero apart.\<close>

lemma parse_digits_decimal:
  "list_all (\<lambda>c. digit_val c \<noteq> None) s \<Longrightarrow> parse_digits 10 M n s = parse_uint M n s"
proof (induction s arbitrary: n)
  case (Cons c s)
  from Cons.prems obtain d where d: "digit_val c = Some d" by auto
  then have "alnum_val c = Some d" "c \<noteq> CHR ''_''" "d < 10"
    by (auto simp: digit_val_def alnum_val_def Let_def split: if_splits)
  with Cons d show ?case by simp
qed simp

lemma format_nat_head: "0 < n \<Longrightarrow> \<exists>c cs. format_nat n = c # cs \<and> c \<noteq> CHR ''0''"
proof (induction n rule: format_nat.induct)
  case (1 n)
  show ?case
  proof (cases "n < 10")
    case True
    then have "digit_val (digit_char n) = Some n" by simp
    with "1.prems" have "digit_char n \<noteq> CHR ''0''" by (auto simp: digit_val_def)
    with True show ?thesis by (simp add: format_nat.simps [of n])
  next
    case False
    then have "0 < n div 10" by (simp add: div_greater_zero_iff)
    with "1.IH" False obtain c cs where "format_nat (n div 10) = c # cs" "c \<noteq> CHR ''0''" by blast
    with False show ?thesis by (simp add: format_nat.simps [of n])
  qed
qed

lemma format_nat_plain: "list_all (\<lambda>c. digit_val c \<noteq> None) (format_nat n)" "CHR ''_'' \<notin> set (format_nat n)"
proof -
  show "list_all (\<lambda>c. digit_val c \<noteq> None) (format_nat n)"
    using format_nat_digits by (fastforce simp: list_all_iff)
  show "CHR ''_'' \<notin> set (format_nat n)"
    using format_nat_digits [of "CHR ''_''" n] by (auto simp: digit_val_def)
qed

lemma format_nat_0: "format_nat 0 = ''0''"
  by code_simp

lemma ParseUint0_format:
  assumes "n \<le> 2 ^ bits - 1"
  shows "ParseUint0 bits (format_nat n) = Inr n"
proof (cases "n = 0")
  case True
  then show ?thesis by (simp add: ParseUint0_def base_prefix_def format_nat_0)
next
  case False
  then obtain c cs where "format_nat n = c # cs" "c \<noteq> CHR ''0''"
    using format_nat_head [of n] by auto
  then have "base_prefix (format_nat n) = (10, format_nat n)" by (simp add: base_prefix_def)
  moreover have "parse_digits 10 (2 ^ bits - 1) 0 (format_nat n) = Inr n"
    using parse_digits_decimal [OF format_nat_plain(1)] parse_format_nat [OF assms] by (simp only:)
  ultimately show ?thesis
    by (simp add: ParseUint0_def format_nat_plain(2) del: One_nat_def)
qed

lemma ParseInt0_FormatInt:
  assumes "0 < bits" and "fits bits n"
  shows "ParseInt0 bits (FormatInt n) = (n, None)"
proof (cases "n < 0")
  case True
  from assms(2) have "- n \<le> 2 ^ (bits - 1)" by (simp add: fits_def)
  with True have "nat (- n) \<le> 2 ^ (bits - 1)" by (simp add: nat_le_iff)
  also note half_range [OF assms(1)]
  finally show ?thesis
    using True \<open>- n \<le> 2 ^ (bits - 1)\<close>
    by (simp add: ParseInt0_def FormatInt_def ParseUint0_format signed_value_def)
next
  case False
  from assms(2) False have lt: "n < 2 ^ (bits - 1)" by (simp add: fits_def)
  then have "nat n \<le> 2 ^ (bits - 1)" using False by (simp add: nat_le_iff)
  also note half_range [OF assms(1)]
  finally show ?thesis
    using False lt take1_format_nat [of "nat n"]
    by (simp add: ParseInt0_def FormatInt_def ParseUint0_format signed_value_def)
qed

lemma ParseInt0_fits: "0 < bits \<Longrightarrow> fits bits (fst (ParseInt0 bits s))"
  by (simp add: ParseInt0_def fits_signed_value fits_0 Let_def split: sum.split num_error.split)

interpretation prefixed: decimal_codec "ParseInt0 64" FormatInt "fits 64"
  by unfold_locales (simp_all add: ParseInt0_FormatInt ParseInt0_fits)

section \<open>Values of flags\<close>

text \<open>\<open>Set\<close> and \<open>String\<close> of the three kinds of values; a parse error is shortened to its reason.\<close>

definition SetBool :: "string \<Rightarrow> go_error + bool" where
  "SetBool s = (case ParseBool s of None \<Rightarrow> Inl (Error ''parse error'') | Some b \<Rightarrow> Inr b)"

definition FormatBool :: "bool \<Rightarrow> string" where
  "FormatBool b = (if b then ''true'' else ''false'')"

definition SetInt :: "string \<Rightarrow> go_error + int" where
  "SetInt s =
     (case ParseInt0 64 s of
        (n, None) \<Rightarrow> Inr n
      | (n, Some ErrSyntax) \<Rightarrow> Inl (Error ''parse error'')
      | (n, Some ErrRange) \<Rightarrow> Inl (Error ''value out of range''))"

definition SetString :: "string \<Rightarrow> go_error + string" where
  "SetString s = Inr s"

text \<open>The variable a flag points to.\<close>

record 'a variable =
  load :: "settings \<Rightarrow> 'a"
  store :: "'a \<Rightarrow> settings \<Rightarrow> settings"

definition pointer ::
  "(settings \<Rightarrow> 'a) \<Rightarrow> (('a \<Rightarrow> 'a) \<Rightarrow> settings \<Rightarrow> settings) \<Rightarrow> 'a variable" where
  "pointer get upd = \<lparr>load = get, store = (\<lambda>v. upd (\<lambda>_. v))\<rparr>"

lemma pointer_simps [simp]:
  "load (pointer get upd) = get" "store (pointer get upd) v = upd (\<lambda>_. v)"
  by (simp_all add: pointer_def)

definition assign :: "(string \<Rightarrow> go_error + 'a) \<Rightarrow> 'a variable \<Rightarrow> string \<Rightarrow> settings \<Rightarrow> go_error + settings" where
  "assign set_value x v s =
     (case set_value v of Inl err \<Rightarrow> Inl err | Inr a \<Rightarrow> Inr (store x a s))"

locale flag_value =
  fixes set_value :: "string \<Rightarrow> go_error + 'a"
    and value_text :: "'a \<Rightarrow> string"
    and typed :: "'a \<Rightarrow> bool"
  assumes set_text: "typed v \<Longrightarrow> set_value (value_text v) = Inr v"
    and set_typed: "set_value s = Inr v \<Longrightarrow> typed v"
begin

lemma assign_text:
  "typed (load x s0) \<Longrightarrow> assign set_value x (value_text (load x s0)) s = Inr (store x (load x s0) s)"
  by (simp add: assign_def set_text)

lemma assign_typed:
  assumes "assign set_value x v s = Inr s'"
  obtains a where "typed a" "s' = store x a s"
  using assms set_typed by (auto simp: assign_def split: sum.splits)

text \<open>Whether a text is accepted does not depend on the settings.\<close>

lemma assign_cong:
  assumes "\<And>a. R (store x a s) (store x a s')"
  shows "rel_sum (=) R (assign set_value x v s) (assign set_value x v s')"
  using assms by (simp add: assign_def split: sum.split)

end

interpretation bool_flag: flag_value SetBool FormatBool "\<lambda>_. True"
  by unfold_locales (simp_all add: SetBool_def FormatBool_def ParseBool_def)

interpretation int_flag: flag_value SetInt FormatInt "fits 64"
proof
  fix s v
  assume "SetInt s = Inr v"
  then have "v = fst (ParseInt0 64 s)"
    by (auto simp: SetInt_def split: prod.splits option.splits num_error.splits)
  then show "fits 64 v" by (simp add: prefixed.parse_in_range)
qed (simp add: SetInt_def prefixed.parse_fmt)

interpretation string_flag: flag_value SetString id "\<lambda>_. True"
  by unfold_locales (simp_all add: SetString_def)

section \<open>The flags of the program\<close>

datatype go_flag =
    BoolVar "bool variable"
  | IntVar "int variable"
  | StringVar "string variable"
  | FuncFlag

text \<open>In the order of the declarations; \<open>FuncFlag\<close> is the repeatable one that calls \<open>parseKV\<close>.\<close>

definition program_flags :: "(string \<times> go_flag) list" where
  "program_flags =
     [(''enable-configmap-reconciler'', BoolVar (pointer EnableCMReconciler EnableCMReconciler_update)),
      (''burn-after-reading'', BoolVar (pointer BurnAfterReading BurnAfterReading_update)),
      (''clear-configmap-sched'', StringVar (pointer ClearConfigmapCronSched ClearConfigmapCronSched_update)),
      (''enable-insights-deferred'', BoolVar (pointer EnableInsightDeferred EnableInsightDeferred_update)),
      (''configmap-reconciler-max-retries'', IntVar (pointer CmReconcilerMaxRetries CmReconcilerMaxRetries_update)),
      (''configmap-reconciler-mins-between-retries'', IntVar (pointer CmReconcilerMinutesBetweenRetries CmReconcilerMinutesBetweenRetries_update)),
      (''configmap-reconciler-max-concurrent'', IntVar (pointer MaxConcurrentCMReconcilers MaxConcurrentCMReconcilers_update)),
      (''enable-namespace-reconciler'', BoolVar (pointer EnableNSReconciler EnableNSReconciler_update)),
      (''enable-webservice'', BoolVar (pointer EnableWebservice EnableWebservice_update)),
      (''webservice-port'', StringVar (pointer WebservicePort WebservicePort_update)),
      (''insights-token-secret'', StringVar (pointer InsightsTokenSecret InsightsTokenSecret_update)),
      (''token-target-label'', StringVar (pointer TokenTargetLabel TokenTargetLabel_update)),
      (''enable-dependency-track-integration'', BoolVar (pointer EnableDependencyTrack EnableDependencyTrack_update)),
      (''dependency-track-api-endpoint'', StringVar (pointer DependencyTrackApiEndpoint DependencyTrackApiEndpoint_update)),
      (''dependency-track-api-key'', StringVar (pointer DependencyTrackApiKey DependencyTrackApiKey_update)),
      (''dependency-track-root-project-name-template'', StringVar (pointer DtRootTemplate DtRootTemplate_update)),
      (''dependency-track-parent-project-name-template'', StringVar (pointer DtParentTemplate DtParentTemplate_update)),
      (''dependency-track-project-name-template'', StringVar (pointer DtProjectTemplate DtProjectTemplate_update)),
      (''dependency-track-version-template'', StringVar (pointer DtVersionTemplate DtVersionTemplate_update)),
      (''dependency-track-push-prod-only'', BoolVar (pointer DtPushProdDefault DtPushProdDefault_update)),
      (''leader-elect'', BoolVar (pointer EnableLeaderElection EnableLeaderElection_update)),
      (''metrics-bind-address'', StringVar (pointer MetricsAddr MetricsAddr_update)),
      (''metrics-secure'', BoolVar (pointer SecureMetrics SecureMetrics_update)),
      (''enable-http2'', BoolVar (pointer EnableHTTP2 EnableHTTP2_update)),
      (''health-probe-bind-address'', StringVar (pointer ProbeAddr ProbeAddr_update)),
      (''rabbitmq-enabled'', BoolVar (pointer MqEnable MqEnable_update)),
      (''rabbitmq-username'', StringVar (pointer MqUser MqUser_update)),
      (''rabbitmq-password'', StringVar (pointer MqPass MqPass_update)),
      (''rabbitmq-hostname'', StringVar (pointer MqHost MqHost_update)),
      (''rabbitmq-tls'', BoolVar (pointer MqTLS MqTLS_update)),
      (''rabbitmq-verify'', BoolVar (pointer MqVerify MqVerify_update)),
      (''rabbitmq-cacert'', StringVar (pointer MqCACert MqCACert_update)),
      (''rabbitmq-clientcert'', StringVar (pointer MqClientCert MqClientCert_update)),
      (''rabbitmq-clientkey'', StringVar (pointer MqClientKey MqClientKey_update)),
      (''rabbitmq-reconnect-retry-interval'', IntVar (pointer RabbitReconnectRetryInterval RabbitReconnectRetryInterval_update)),
      (''generate-token-only'', BoolVar (pointer GenerateTokenOnly GenerateTokenOnly_update)),
      (''generate-token-only-namespace'', StringVar (pointer TokenOnlyNamespace TokenOnlyNamespace_update)),
      (''generate-token-only-environment-id'', StringVar (pointer TokenOnlyEnvironmentId TokenOnlyEnvironmentId_update)),
      (''generate-token-only-project-name'', StringVar (pointer TokenOnlyProjectName TokenOnlyProjectName_update)),
      (''generate-token-only-environment-name'', StringVar (pointer TokenOnlyEnvironmentName TokenOnlyEnvironmentName_update)),
      (''enable-build-scanner'', BoolVar (pointer EnableBuildScanning EnableBuildScanning_update)),
      (''build-scanner-image'', StringVar (pointer BuildScannerImage BuildScannerImage_update)),
      (''build-scanner-extra-env'', FuncFlag)]"

text \<open>
  Flags declared by other packages on the same command line: whether it is a boolean flag, and the
  error its \<open>Set\<close> answers for a text. Their variables are not the program's.
\<close>

record other_flag =
  IsBoolFlag :: bool
  OtherSet :: "string \<Rightarrow> go_error option"

type_synonym other_flags = "string \<Rightarrow> other_flag option"

datatype formal = Own go_flag | Other other_flag

definition formal_flag :: "other_flags \<Rightarrow> string \<Rightarrow> formal option" where
  "formal_flag F name =
     (case map_of program_flags name of
        Some f \<Rightarrow> Some (Own f)
      | None \<Rightarrow> map_option Other (F name))"

fun isBoolFlag :: "formal \<Rightarrow> bool" where
  "isBoolFlag (Own (BoolVar x)) = True"
| "isBoolFlag (Own f) = False"
| "isBoolFlag (Other f) = IsBoolFlag f"

text \<open>What parsing changes: the settings and the extra variables of the scan pod.\<close>

type_synonym parsed = "settings \<times> (string, string) fmap"

fun setFlag :: "formal \<Rightarrow> string \<Rightarrow> parsed \<Rightarrow> go_error + parsed" where
  "setFlag (Own (BoolVar x)) v (s, extra) = map_sum id (\<lambda>s'. (s', extra)) (assign SetBool x v s)"
| "setFlag (Own (IntVar x)) v (s, extra) = map_sum id (\<lambda>s'. (s', extra)) (assign SetInt x v s)"
| "setFlag (Own (StringVar x)) v (s, extra) = map_sum id (\<lambda>s'. (s', extra)) (assign SetString x v s)"
| "setFlag (Own FuncFlag) v (s, extra) = map_sum id (\<lambda>extra'. (s, extra')) (parseKV v extra)"
| "setFlag (Other f) v p = (case OtherSet f v of None \<Rightarrow> Inr p | Some err \<Rightarrow> Inl err)"

section \<open>Parsing\<close>

text \<open>What one argument is; \<open>-name\<close> and \<open>--name\<close> are the same.\<close>

datatype argument = NotFlag | Terminator | BadSyntax | FlagArgument string "string option"

definition argument :: "string \<Rightarrow> argument" where
  "argument s =
     (if length s < 2 \<or> s ! 0 \<noteq> CHR ''-'' then NotFlag
      else if s = ''--'' then Terminator
      else
        let name = drop (if s ! 1 = CHR ''-'' then 2 else 1) s
        in if name ! 0 = CHR ''-'' \<or> name ! 0 = CHR ''='' then BadSyntax
           else case Cut name (CHR ''='') of
                  (n, v, hasValue) \<Rightarrow> FlagArgument n (if hasValue then Some v else None))"

datatype flag_error = ErrHelp | Failf string

text \<open>\<open>parseOne\<close>: \<open>None\<close> at the end of the flags, otherwise the arguments left and what is set.\<close>

definition set_or_fail ::
  "formal \<Rightarrow> string \<Rightarrow> string \<Rightarrow> string list \<Rightarrow> parsed \<Rightarrow> flag_error + (string list \<times> parsed) option" where
  "set_or_fail f value failure rest p =
     (case setFlag f value p of
        Inl err \<Rightarrow> Inl (Failf (failure @ '': '' @ error_text err))
      | Inr p' \<Rightarrow> Inr (Some (rest, p')))"

definition invalidBool :: "string \<Rightarrow> string \<Rightarrow> string" where
  "invalidBool value name = ''invalid boolean value '' @ go_quote value @ '' for -'' @ name"

definition invalidValue :: "string \<Rightarrow> string \<Rightarrow> string" where
  "invalidValue value name = ''invalid value '' @ go_quote value @ '' for flag -'' @ name"

fun parseOne ::
  "other_flags \<Rightarrow> string list \<Rightarrow> parsed \<Rightarrow> flag_error + (string list \<times> parsed) option" where
  "parseOne F [] p = Inr None"
| "parseOne F (s # args) p =
     (case argument s of
        NotFlag \<Rightarrow> Inr None
      | Terminator \<Rightarrow> Inr None
      | BadSyntax \<Rightarrow> Inl (Failf (''bad flag syntax: '' @ s))
      | FlagArgument name given \<Rightarrow>
          (case formal_flag F name of
             None \<Rightarrow>
               if name = ''help'' \<or> name = ''h'' then Inl ErrHelp
               else Inl (Failf (''flag provided but not defined: -'' @ name))
           | Some f \<Rightarrow>
               if isBoolFlag f
               then
                 (case given of
                    Some v \<Rightarrow> set_or_fail f v (invalidBool v name) args p
                  | None \<Rightarrow> set_or_fail f ''true'' (''invalid boolean flag '' @ name) args p)
               else
                 (case (given, args) of
                    (Some v, _) \<Rightarrow> set_or_fail f v (invalidValue v name) args p
                  | (None, v # args') \<Rightarrow> set_or_fail f v (invalidValue v name) args' p
                  | (None, []) \<Rightarrow> Inl (Failf (''flag needs an argument: -'' @ name)))))"

lemma parseOne_shorter: "parseOne F args p = Inr (Some (args', p')) \<Longrightarrow> length args' < length args"
  by (cases args)
    (auto simp: set_or_fail_def split: argument.splits option.splits if_splits list.splits sum.splits)

text \<open>The loop of \<open>flag.Parse\<close>; the arguments it leaves are not looked at by the program.\<close>

function flag_Parse :: "other_flags \<Rightarrow> string list \<Rightarrow> parsed \<Rightarrow> flag_error + parsed" where
  "flag_Parse F args p =
     (case parseOne F args p of
        Inl err \<Rightarrow> Inl err
      | Inr None \<Rightarrow> Inr p
      | Inr (Some (args', p')) \<Rightarrow> flag_Parse F args' p')"
  by pat_completeness auto
termination
  by (relation "measure (\<lambda>(F, args, p). length args)") (auto dest: parseOne_shorter)

declare flag_Parse.simps [simp del]

definition flag_defaults :: parsed where
  "flag_defaults = (default_settings, fmempty)"

section \<open>The extra variables\<close>

lemma envVarNameRe_matches:
  "matches envVarNameRe k \<longleftrightarrow> (\<exists>c cs. k = c # cs \<and> alpha c \<and> list_all alnum cs)"
  by (cases k) (auto simp: envVarNameRe_def matches_Star_Byte)

definition valid_names :: "(string, string) fmap \<Rightarrow> bool" where
  "valid_names m \<longleftrightarrow> (\<forall>k. fmlookup m k \<noteq> None \<longrightarrow> matches envVarNameRe k)"

lemma parseKV_valid: "parseKV s m = Inr m' \<Longrightarrow> valid_names m \<Longrightarrow> valid_names m'"
  by (auto simp: parseKV_def valid_names_def Let_def split: prod.splits if_splits)

lemma parseKVs_valid: "parseKVs ss m = Inr m' \<Longrightarrow> valid_names m \<Longrightarrow> valid_names m'"
  by (induction ss arbitrary: m) (auto split: sum.splits dest: parseKV_valid)

text \<open>A pair that is written as the code expects it is read back.\<close>

lemma alnum_graphic: "alnum c \<Longrightarrow> graphic c \<and> c \<noteq> CHR ''='' \<and> c \<noteq> CHR '',''"
  by (auto simp: alnum_def alpha_def graphic_def Let_def)

lemma valid_name_chars:
  assumes "matches envVarNameRe k"
  shows "k \<noteq> []" "list_all graphic k" "CHR ''='' \<notin> set k" "CHR '','' \<notin> set k"
proof -
  from assms have "k \<noteq> []" "list_all alnum k"
    by (auto simp: envVarNameRe_matches alnum_def)
  then show "k \<noteq> []" "list_all graphic k" "CHR ''='' \<notin> set k" "CHR '','' \<notin> set k"
    using alnum_graphic by (auto simp: list_all_iff)
qed

definition kv_entry :: "string \<times> string \<Rightarrow> string" where
  "kv_entry kv = fst kv @ ''='' @ snd kv"

definition plain_pair :: "string \<times> string \<Rightarrow> bool" where
  "plain_pair kv \<longleftrightarrow>
     matches envVarNameRe (fst kv) \<and> list_all graphic (snd kv) \<and> CHR '','' \<notin> set (snd kv)"

lemma kv_entry_chars:
  assumes "plain_pair kv"
  shows "list_all graphic (kv_entry kv)" "kv_entry kv \<noteq> []" "CHR '','' \<notin> set (kv_entry kv)"
proof -
  from assms have k: "matches envVarNameRe (fst kv)" by (simp add: plain_pair_def)
  from assms valid_name_chars [OF k]
  show "list_all graphic (kv_entry kv)" "kv_entry kv \<noteq> []" "CHR '','' \<notin> set (kv_entry kv)"
    by (auto simp: kv_entry_def plain_pair_def graphic_def)
qed

lemma parseKV_entry:
  assumes "plain_pair kv"
  shows "parseKV (kv_entry kv) m = Inr (fmupd (fst kv) (snd kv) m)"
proof -
  from assms have k: "matches envVarNameRe (fst kv)" by (simp add: plain_pair_def)
  note chars = valid_name_chars [OF k]
  from chars(3) have "Cut (kv_entry kv) (CHR ''='') = (fst kv, snd kv, True)"
    by (simp add: Cut_found kv_entry_def)
  with chars k kv_entry_chars(1) [OF assms] show ?thesis
    by (simp add: parseKV_def TrimSpace_graphic del: matches.simps)
qed

lemma parseKVs_entries:
  "list_all plain_pair kvs \<Longrightarrow>
     parseKVs (map kv_entry kvs) m = Inr (m ++\<^sub>f fmap_of_list (rev kvs))"
proof (induction kvs arbitrary: m)
  case (Cons kv kvs)
  have "fmupd (fst kv) (snd kv) m ++\<^sub>f fmap_of_list (rev kvs) = m ++\<^sub>f fmap_of_list (rev (kv # kvs))"
    by (rule fmap_ext) (auto simp: fmlookup_of_list map_of_append map_add_def fmdom_notI fmdomI
        fmlookup_dom_iff split: option.splits)
  with Cons show ?case by (simp add: parseKV_entry)
qed simp

lemma envVarEntries_entries:
  assumes "list_all plain_pair kvs"
  shows "envVarEntries (Join (map kv_entry kvs) '','') = map kv_entry kvs"
proof (cases "kvs = []")
  case False
  let ?ss = "map kv_entry kvs"
  from assms have chars: "list_all graphic s \<and> s \<noteq> [] \<and> CHR '','' \<notin> set s" if "s \<in> set ?ss" for s
    using that kv_entry_chars by (auto simp: list_all_iff)
  then have split: "Split (Join ?ss '','') (CHR '','') = ?ss"
    using False by (intro Split_Join) auto
  moreover have "map TrimSpace ?ss = ?ss"
    by (rule map_idI) (use chars TrimSpace_graphic in blast)
  moreover have "filter (\<lambda>s. s \<noteq> '''') ?ss = ?ss"
    by (rule filter_True) (use chars in blast)
  moreover have "Join ?ss '','' \<noteq> ''''"
  proof
    assume "Join ?ss '','' = ''''"
    with split have "?ss = [[]]" by simp
    with chars [of "[]"] show False by simp
  qed
  ultimately show ?thesis unfolding envVarEntries_def by (simp del: map_map)
qed (simp add: envVarEntries_def)

section \<open>What the flags of the program are\<close>

lemma program_flags_distinct: "distinct (map fst program_flags)"
  by (simp add: program_flags_def)

lemma flag_of_name [simp]: "(name, f) \<in> set program_flags \<Longrightarrow> formal_flag F name = Some (Own f)"
  using program_flags_distinct by (simp add: formal_flag_def)

lemma formal_own: "formal_flag F name = Some (Own f) \<Longrightarrow> (name, f) \<in> set program_flags"
  by (auto simp: formal_flag_def dest: map_of_SomeD split: option.splits)

definition plain_name :: "string \<Rightarrow> bool" where
  "plain_name name \<longleftrightarrow> name \<noteq> '''' \<and> name ! 0 \<noteq> CHR ''-'' \<and> CHR ''='' \<notin> set name"

lemma program_flag_names: "(name, f) \<in> set program_flags \<Longrightarrow> plain_name name"
proof -
  have "list_all (\<lambda>(name, f). plain_name name) program_flags"
    by (simp add: program_flags_def plain_name_def)
  then show "(name, f) \<in> set program_flags \<Longrightarrow> plain_name name" by (auto simp: list_all_iff)
qed

lemma argument_with_value:
  assumes "plain_name name"
  shows "argument (''-'' @ name @ ''='' @ v) = FlagArgument name (Some v)"
proof -
  from assms obtain c cs where name: "name = c # cs" "c \<noteq> CHR ''-''" "CHR ''='' \<notin> set name"
    by (cases name) (auto simp: plain_name_def)
  from name(3) have "Cut (name @ ''='' @ v) (CHR ''='') = (name, v, True)"
    unfolding Cut_found by simp
  with name show ?thesis by (auto simp: argument_def simp del: Cut.simps)
qed

text \<open>The integer variables.\<close>

lemma int_flags:
  "(name, IntVar x) \<in> set program_flags \<Longrightarrow>
     x \<in> {pointer CmReconcilerMaxRetries CmReconcilerMaxRetries_update,
       pointer CmReconcilerMinutesBetweenRetries CmReconcilerMinutesBetweenRetries_update,
       pointer MaxConcurrentCMReconcilers MaxConcurrentCMReconcilers_update,
       pointer RabbitReconnectRetryInterval RabbitReconnectRetryInterval_update}"
  unfolding program_flags_def by simp blast

section \<open>Whatever is parsed has the type of its variable\<close>

definition typed_settings :: "settings \<Rightarrow> bool" where
  "typed_settings s \<longleftrightarrow>
     fits 64 (CmReconcilerMaxRetries s) \<and> fits 64 (CmReconcilerMinutesBetweenRetries s) \<and>
     fits 64 (MaxConcurrentCMReconcilers s) \<and> fits 64 (RabbitReconnectRetryInterval s)"

definition typed_parsed :: "parsed \<Rightarrow> bool" where
  "typed_parsed p \<longleftrightarrow> typed_settings (fst p) \<and> valid_names (snd p)"

lemma typed_defaults: "typed_parsed flag_defaults"
  by (simp add: typed_parsed_def flag_defaults_def typed_settings_def default_settings_def fits_def
      valid_names_def)

lemma store_typed:
  assumes "typed_settings s"
  shows "(name, BoolVar x) \<in> set program_flags \<Longrightarrow> typed_settings (store x b s)"
    and "(name, StringVar y) \<in> set program_flags \<Longrightarrow> typed_settings (store y t s)"
    and "(name, IntVar z) \<in> set program_flags \<Longrightarrow> fits 64 n \<Longrightarrow> typed_settings (store z n s)"
  using assms by (auto simp: program_flags_def typed_settings_def)

lemma setFlag_typed:
  assumes "formal_flag F name = Some f" and "setFlag f v p = Inr p'" and "typed_parsed p"
  shows "typed_parsed p'"
proof (cases f)
  case (Own g)
  with assms(1) have g: "(name, g) \<in> set program_flags" by (auto dest: formal_own)
  obtain s extra where p: "p = (s, extra)" by fastforce
  show ?thesis
  proof (cases g)
    case (BoolVar x)
    with assms(2,3) g Own p store_typed(1) show ?thesis
      by (auto simp: typed_parsed_def map_sum_def split: sum.splits elim!: bool_flag.assign_typed)
  next
    case (IntVar x)
    with assms(2,3) g Own p store_typed(3) show ?thesis
      by (auto simp: typed_parsed_def map_sum_def split: sum.splits elim!: int_flag.assign_typed)
  next
    case (StringVar x)
    with assms(2,3) g Own p store_typed(2) show ?thesis
      by (auto simp: typed_parsed_def map_sum_def split: sum.splits elim!: string_flag.assign_typed)
  next
    case FuncFlag
    with assms(2,3) Own p show ?thesis
      by (auto simp: typed_parsed_def map_sum_def split: sum.splits dest: parseKV_valid)
  qed
next
  case (Other f')
  with assms(2,3) show ?thesis by (auto split: option.splits)
qed

text \<open>A step of the loop either stops or sets one flag.\<close>

lemma parseOne_sets:
  assumes "parseOne F args p = Inr (Some (args', p'))"
  obtains name f v where "formal_flag F name = Some f" "setFlag f v p = Inr p'"
proof (cases args)
  case (Cons s args1)
  with assms show thesis
    by (auto simp: set_or_fail_def intro: that
        split: argument.splits option.splits if_splits list.splits sum.splits)
qed (use assms in simp)

lemma flag_Parse_typed:
  "flag_Parse F args p = Inr p' \<Longrightarrow> typed_parsed p \<Longrightarrow> typed_parsed p'"
proof (induction F args p rule: flag_Parse.induct)
  case (1 F args p)
  from "1.prems"(1) show ?case
  proof (subst (asm) flag_Parse.simps, cases "parseOne F args p", goal_cases)
    case (2 r)
    with "1.prems"(2) "1.IH" show ?case
      by (cases r) (auto elim!: parseOne_sets dest: setFlag_typed)
  qed simp
qed

section \<open>A command line for any settings\<close>

fun flagArgument :: "settings \<Rightarrow> string \<times> go_flag \<Rightarrow> string list" where
  "flagArgument s (name, BoolVar x) = [''-'' @ name @ ''='' @ FormatBool (load x s)]"
| "flagArgument s (name, IntVar x) = [''-'' @ name @ ''='' @ FormatInt (load x s)]"
| "flagArgument s (name, StringVar x) = [''-'' @ name @ ''='' @ load x s]"
| "flagArgument s (name, FuncFlag) = []"

definition extraArgument :: "string \<times> string \<Rightarrow> string" where
  "extraArgument kv = ''-build-scanner-extra-env='' @ kv_entry kv"

definition commandLine :: "settings \<Rightarrow> (string \<times> string) list \<Rightarrow> string list" where
  "commandLine s kvs =
     concat (map (flagArgument s) program_flags) @ map extraArgument kvs"

fun copyFlag :: "settings \<Rightarrow> string \<times> go_flag \<Rightarrow> settings \<Rightarrow> settings" where
  "copyFlag s0 (name, BoolVar x) s = store x (load x s0) s"
| "copyFlag s0 (name, IntVar x) s = store x (load x s0) s"
| "copyFlag s0 (name, StringVar x) s = store x (load x s0) s"
| "copyFlag s0 (name, FuncFlag) s = s"

lemma flag_Parse_value:
  assumes "plain_name name" and "formal_flag F name = Some f" and "setFlag f v p = Inr p'"
  shows "flag_Parse F ((''-'' @ name @ ''='' @ v) # args) p = flag_Parse F args p'"
proof -
  have "parseOne F ((''-'' @ name @ ''='' @ v) # args) p = Inr (Some (args, p'))"
    unfolding parseOne.simps argument_with_value [OF assms(1)] using assms(2,3)
    by (simp add: set_or_fail_def)
  then show ?thesis by (subst flag_Parse.simps) simp
qed

lemma flag_Parse_flag:
  assumes "typed_settings s0" and "nf \<in> set program_flags"
  shows "flag_Parse F (flagArgument s0 nf @ args) (s, extra) = flag_Parse F args (copyFlag s0 nf s, extra)"
proof -
  obtain name f where nf: "nf = (name, f)" by fastforce
  with assms(2) have plain: "plain_name name" and formal: "formal_flag F name = Some (Own f)"
    by (auto dest: program_flag_names)
  show ?thesis
  proof (cases f)
    case (BoolVar x)
    with nf flag_Parse_value [OF plain formal] show ?thesis by (simp add: bool_flag.assign_text)
  next
    case (IntVar x)
    with assms nf have "fits 64 (load x s0)" by (auto simp: typed_settings_def dest!: int_flags)
    with IntVar nf flag_Parse_value [OF plain formal] show ?thesis by (simp add: int_flag.assign_text)
  next
    case (StringVar x)
    from string_flag.assign_text [of x s0 s] have "assign SetString x (load x s0) s = Inr (store x (load x s0) s)"
      by simp
    with StringVar nf flag_Parse_value [OF plain formal] show ?thesis by simp
  next
    case FuncFlag
    with nf show ?thesis by simp
  qed
qed

lemma flag_Parse_flags:
  assumes "typed_settings s0" and "set fs \<subseteq> set program_flags"
  shows "flag_Parse F (concat (map (flagArgument s0) fs) @ args) (s, extra) =
    flag_Parse F args (fold (copyFlag s0) fs s, extra)"
  using assms(2) by (induction fs arbitrary: s) (simp_all add: flag_Parse_flag [OF assms(1)])

lemma flag_Parse_extra:
  assumes "list_all plain_pair kvs"
  shows "flag_Parse F (map extraArgument kvs) (s, extra) = Inr (s, extra ++\<^sub>f fmap_of_list (rev kvs))"
proof -
  have func: "(''build-scanner-extra-env'', FuncFlag) \<in> set program_flags" by (simp add: program_flags_def)
  have step: "flag_Parse F (extraArgument kv # args) (s, extra) = flag_Parse F args (s, extra')"
    if "parseKV (kv_entry kv) extra = Inr extra'" for kv args extra extra'
    using that flag_Parse_value [OF program_flag_names [OF func] flag_of_name [OF func],
        of "kv_entry kv" "(s, extra)" "(s, extra')" F args]
    by (simp add: extraArgument_def)
  have "flag_Parse F (map extraArgument kvs) (s, extra) = Inr (s, extra')"
    if "parseKVs (map kv_entry kvs) extra = Inr extra'" for extra'
    using that
  proof (induction kvs arbitrary: extra)
    case (Cons kv kvs)
    then obtain extra1 where "parseKV (kv_entry kv) extra = Inr extra1"
      "parseKVs (map kv_entry kvs) extra1 = Inr extra'" by (auto split: sum.splits)
    with step Cons.IH show ?case by simp
  qed (simp add: flag_Parse.simps)
  with parseKVs_entries [OF assms] show ?thesis by blast
qed

lemma copy_all_flags: "fold (copyFlag s0) program_flags s = s0"
  by (simp add: program_flags_def)

lemma flag_Parse_commandLine:
  assumes "typed_settings s0" and "list_all plain_pair kvs"
  shows "flag_Parse F (commandLine s0 kvs) p = Inr (s0, snd p ++\<^sub>f fmap_of_list (rev kvs))"
  by (cases p) (simp add: commandLine_def flag_Parse_flags assms flag_Parse_extra copy_all_flags)

section \<open>Where an argument is read as a flag\<close>

text \<open>A flag that takes its value from the next argument.\<close>

definition takesNext :: "other_flags \<Rightarrow> string \<Rightarrow> bool" where
  "takesNext F s \<longleftrightarrow>
     (case argument s of
        FlagArgument name None \<Rightarrow> (case formal_flag F name of None \<Rightarrow> False | Some f \<Rightarrow> \<not> isBoolFlag f)
      | _ \<Rightarrow> False)"

text \<open>What ends the reading of flags: an argument that is none, the two dashes, bad syntax.\<close>

definition endsFlags :: "string \<Rightarrow> bool" where
  "endsFlags s \<longleftrightarrow> (case argument s of FlagArgument name given \<Rightarrow> False | _ \<Rightarrow> True)"

text \<open>After these arguments no flag is waiting for its value.\<close>

fun complete :: "other_flags \<Rightarrow> string list \<Rightarrow> bool" where
  "complete F [] = True"
| "complete F [s] = (\<not> takesNext F s)"
| "complete F (s # v # args) =
     (if endsFlags s then True
      else if takesNext F s then complete F args
      else complete F (v # args))"

text \<open>What an argument does, with its value if it takes one, is the same before any rest.\<close>

lemma parseOne_one:
  assumes "\<not> takesNext F s"
  shows "parseOne F (s # args) p =
    map_sum id (map_option (\<lambda>(_, p'). (args, p'))) (parseOne F [s] p)"
proof (cases "argument s")
  case (FlagArgument name given)
  show ?thesis
  proof (cases "formal_flag F name")
    case (Some f)
    with FlagArgument assms show ?thesis
      by (cases given) (simp_all add: takesNext_def set_or_fail_def split: sum.split)
  qed (simp add: FlagArgument)
qed simp_all

lemma parseOne_two:
  assumes "takesNext F s"
  shows "parseOne F (s # v # args) p =
    map_sum id (map_option (\<lambda>(_, p'). (args, p'))) (parseOne F [s, v] p)"
proof -
  from assms obtain name where arg: "argument s = FlagArgument name None"
    by (auto simp: takesNext_def split: argument.splits option.splits)
  with assms obtain f where "formal_flag F name = Some f" "\<not> isBoolFlag f"
    by (auto simp: takesNext_def split: option.splits)
  with arg show ?thesis by (simp add: set_or_fail_def split: sum.split)
qed

lemma parseOne_ends:
  "endsFlags s \<Longrightarrow> parseOne F (s # args) p = parseOne F [s] p"
  "endsFlags s \<Longrightarrow> parseOne F [s] p \<noteq> Inr (Some q)"
  by (auto simp: endsFlags_def split: argument.splits)

lemma flag_Parse_one:
  assumes "\<not> takesNext F s"
  shows "flag_Parse F (s # args) p =
    (case parseOne F [s] p of
       Inl err \<Rightarrow> Inl err
     | Inr None \<Rightarrow> Inr p
     | Inr (Some (_, p')) \<Rightarrow> flag_Parse F args p')"
  by (subst flag_Parse.simps, subst parseOne_one [OF assms])
    (auto split: sum.split option.split)

lemma flag_Parse_two:
  assumes "takesNext F s"
  shows "flag_Parse F (s # v # args) p =
    (case parseOne F [s, v] p of
       Inl err \<Rightarrow> Inl err
     | Inr None \<Rightarrow> Inr p
     | Inr (Some (_, p')) \<Rightarrow> flag_Parse F args p')"
  by (subst flag_Parse.simps, subst parseOne_two [OF assms])
    (auto split: sum.split option.split)

lemma flag_Parse_ends:
  assumes "endsFlags s"
  shows "flag_Parse F (s # args) p =
    (case parseOne F [s] p of Inl err \<Rightarrow> Inl err | Inr _ \<Rightarrow> Inr p)"
  by (subst flag_Parse.simps, subst parseOne_ends(1) [OF assms])
    (use parseOne_ends(2) [OF assms] in \<open>auto split: sum.split option.split\<close>)

text \<open>Settings that differ in the switch of the ConfigMap reconciler are not told apart by parsing.\<close>

definition switched_on :: "settings \<Rightarrow> settings" where
  "switched_on s = s\<lparr>EnableCMReconciler := True\<rparr>"

definition same_but_switch :: "parsed \<Rightarrow> parsed \<Rightarrow> bool" where
  "same_but_switch p p' \<longleftrightarrow> switched_on (fst p) = switched_on (fst p') \<and> snd p = snd p'"

lemma store_switched_on:
  "(name, BoolVar x) \<in> set program_flags \<Longrightarrow>
     switched_on (store x b (switched_on s)) = switched_on (store x b s)"
  "(name, StringVar y) \<in> set program_flags \<Longrightarrow>
     switched_on (store y t (switched_on s)) = switched_on (store y t s)"
  "(name, IntVar z) \<in> set program_flags \<Longrightarrow>
     switched_on (store z n (switched_on s)) = switched_on (store z n s)"
  by (auto simp: program_flags_def switched_on_def)

lemma store_same:
  assumes "same_but_switch (s, extra) (s', extra)"
  shows "(name, BoolVar x) \<in> set program_flags \<Longrightarrow>
      same_but_switch (store x b s, extra) (store x b s', extra)"
    and "(name, StringVar y) \<in> set program_flags \<Longrightarrow>
      same_but_switch (store y t s, extra) (store y t s', extra)"
    and "(name, IntVar z) \<in> set program_flags \<Longrightarrow>
      same_but_switch (store z n s, extra) (store z n s', extra)"
proof -
  from assms have same: "switched_on s = switched_on s'" by (simp add: same_but_switch_def)
  show "(name, BoolVar x) \<in> set program_flags \<Longrightarrow>
      same_but_switch (store x b s, extra) (store x b s', extra)"
    using store_switched_on(1) [of name x b s] store_switched_on(1) [of name x b s'] same
    by (simp add: same_but_switch_def)
  show "(name, StringVar y) \<in> set program_flags \<Longrightarrow>
      same_but_switch (store y t s, extra) (store y t s', extra)"
    using store_switched_on(2) [of name y t s] store_switched_on(2) [of name y t s'] same
    by (simp add: same_but_switch_def)
  show "(name, IntVar z) \<in> set program_flags \<Longrightarrow>
      same_but_switch (store z n s, extra) (store z n s', extra)"
    using store_switched_on(3) [of name z n s] store_switched_on(3) [of name z n s'] same
    by (simp add: same_but_switch_def)
qed

lemma setFlag_same:
  assumes "formal_flag F name = Some f" and "same_but_switch p p'"
  shows "rel_sum (=) same_but_switch (setFlag f v p) (setFlag f v p')"
proof (cases f)
  case (Own g)
  with assms(1) have g: "(name, g) \<in> set program_flags" by (auto dest: formal_own)
  obtain s s' extra where p: "p = (s, extra)" "p' = (s', extra)"
    using assms(2) by (cases p; cases p') (simp add: same_but_switch_def)
  note store = store_same [OF assms(2) [unfolded p]]
  show ?thesis
  proof (cases g)
    case (BoolVar x)
    with g Own p store(1) show ?thesis by (simp add: assign_def split: sum.split)
  next
    case (IntVar x)
    with g Own p store(3) show ?thesis by (simp add: assign_def split: sum.split)
  next
    case (StringVar x)
    with g Own p store(2) show ?thesis by (simp add: assign_def split: sum.split)
  next
    case FuncFlag
    with assms(2) Own p show ?thesis
      by (cases "parseKV v extra") (simp_all add: same_but_switch_def)
  qed
next
  case (Other f')
  with assms(2) show ?thesis by (simp split: option.split)
qed

lemma parseOne_same:
  assumes "same_but_switch p p'"
  shows "rel_sum (=) (rel_option (rel_prod (=) same_but_switch)) (parseOne F args p) (parseOne F args p')"
proof (cases args)
  case (Cons s args1)
  have "rel_sum (=) (rel_option (rel_prod (=) same_but_switch))
      (set_or_fail f v msg rest p) (set_or_fail f v msg rest p')"
    if "formal_flag F name = Some f" for name f v msg rest
    using setFlag_same [OF that assms, of v] by (auto simp: set_or_fail_def split: sum.splits)
  with Cons show ?thesis
    by (auto split: argument.split option.split list.split)
qed simp

lemma flag_Parse_same:
  "same_but_switch p p' \<Longrightarrow> rel_sum (=) same_but_switch (flag_Parse F args p) (flag_Parse F args p')"
proof (induction F args p arbitrary: p' rule: flag_Parse.induct)
  case (1 F args p)
  from parseOne_same [OF "1.prems", of F args] "1.IH" "1.prems" show ?case
    by (subst (1 2) flag_Parse.simps)
      (auto elim!: rel_sum.cases option.rel_cases split: sum.splits option.splits)
qed

text \<open>The switch as an argument: alone, or with one of the texts that are read as a boolean.\<close>

definition switch_argument :: "string \<Rightarrow> bool" where
  "switch_argument s \<longleftrightarrow>
     (case argument s of
        FlagArgument name None \<Rightarrow> name = ''enable-configmap-reconciler''
      | FlagArgument name (Some v) \<Rightarrow> name = ''enable-configmap-reconciler'' \<and> ParseBool v \<noteq> None
      | _ \<Rightarrow> False)"

lemma flag_Parse_switch_argument:
  assumes "switch_argument s"
  shows "\<exists>b. flag_Parse F (s # args) p =
    flag_Parse F args ((fst p)\<lparr>EnableCMReconciler := b\<rparr>, snd p)"
proof -
  let ?name = "''enable-configmap-reconciler''"
  let ?x = "pointer EnableCMReconciler EnableCMReconciler_update"
  have "(?name, BoolVar ?x) \<in> set program_flags" by (simp add: program_flags_def)
  then have flag: "formal_flag F ?name = Some (Own (BoolVar ?x))" by (rule flag_of_name)
  from assms obtain given where arg: "argument s = FlagArgument ?name given"
    and given: "case given of None \<Rightarrow> True | Some v \<Rightarrow> ParseBool v \<noteq> None"
    by (auto simp: switch_argument_def split: argument.splits option.splits)
  then obtain v b where v: "ParseBool v = Some b" and "given = Some v \<or> given = None \<and> v = ''true''"
    by (cases given) (auto simp: ParseBool_def)
  moreover have "setFlag (Own (BoolVar ?x)) v p = Inr ((fst p)\<lparr>EnableCMReconciler := b\<rparr>, snd p)"
    using v by (cases p) (simp add: assign_def SetBool_def)
  ultimately have "parseOne F (s # args) p =
      Inr (Some (args, (fst p)\<lparr>EnableCMReconciler := b\<rparr>, snd p))"
    unfolding parseOne.simps arg by (auto simp: flag set_or_fail_def)
  then show ?thesis by (intro exI [of _ b]) (simp add: flag_Parse.simps [of F "s # args"])
qed

lemma flag_Parse_switch:
  assumes "complete F pre" and "switch_argument s" and "same_but_switch p p'"
  shows "rel_sum (=) same_but_switch (flag_Parse F (pre @ s # post) p) (flag_Parse F (pre @ post) p')"
  using assms(1,3)
proof (induction F pre arbitrary: p p' rule: complete.induct)
  case (1 F)
  obtain b where b: "flag_Parse F (s # post) p =
      flag_Parse F post ((fst p)\<lparr>EnableCMReconciler := b\<rparr>, snd p)"
    using flag_Parse_switch_argument [OF assms(2)] by blast
  from 1(2) have "same_but_switch ((fst p)\<lparr>EnableCMReconciler := b\<rparr>, snd p) p'"
    by (simp add: same_but_switch_def switched_on_def)
  from flag_Parse_same [OF this] show ?case by (simp only: append_Nil b)
next
  case (2 F t)
  obtain b where b: "flag_Parse F (s # post) q =
      flag_Parse F post ((fst q)\<lparr>EnableCMReconciler := b q\<rparr>, snd q)" for q
    using flag_Parse_switch_argument [OF assms(2)] by metis
  have skip: "rel_sum (=) same_but_switch (flag_Parse F (s # post) q) (flag_Parse F post q')"
    if "same_but_switch q q'" for q q'
  proof -
    from that have "same_but_switch ((fst q)\<lparr>EnableCMReconciler := b q\<rparr>, snd q) q'"
      by (simp add: same_but_switch_def switched_on_def)
    then show ?thesis unfolding b by (rule flag_Parse_same)
  qed
  from 2(1) have t: "\<not> takesNext F t" by simp
  from parseOne_same [OF 2(2), of F "[t]"] skip 2(2) show ?case
    unfolding append_Cons append_Nil flag_Parse_one [OF t]
    by (auto elim!: rel_sum.cases option.rel_cases split: sum.splits option.splits)
next
  case (3 F t v args)
  consider (ends) "endsFlags t" | (two) "\<not> endsFlags t" "takesNext F t" | (one) "\<not> endsFlags t" "\<not> takesNext F t"
    by blast
  then show ?case
  proof cases
    case ends
    from parseOne_same [OF 3(4), of F "[t]"] 3(4) show ?thesis
      unfolding append_Cons flag_Parse_ends [OF ends]
      by (auto elim!: rel_sum.cases split: sum.splits)
  next
    case two
    from two 3(3) have "complete F args" by simp
    note IH = 3(1) [OF two this]
    from parseOne_same [OF 3(4), of F "[t, v]"] IH 3(4) show ?thesis
      unfolding append_Cons flag_Parse_two [OF two(2)]
      by (auto elim!: rel_sum.cases option.rel_cases split: sum.splits option.splits)
  next
    case one
    from one 3(3) have "complete F (v # args)" by simp
    note IH = 3(2) [OF one this, unfolded append_Cons]
    from parseOne_same [OF 3(4), of F "[t]"] IH 3(4) show ?thesis
      unfolding append_Cons flag_Parse_one [OF one(2)]
      by (auto elim!: rel_sum.cases option.rel_cases split: sum.splits option.splits)
  qed
qed

end
