(* ===== verification/Boot.thy ===== *)
theory Boot
  imports Flags
begin

text \<open>
  The second half of \<open>main\<close> in \<open>cmd/main.go\<close>: the token-only mode, the manager and its options,
  the registration of the enabled components, and the start. Creating the manager, registering
  with it and starting it are the parameter \<open>boot_env\<close>, as is the cron library; the calls made to
  them are the log of the run. A failed registration of a controller ends the process with status
  1; a cron schedule that does not parse and a web service that cannot listen are only logged.
\<close>

section \<open>The manager's options\<close>

text \<open>A TLS option changes the list of protocols of a \<open>tls.Config\<close>.\<close>

type_synonym tls_option = "string list \<Rightarrow> string list"

record metrics_options =
  MetricsBindAddress :: string
  SecureServing :: bool
  TLSOpts :: "tls_option list"
  AuthFilter :: bool

record manager_options =
  Metrics :: metrics_options
  HealthProbeBindAddress :: string
  LeaderElection :: bool
  LeaderElectionID :: string

definition disableHTTP2 :: tls_option where
  "disableHTTP2 nextProtos = [''http/1.1'']"

definition metricsServerOptions :: "settings \<Rightarrow> metrics_options" where
  "metricsServerOptions s =
     \<lparr>MetricsBindAddress = MetricsAddr s, SecureServing = SecureMetrics s,
      TLSOpts = (if \<not> EnableHTTP2 s then [disableHTTP2] else []),
      AuthFilter = SecureMetrics s\<rparr>"

definition managerOptions :: "settings \<Rightarrow> manager_options" where
  "managerOptions s =
     \<lparr>Metrics = metricsServerOptions s, HealthProbeBindAddress = ProbeAddr s,
      LeaderElection = EnableLeaderElection s, LeaderElectionID = ''ac8a682b.lagoon.sh''\<rparr>"

section \<open>Calls to the manager\<close>

datatype 'c boot_call =
    BNewManager manager_options
  | BConfigMapController "'c ConfigMapReconciler" "ConfigMap controller_setup"
  | BNamespaceController NamespaceReconciler "NamespaceObject controller_setup"
  | BBuildController BuildReconciler "Pod controller_setup"
  | BCronJob string "('c, unit) comp"
  | BServe string "(http_method \<times> string \<times> (http_request \<Rightarrow> ('c, response list) comp)) list"
  | BHealthzCheck string
  | BReadyzCheck string
  | BStart

text \<open>The answers: whether the manager could be made, a registration completed, and so on.\<close>

record ('b, 'c) boot_env =
  boot_answer :: "'c boot_call \<Rightarrow> 'b \<Rightarrow> (go_error + unit) \<times> 'b"

type_synonym ('b, 'c, 'a) boot = "('b, 'c boot_call, 'a) go"

definition ask :: "('b, 'c) boot_env \<Rightarrow> 'c boot_call \<Rightarrow> ('b, 'c, go_error + unit) boot" where
  "ask B call = invoke call (boot_answer B call)"

datatype exit = Exits nat string | PrintsToken string | Returned

definition or_exit ::
  "string \<Rightarrow> ('b, 'c, go_error + unit) boot \<Rightarrow> ('b, 'c, exit) boot \<Rightarrow> ('b, 'c, exit) boot" where
  "or_exit msg m k = attempt m (\<lambda>err. ret (Exits 1 msg)) (\<lambda>_. k)"

section \<open>Starting the components\<close>

text \<open>What the components run on: the outside of the controllers and the libraries.\<close>

record 'c platform =
  Env :: "'c environment"
  Jwt :: jwt_lib
  Json :: json_lib
  Dtrack :: deptrack_lib

text \<open>The web service listens in a goroutine of its own; the two jobs are handed to the scheduler.\<close>

definition startInsightsEndpoint :: "'c platform \<Rightarrow> string \<Rightarrow> bool \<Rightarrow> string \<Rightarrow> 'c boot_call" where
  "startInsightsEndpoint P insightsTokenSecret mqEnable addr =
     BServe addr (SetupRouter (Jwt P) (Json P) insightsTokenSecret (mqWriteObject (Env P)) mqEnable)"

definition startBurnAfterReadingCron :: "'c platform \<Rightarrow> string \<Rightarrow> 'c boot_call" where
  "startBurnAfterReadingCron P clearConfigmapCronSched =
     BCronJob clearConfigmapCronSched (burnAfterReadingJob (Env P))"

definition startInsightsDeferredClearCron :: "'c platform \<Rightarrow> string \<Rightarrow> 'c boot_call" where
  "startInsightsDeferredClearCron P clearConfigmapCronSched =
     BCronJob clearConfigmapCronSched (deferredClearJob (Env P))"

lemmas start_defs =
  startInsightsEndpoint_def startBurnAfterReadingCron_def startInsightsDeferredClearCron_def

definition registration :: "'c platform \<Rightarrow> 'c component \<Rightarrow> 'c boot_call" where
  "registration P part =
     (case part of
        ConfigMapController R n \<Rightarrow> BConfigMapController R (setupConfigMapController n)
      | BurnAfterReadingCron sched \<Rightarrow> startBurnAfterReadingCron P sched
      | DeferredClearCron sched \<Rightarrow> startInsightsDeferredClearCron P sched
      | NamespaceController R target \<Rightarrow> BNamespaceController R (setupNamespaceController target)
      | BuildController R \<Rightarrow> BBuildController R setupBuildController
      | InsightsEndpoint jwtSecret queueEnabled addr \<Rightarrow>
          startInsightsEndpoint P jwtSecret queueEnabled addr)"

text \<open>The message logged before \<open>os.Exit(1)\<close>; \<open>None\<close> for a component whose failure is ignored.\<close>

definition registrationError :: "'c component \<Rightarrow> string option" where
  "registrationError part =
     (case part of
        ConfigMapController R n \<Rightarrow> Some ''unable to create controller''
      | NamespaceController R target \<Rightarrow> Some ''unable to create controller''
      | BuildController R \<Rightarrow> Some ''unable to create build reconciler controller''
      | _ \<Rightarrow> None)"

fun startComponents ::
  "('b, 'c) boot_env \<Rightarrow> 'c platform \<Rightarrow> 'c component list \<Rightarrow> ('b, 'c, exit) boot
    \<Rightarrow> ('b, 'c, exit) boot" where
  "startComponents B P [] k = k"
| "startComponents B P (part # parts) k =
     (case registrationError part of
        Some msg \<Rightarrow> or_exit msg (ask B (registration P part)) (startComponents B P parts k)
      | None \<Rightarrow> bind (ask B (registration P part)) (\<lambda>_. startComponents B P parts k))"

definition startManager :: "('b, 'c) boot_env \<Rightarrow> ('b, 'c, exit) boot" where
  "startManager B =
     or_exit ''unable to set up health check'' (ask B (BHealthzCheck ''healthz''))
    (or_exit ''unable to set up ready check'' (ask B (BReadyzCheck ''readyz''))
    (or_exit ''problem running manager'' (ask B BStart)
    (ret Returned)))"

definition boot ::
  "('b, 'c) boot_env \<Rightarrow> 'c platform \<Rightarrow> settings \<Rightarrow> (string, string) fmap \<Rightarrow> ('b, 'c, exit) boot" where
  "boot B P s extra =
     or_exit ''unable to start manager'' (ask B (BNewManager (managerOptions s)))
    (startComponents B P (components (Env P) (Dtrack P) (json_marshal (Json P)) s extra)
    (startManager B))"

section \<open>The whole of main\<close>

definition tokenOnly :: "jwt_lib \<Rightarrow> settings \<Rightarrow> exit" where
  "tokenOnly L s =
     (if TokenOnlyEnvironmentName s = '''' \<or> TokenOnlyEnvironmentId s = '''' \<or>
         TokenOnlyProjectName s = '''' \<or> TokenOnlyNamespace s = ''''
      then Exits 1
        (''generate-token-only requires all of generate-token-only-environment-name, '' @
         ''generate-token-only-environment-id, generate-token-only-project-name and '' @
         ''generate-token-only-namespace to be set'')
      else
        (case GenerateTokenForNamespace L (InsightsTokenSecret s)
            \<lparr>TokenNamespace = TokenOnlyNamespace s, TokenEnvironmentId = TokenOnlyEnvironmentId s,
             TokenProjectName = TokenOnlyProjectName s,
             TokenEnvironmentName = TokenOnlyEnvironmentName s\<rparr> of
           (jwt, Some err) \<Rightarrow> Exits 1 (error_text err @ ''Unable to generate token'')
         | (jwt, None) \<Rightarrow> PrintsToken jwt))"

text \<open>All of \<open>main\<close> after the flags have been parsed.\<close>

definition mainParsed ::
  "('b, 'c) boot_env \<Rightarrow> 'c platform \<Rightarrow> env_lib \<Rightarrow> settings \<Rightarrow> (string, string) fmap
    \<Rightarrow> ('b, 'c, exit) boot" where
  "mainParsed B P V flags extra =
     (if GenerateTokenOnly flags then ret (tokenOnly (Jwt P) flags)
      else
        (case parseKVs (envVarEntries (GetEnv V ''BUILD_SCANNER_EXTRA_ENV_VARS'' '''')) extra of
           Inl err \<Rightarrow>
             ret (Exits 1 (''Invalid BUILD_SCANNER_EXTRA_ENV_VARS entry: '' @ error_text err))
         | Inr extra' \<Rightarrow> boot B P (env_overrides V flags) extra'))"

text \<open>
  The flag package ends the process itself: with status 0 after printing the usage that was asked
  for, with status 2 after an error, whose text is followed by the usage.
\<close>

definition main ::
  "('b, 'c) boot_env \<Rightarrow> 'c platform \<Rightarrow> env_lib \<Rightarrow> other_flags \<Rightarrow> string list \<Rightarrow> ('b, 'c, exit) boot" where
  "main B P V F args =
     (case flag_Parse F args flag_defaults of
        Inl ErrHelp \<Rightarrow> ret (Exits 0 '''')
      | Inl (Failf msg) \<Rightarrow> ret (Exits 2 msg)
      | Inr (flags, extra) \<Rightarrow> mainParsed B P V flags extra)"

lemma mainParsed_switch: "mainParsed B P V (switched_on flags) extra = mainParsed B P V flags extra"
proof -
  have "env_overrides V (switched_on flags) = env_overrides V flags"
    by (simp add: env_overrides_def switched_on_def)
  moreover have "tokenOnly L (switched_on flags) = tokenOnly L flags" for L
    by (simp add: tokenOnly_def switched_on_def del: One_nat_def)
  moreover have "GenerateTokenOnly (switched_on flags) = GenerateTokenOnly flags"
    by (simp add: switched_on_def)
  ultimately show ?thesis unfolding mainParsed_def by presburger
qed

lemma main_same:
  assumes "rel_sum (=) same_but_switch (flag_Parse F args flag_defaults) (flag_Parse F args' flag_defaults)"
  shows "main B P V F args = main B P V F args'"
  using assms
proof (cases rule: rel_sum.cases)
  case (1 err err')
  then show ?thesis by (simp add: main_def)
next
  case (2 p p')
  then have "mainParsed B P V (fst p) (snd p) = mainParsed B P V (fst p') (snd p')"
    unfolding same_but_switch_def by (metis mainParsed_switch)
  with 2 show ?thesis by (simp add: main_def case_prod_unfold)
qed

section \<open>The run follows one plan\<close>

text \<open>What the manager answers to calls made one after the other.\<close>

fun boot_answers :: "('b, 'c) boot_env \<Rightarrow> 'c boot_call list \<Rightarrow> 'b \<Rightarrow> (go_error + unit) list" where
  "boot_answers B [] b = []"
| "boot_answers B (call # cs) b =
     (case boot_answer B call b of (r, b') \<Rightarrow> r # boot_answers B cs b')"

text \<open>The start goes on if a cron job or the web service fails; everything else has to succeed.\<close>

definition must_succeed :: "'c boot_call \<Rightarrow> bool" where
  "must_succeed call =
     (case call of
        BCronJob sched job \<Rightarrow> False
      | BServe addr router \<Rightarrow> False
      | _ \<Rightarrow> True)"

definition accepted :: "'c boot_call \<Rightarrow> go_error + unit \<Rightarrow> bool" where
  "accepted call r \<longleftrightarrow> (if must_succeed call then r = Inr () else True)"

text \<open>
  A run that makes the calls of a plan in order: all of them, each accepted, or it stops with status
  1 right after the first one that had to succeed and did not.
\<close>

definition outcome ::
  "('b, 'c) boot_env \<Rightarrow> 'c boot_call list \<Rightarrow> 'b \<Rightarrow> exit exec \<Rightarrow> 'c boot_call list \<Rightarrow> bool" where
  "outcome B plan b res ws \<longleftrightarrow>
     res = Returns Returned \<and> ws = plan \<and> list_all2 accepted ws (boot_answers B ws b) \<or>
     (\<exists>msg cs call as err. res = Returns (Exits 1 msg) \<and> prefix ws plan \<and> ws = cs @ [call] \<and>
        boot_answers B ws b = as @ [Inl err] \<and> list_all2 accepted cs as \<and> must_succeed call)"

definition follows :: "('b, 'c) boot_env \<Rightarrow> ('b, 'c, exit) boot \<Rightarrow> 'c boot_call list \<Rightarrow> bool" where
  "follows B m plan \<longleftrightarrow>
     (\<forall>w. \<exists>ws. calls (snd (m w)) = calls w @ ws \<and> outcome B plan (outside w) (fst (m w)) ws)"

lemma ask_run:
  "ask B call w = (case boot_answer B call (outside w) of
     (r, b) \<Rightarrow> (Returns r, w\<lparr>outside := b, calls := calls w @ [call]\<rparr>))"
  by (simp add: ask_def invoke_def)

lemma outcome_Cons:
  assumes "outcome B plan b' res ws" and "boot_answer B call b = (r, b')" and "accepted call r"
  shows "outcome B (call # plan) b res (call # ws)"
  using assms(1) unfolding outcome_def
proof (elim disjE exE conjE)
  assume "res = Returns Returned" "ws = plan" "list_all2 accepted ws (boot_answers B ws b')"
  with assms(2,3) show "res = Returns Returned \<and> call # ws = call # plan \<and>
      list_all2 accepted (call # ws) (boot_answers B (call # ws) b) \<or>
     (\<exists>msg cs c as err. res = Returns (Exits 1 msg) \<and> prefix (call # ws) (call # plan) \<and>
        call # ws = cs @ [c] \<and> boot_answers B (call # ws) b = as @ [Inl err] \<and>
        list_all2 accepted cs as \<and> must_succeed c)" by simp
next
  fix msg cs c as err
  assume "res = Returns (Exits 1 msg)" "prefix ws plan" "ws = cs @ [c]"
    "boot_answers B ws b' = as @ [Inl err]" "list_all2 accepted cs as" "must_succeed c"
  with assms(2,3) show "res = Returns Returned \<and> call # ws = call # plan \<and>
      list_all2 accepted (call # ws) (boot_answers B (call # ws) b) \<or>
     (\<exists>msg cs c as err. res = Returns (Exits 1 msg) \<and> prefix (call # ws) (call # plan) \<and>
        call # ws = cs @ [c] \<and> boot_answers B (call # ws) b = as @ [Inl err] \<and>
        list_all2 accepted cs as \<and> must_succeed c)"
    by (intro disjI2 exI [of _ msg] exI [of _ "call # cs"] exI [of _ c] exI [of _ "r # as"]
        exI [of _ err]) simp
qed

lemma follows_after:
  assumes "follows B k plan" and "boot_answer B call (outside w) = (r, b)" and "accepted call r"
    and "w1 = w\<lparr>outside := b, calls := calls w @ [call]\<rparr>"
  shows "\<exists>ws. calls (snd (k w1)) = calls w @ ws \<and> outcome B (call # plan) (outside w) (fst (k w1)) ws"
proof -
  from assms(1) obtain ws where "calls (snd (k w1)) = calls w1 @ ws"
    and "outcome B plan (outside w1) (fst (k w1)) ws"
    unfolding follows_def by blast
  with assms(4) outcome_Cons [OF _ assms(2,3)] show ?thesis
    by (intro exI [of _ "call # ws"]) simp
qed

lemma follows_ret: "follows B (ret Returned) []"
  by (simp add: follows_def outcome_def ret_def)

lemma follows_or_exit:
  assumes k: "follows B k plan" and must: "must_succeed call"
  shows "follows B (or_exit msg (ask B call) k) (call # plan)"
  unfolding follows_def [of B "or_exit msg (ask B call) k"]
proof
  fix w :: "('a, 'b boot_call) world"
  obtain r b where ans: "boot_answer B call (outside w) = (r, b)" by fastforce
  show "\<exists>ws. calls (snd (or_exit msg (ask B call) k w)) = calls w @ ws \<and>
    outcome B (call # plan) (outside w) (fst (or_exit msg (ask B call) k w)) ws"
  proof (cases r)
    case (Inl err)
    with ans must show ?thesis
      by (intro exI [of _ "[call]"])
        (simp add: or_exit_def attempt_def bind_def ask_run ret_def outcome_def)
  next
    case (Inr u)
    with ans have "or_exit msg (ask B call) k w = k (w\<lparr>outside := b, calls := calls w @ [call]\<rparr>)"
      by (simp add: or_exit_def attempt_def bind_def ask_run)
    with follows_after [OF k ans _ refl] Inr show ?thesis by (simp add: accepted_def)
  qed
qed

lemma follows_ignored:
  assumes k: "follows B k plan" and "\<not> must_succeed call"
  shows "follows B (bind (ask B call) (\<lambda>_. k)) (call # plan)"
  unfolding follows_def [of B "bind (ask B call) (\<lambda>_. k)"]
proof
  fix w :: "('a, 'b boot_call) world"
  obtain r b where ans: "boot_answer B call (outside w) = (r, b)" by fastforce
  then have "bind (ask B call) (\<lambda>_. k) w = k (w\<lparr>outside := b, calls := calls w @ [call]\<rparr>)"
    by (simp add: bind_def ask_run)
  with follows_after [OF k ans _ refl] assms(2)
  show "\<exists>ws. calls (snd (bind (ask B call) (\<lambda>_. k) w)) = calls w @ ws \<and>
      outcome B (call # plan) (outside w) (fst (bind (ask B call) (\<lambda>_. k) w)) ws"
    by (simp add: accepted_def)
qed

text \<open>What the code ends the process for is what has to succeed.\<close>

lemma must_succeed_registration: "must_succeed (registration P part) \<longleftrightarrow> registrationError part \<noteq> None"
  by (cases part) (simp_all add: must_succeed_def registration_def registrationError_def start_defs)

lemma follows_startComponents:
  "follows B k plan \<Longrightarrow>
     follows B (startComponents B P parts k) (map (registration P) parts @ plan)"
  by (induction parts)
    (auto simp: must_succeed_registration split: option.split intro!: follows_or_exit follows_ignored)

lemma follows_startManager:
  "follows B (startManager B) [BHealthzCheck ''healthz'', BReadyzCheck ''readyz'', BStart]"
  unfolding startManager_def by (intro follows_or_exit follows_ret) (simp_all add: must_succeed_def)

definition bootPlan ::
  "'c platform \<Rightarrow> settings \<Rightarrow> (string, string) fmap \<Rightarrow> 'c boot_call list" where
  "bootPlan P s extra =
     BNewManager (managerOptions s) #
     map (registration P) (components (Env P) (Dtrack P) (json_marshal (Json P)) s extra) @
     [BHealthzCheck ''healthz'', BReadyzCheck ''readyz'', BStart]"

lemma follows_boot: "follows B (boot B P s extra) (bootPlan P s extra)"
  unfolding boot_def bootPlan_def
  by (intro follows_or_exit follows_startComponents follows_startManager) (simp add: must_succeed_def)

lemma registration_not_start: "registration P part \<noteq> BStart"
  by (cases part) (simp_all add: registration_def start_defs)

lemma start_is_last:
  assumes "prefix ws (bootPlan P s extra)"
  shows "BStart \<in> set ws \<longleftrightarrow> ws = bootPlan P s extra"
proof -
  obtain ini where ini: "bootPlan P s extra = ini @ [BStart]" "BStart \<notin> set ini"
    by (rule that [of "butlast (bootPlan P s extra)"])
      (auto simp: bootPlan_def butlast_append registration_not_start [symmetric])
  with assms show ?thesis by (auto simp: prefix_snoc dest: set_mono_prefix)
qed

text \<open>What is registered at all.\<close>

lemma in_bootPlan:
  assumes "call \<in> set (bootPlan P s extra)"
  shows "call = BConfigMapController R st \<Longrightarrow>
      R = configMapReconciler (Env P) (Dtrack P) (json_marshal (Json P)) s"
    and "call = BNamespaceController N st' \<Longrightarrow> InsightsJWTSecret N = InsightsTokenSecret s"
    and "call = BBuildController Bd st'' \<Longrightarrow> ExtraEnvVars Bd = extra"
    and "call = BServe addr router \<Longrightarrow>
      router = SetupRouter (Jwt P) (Json P) (InsightsTokenSecret s) (mqWriteObject (Env P)) (MqEnable s)"
    and "call = BConfigMapController R st \<Longrightarrow>
      st = setupConfigMapController (MaxConcurrentCMReconcilers s)"
  using assms by (auto simp: bootPlan_def components_def registration_def start_defs split: if_splits)

lemma boot_calls:
  assumes "call \<in> set (calls (snd (boot B P s extra (start_world b))))"
  shows "call \<in> set (bootPlan P s extra)"
proof -
  from follows_boot [of B P s extra] obtain ws where
    "calls (snd (boot B P s extra (start_world b))) = ws" "prefix ws (bootPlan P s extra)"
    unfolding follows_def outcome_def by (metis append_Nil prefix_order.refl start_world_simps(2))
  with assms show ?thesis by (auto dest: set_mono_prefix)
qed

text \<open>How a run of \<open>main\<close> that makes a call came to it.\<close>

lemma main_calls:
  assumes "call \<in> set (calls (snd (main B P V F args (start_world b))))"
  obtains flags extra0 extra where "flag_Parse F args flag_defaults = Inr (flags, extra0)"
    "typed_settings flags" "valid_names extra" "call \<in> set (bootPlan P (env_overrides V flags) extra)"
proof -
  from assms obtain flags extra extra' where flags: "flag_Parse F args flag_defaults = Inr (flags, extra)"
    and env: "parseKVs (envVarEntries (GetEnv V ''BUILD_SCANNER_EXTRA_ENV_VARS'' '''')) extra = Inr extra'"
    and call: "call \<in> set (calls (snd (boot B P (env_overrides V flags) extra' (start_world b))))"
    by (auto simp: main_def mainParsed_def ret_def split: sum.splits flag_error.splits if_splits)
  from flag_Parse_typed [OF flags typed_defaults] have "typed_settings flags" "valid_names extra"
    by (simp_all add: typed_parsed_def)
  with parseKVs_valid [OF env] boot_calls [OF call] that flags show thesis by blast
qed

text \<open>The numbers the environment overrides.\<close>

lemma env_overrides_retries:
  "CmReconcilerMaxRetries (env_overrides V s) =
     GetEnvInt V ''CONFIGMAP_RECONCILER_MAX_RETRIES'' (CmReconcilerMaxRetries s)"
  "CmReconcilerMinutesBetweenRetries (env_overrides V s) =
     GetEnvInt V ''CONFIGMAP_RECONCILER_MINS_BETWEEN_RETRIES'' (CmReconcilerMinutesBetweenRetries s)"
  by (simp_all add: env_overrides_def)

lemma env_overrides_workers:
  "fits 64 (MaxConcurrentCMReconcilers s) \<Longrightarrow> fits 64 (MaxConcurrentCMReconcilers (env_overrides V s))"
  using ParseInt_fits [of 64 "GetEnv V ''CONFIGMAP_RECONCILER_MAX_CONCURRENT'' ''''"]
  by (auto simp: env_overrides_def Atoi_def split: prod.split option.split)

end
