(* ===== verification/Startup_Properties.thy ===== *)
theory Startup_Properties
  imports Boot Service_Properties
begin

text \<open>
  The properties of the start of the program: what it registers with the manager and in which
  order, which settings have an effect, what it accepts as extra variables of the scan pod, and the
  token-only mode.
\<close>

section \<open>An example\<close>

definition ex_platform :: "cluster platform" where
  "ex_platform =
     \<lparr>Env = reference, Jwt = reference_jwt, Json = reference_json, Dtrack = reference_deptrack\<rparr>"

text \<open>Every call to the manager succeeds, and no variable is set.\<close>

definition ex_boot :: "(unit, cluster) boot_env" where
  "ex_boot = \<lparr>boot_answer = (\<lambda>call b. (Inr (), b))\<rparr>"

definition ex_vars :: env_lib where
  "ex_vars = \<lparr>GetEnv = (\<lambda>n d. d), GetEnvBool = (\<lambda>n d. d), GetEnvInt = (\<lambda>n d. d)\<rparr>"

lemma ex_startup_simps [simp]:
  "Env ex_platform = reference" "Jwt ex_platform = reference_jwt" "Json ex_platform = reference_json"
  "Dtrack ex_platform = reference_deptrack" "boot_answer ex_boot call b = (Inr (), b)"
  "GetEnv ex_vars n s = s" "GetEnvBool ex_vars n v = v" "GetEnvInt ex_vars n i = i"
  by (simp_all add: ex_platform_def ex_boot_def ex_vars_def)

section \<open>The order of the start\<close>

text \<open>
  C35: The start makes the calls of one plan in order: create the manager, register the enabled
  components in a fixed order, add the two checks, start. It returns normally exactly after the
  whole plan, and then every call was answered without an error, those aside whose errors the code
  only logs: the cron jobs and the web service. Otherwise it ends the process with status 1 right
  after the first call that had to succeed and was refused. The manager is started only at the end
  of the plan, so only with every enabled controller registered.
\<close>

theorem boot_follows_plan:
  "\<exists>ws. calls (snd (boot B P s extra w)) = calls w @ ws \<and>
     (fst (boot B P s extra w) = Returns Returned \<and> ws = bootPlan P s extra \<and>
        list_all2 accepted ws (boot_answers B ws (outside w)) \<or>
      (\<exists>msg cs call as err. fst (boot B P s extra w) = Returns (Exits 1 msg) \<and>
        prefix ws (bootPlan P s extra) \<and> ws = cs @ [call] \<and>
        boot_answers B ws (outside w) = as @ [Inl err] \<and> list_all2 accepted cs as \<and>
        must_succeed call)) \<and>
     (BStart \<in> set ws \<longleftrightarrow> ws = bootPlan P s extra)"
proof -
  from follows_boot [of B P s extra] obtain ws where
    ws: "calls (snd (boot B P s extra w)) = calls w @ ws"
    and out: "outcome B (bootPlan P s extra) (outside w) (fst (boot B P s extra w)) ws"
    unfolding follows_def by blast
  from out have "prefix ws (bootPlan P s extra)" unfolding outcome_def by blast
  then have "BStart \<in> set ws \<longleftrightarrow> ws = bootPlan P s extra"
    by (rule start_is_last)
  with ws out show ?thesis unfolding outcome_def by blast
qed

section \<open>The command line\<close>

text \<open>
  C36: The flag that enables the ConfigMap reconciler has no effect. Wherever it stands on the command
  line (not in the place of another flag's value), with one dash or two, alone or set to any text
  that is read as a boolean, the program runs as without it, because its value is overwritten before
  it is read, by a variable whose default is the flag of the namespace reconciler. Set to another
  text, it is the error of the \<open>flag\<close> package that it is for every boolean flag.
\<close>

theorem configmap_flag_has_no_effect:
  assumes "complete F pre"
    and "argument s = FlagArgument ''enable-configmap-reconciler'' given"
    and "given = None \<or> given = Some v \<and> ParseBool v = Some b"
  shows "main B P V F (pre @ s # post) = main B P V F (pre @ post)"
proof -
  from assms(2,3) have "switch_argument s" by (auto simp: switch_argument_def)
  from flag_Parse_switch [OF assms(1) this] show ?thesis
    by (intro main_same) (simp add: same_but_switch_def)
qed

text \<open>No other package declares a flag.\<close>

definition ex_others :: other_flags where
  "ex_others name = None"

text \<open>After a flag with its value in the next argument, with two dashes, set to false.\<close>

theorem configmap_flag_has_no_effect_witness:
  "main ex_boot ex_platform ex_vars ex_others
     [''-webservice-port'', ''80'', ''--enable-configmap-reconciler=F'', ''-leader-elect''] =
   main ex_boot ex_platform ex_vars ex_others [''-webservice-port'', ''80'', ''-leader-elect'']"
proof -
  have "complete ex_others [''-webservice-port'', ''80'']"
    by (simp add: endsFlags_def takesNext_def argument_def formal_flag_def program_flags_def)
  moreover have "argument ''--enable-configmap-reconciler=F'' =
      FlagArgument ''enable-configmap-reconciler'' (Some ''F'')"
    by (simp add: argument_def)
  moreover have "ParseBool ''F'' = Some False" by (simp add: ParseBool_def)
  ultimately show ?thesis
    using configmap_flag_has_no_effect [of ex_others "[''-webservice-port'', ''80'']" _ "Some ''F''" "''F''"
        False ex_boot ex_platform ex_vars "[''-leader-elect'']"] by simp
qed

section \<open>The broker\<close>

text \<open>
  The broker's configuration fits its use: every producer and every queue is bound to a
  declared exchange, and each producer that a write asks for is declared, synchronous, and bound to
  an exchange that a declared queue reads from.
\<close>

lemma broker_configuration_closed:
  "list_all (\<lambda>q. QueueExchange q \<in> ExchangeName ` set (MqExchanges (mqConfig s))) (MqQueues (mqConfig s)) \<and>
   list_all (\<lambda>p. ProducerExchange p \<in> ExchangeName ` set (MqExchanges (mqConfig s)))
     (MqProducers (mqConfig s)) \<and>
   (\<exists>es. calls (snd (mqWriteObject E data w)) = calls w @ es \<and>
     list_all (\<lambda>e. case e of
         MqSyncProducer n \<Rightarrow>
           (\<exists>p\<in>set (MqProducers (mqConfig s)). ProducerName p = n \<and> ProducerSync p \<and>
              (\<exists>q\<in>set (MqQueues (mqConfig s)). QueueExchange q = ProducerExchange p))
       | _ \<Rightarrow> True) es)"
proof -
  have "\<exists>es. calls (snd (mqWriteObject E data w)) = calls w @ es \<and>
      list_all (\<lambda>e. case e of
          MqSyncProducer n \<Rightarrow>
            (\<exists>p\<in>set (MqProducers (mqConfig s)). ProducerName p = n \<and> ProducerSync p \<and>
               (\<exists>q\<in>set (MqQueues (mqConfig s)). QueueExchange q = ProducerExchange p))
        | _ \<Rightarrow> True) es"
    using surjective_pairing [of "mqWriteObject E data w"]
  proof (cases rule: mqWriteObject_log)
    case (Closed err)
    then show ?thesis by (intro exI [of _ "[MqNew]"]) simp
  next
    case (NoProducer err)
    then show ?thesis
      by (intro exI [of _ "[MqNew, MqSyncProducer ''lagoon-insights'', MqClose]"])
        (simp add: mqConfig_def)
  next
    case (Written res)
    then show ?thesis
      by (intro exI [of _ "[MqNew, MqSyncProducer ''lagoon-insights'', MqProduce data, MqClose]"])
        (simp add: mqConfig_def)
  qed
  then show ?thesis by (simp add: mqConfig_def)
qed

section \<open>Extra variables\<close>

text \<open>
  C37: Whatever the command line and the environment, a component the program registers gets values
  of their types: an extra variable of the build controller has a name that starts with an ASCII
  letter or an underscore and goes on with letters, digits and underscores, and the numbers of the
  ConfigMap controller fit a signed 64-bit integer, whatever base, sign or underscores they are
  written with.
\<close>

theorem started_components_typed:
  assumes "\<And>name d. fits 64 d \<Longrightarrow> fits 64 (GetEnvInt V name d)"
    and "call \<in> set (calls (snd (main B P V F args (start_world b))))"
  shows "(\<forall>R st k v. call = BBuildController R st \<and> fmlookup (ExtraEnvVars R) k = Some v \<longrightarrow>
       (\<exists>c cs. k = c # cs \<and> alpha c \<and> list_all alnum cs)) \<and>
     (\<forall>R st. call = BConfigMapController R st \<longrightarrow>
       fits 64 (MinutesBetweenRetries R) \<and> fits 64 (MaxNumberOfRetries R) \<and>
       (\<exists>n. MaxConcurrentReconciles st = Some n \<and> fits 64 n))"
proof -
  from main_calls [OF assms(2)] obtain flags extra where typed: "typed_settings flags"
    and names: "valid_names extra" and call: "call \<in> set (bootPlan P (env_overrides V flags) extra)" .
  have extra: "\<exists>c cs. k = c # cs \<and> alpha c \<and> list_all alnum cs"
    if "call = BBuildController R st" "fmlookup (ExtraEnvVars R) k = Some v" for R st k v
    using in_bootPlan(3) [OF call that(1)] that(2) names by (simp add: valid_names_def envVarNameRe_matches)
  have ints: "fits 64 (CmReconcilerMaxRetries (env_overrides V flags))"
    "fits 64 (CmReconcilerMinutesBetweenRetries (env_overrides V flags))"
    "fits 64 (MaxConcurrentCMReconcilers (env_overrides V flags))"
    using typed assms(1) env_overrides_workers [of flags V]
    by (simp_all add: typed_settings_def env_overrides_retries)
  have "fits 64 (MinutesBetweenRetries R) \<and> fits 64 (MaxNumberOfRetries R) \<and>
      (\<exists>n. MaxConcurrentReconciles st = Some n \<and> fits 64 n)"
    if "call = BConfigMapController R st" for R st
    using in_bootPlan(1) [OF call that] in_bootPlan(5) [OF call that] ints
    by (simp add: configMapReconciler_def setupConfigMapController_def)
  with extra show ?thesis by blast
qed

definition ex_scanning :: settings where
  "ex_scanning = default_settings\<lparr>EnableBuildScanning := True\<rparr>"

definition ex_args :: "string list" where
  "ex_args = commandLine ex_scanning [(''TRIVY_TIMEOUT'', ''5m'')]"

lemma ex_pair: "plain_pair (''TRIVY_TIMEOUT'', ''5m'')"
  unfolding plain_pair_def envVarNameRe_matches by (simp add: alpha_def alnum_def graphic_def)

lemma ex_typed: "typed_settings ex_scanning"
  using typed_defaults by (simp add: typed_parsed_def flag_defaults_def typed_settings_def ex_scanning_def)

lemma ex_parsed:
  "flag_Parse F ex_args flag_defaults = Inr (ex_scanning, fmupd ''TRIVY_TIMEOUT'' ''5m'' fmempty)"
proof -
  have "fmempty ++\<^sub>f fmap_of_list [(''TRIVY_TIMEOUT'', ''5m'')] = fmupd ''TRIVY_TIMEOUT'' ''5m'' fmempty"
    by (rule fmap_ext) (simp add: fmlookup_of_list)
  with flag_Parse_commandLine [OF ex_typed, of "[(''TRIVY_TIMEOUT'', ''5m'')]" F flag_defaults] ex_pair
  show ?thesis by (simp add: ex_args_def flag_defaults_def)
qed

lemma ex_ask: "ask ex_boot call w = (Returns (Inr ()), w\<lparr>calls := calls w @ [call]\<rparr>)"
  by (simp add: ask_run)

lemma ex_startComponents:
  "startComponents ex_boot P parts k w = k (w\<lparr>calls := calls w @ map (registration P) parts\<rparr>)"
  by (induction parts arbitrary: w)
    (simp_all add: or_exit_def attempt_def bind_def ex_ask split: option.split)

lemma ex_boot_run:
  "boot ex_boot P s extra w = (Returns Returned, w\<lparr>calls := calls w @ bootPlan P s extra\<rparr>)"
  by (simp add: boot_def bootPlan_def or_exit_def attempt_def bind_def ex_ask ex_startComponents
      startManager_def ret_def)

lemma ex_overrides: "env_overrides ex_vars s = s\<lparr>EnableCMReconciler := EnableNSReconciler s\<rparr>"
  by (simp add: env_overrides_def Atoi_def ParseInt_def split: prod.split option.split)

lemma ex_main_calls:
  "calls (snd (main ex_boot ex_platform ex_vars ex_others ex_args (start_world ()))) =
     bootPlan ex_platform (env_overrides ex_vars ex_scanning) (fmupd ''TRIVY_TIMEOUT'' ''5m'' fmempty)"
  by (simp add: main_def mainParsed_def ex_parsed ex_boot_run envVarEntries_def)
    (simp add: ex_scanning_def default_settings_def)

definition ex_builder :: BuildReconciler where
  "ex_builder =
     \<lparr>BuildJWTSecret = ''testsecret'', ScanImageName = ''uselagoon/insights-scanner:latest'',
      ExtraEnvVars = fmupd ''TRIVY_TIMEOUT'' ''5m'' fmempty\<rparr>"

lemma ex_main_builds:
  "BBuildController ex_builder setupBuildController \<in> set (calls (snd
     (main ex_boot ex_platform ex_vars ex_others ex_args (start_world ()))))"
  unfolding ex_main_calls
  by (simp add: bootPlan_def components_def registration_def start_defs ex_overrides ex_scanning_def
      default_settings_def ex_builder_def)

theorem started_components_typed_witness:
  "\<exists>c cs. ''TRIVY_TIMEOUT'' = c # cs \<and> alpha c \<and> list_all alnum cs"
proof -
  have "fmlookup (ExtraEnvVars ex_builder) ''TRIVY_TIMEOUT'' = Some ''5m''" by (simp add: ex_builder_def)
  with started_components_typed [OF _ ex_main_builds] show ?thesis
    by (metis ex_startup_simps(8))
qed

text \<open>
  C38: Every configuration can be written on the command line: the flags written one by one as
  \<open>-name=value\<close>, in the order of their declaration, are parsed back to the settings they were
  written from, whatever bytes the texts hold and for all 64-bit numbers; the extra variables come
  back from the repeated flag and from the list in the environment, where a later one wins over an
  earlier one and the environment over the flags. So the program does what it does with these
  settings.
\<close>

theorem command_line_round_trip:
  assumes "typed_settings s" and "\<not> GenerateTokenOnly s"
    and "list_all (\<lambda>(k, v). matches envVarNameRe k \<and> list_all graphic v \<and> CHR '','' \<notin> set v) (kvs @ kvs')"
    and "GetEnv V ''BUILD_SCANNER_EXTRA_ENV_VARS'' '''' = Join (map (\<lambda>(k, v). k @ ''='' @ v) kvs') '',''"
  shows "main B P V F (commandLine s kvs) =
    boot B P (env_overrides V s) (fmap_of_list (rev (kvs @ kvs')))"
proof -
  have kv: "(\<lambda>(k, v). k @ ''='' @ v) = kv_entry"
    by (simp add: kv_entry_def fun_eq_iff)
  have "(\<lambda>(k, v). matches envVarNameRe k \<and> list_all graphic v \<and> CHR '','' \<notin> set v) = plain_pair"
    by (simp add: plain_pair_def fun_eq_iff del: matches.simps)
  with assms(3) have plain: "list_all plain_pair kvs" "list_all plain_pair kvs'" by simp_all
  from flag_Parse_commandLine [OF assms(1) plain(1), of F flag_defaults]
  have parsed: "flag_Parse F (commandLine s kvs) flag_defaults = Inr (s, fmap_of_list (rev kvs))"
    by (simp add: flag_defaults_def)
  have merged: "parseKVs (envVarEntries (GetEnv V ''BUILD_SCANNER_EXTRA_ENV_VARS'' ''''))
      (fmap_of_list (rev kvs)) = Inr (fmap_of_list (rev kvs) ++\<^sub>f fmap_of_list (rev kvs'))"
    unfolding assms(4) kv envVarEntries_entries [OF plain(2)] by (rule parseKVs_entries [OF plain(2)])
  have "fmap_of_list (rev kvs) ++\<^sub>f fmap_of_list (rev kvs') = fmap_of_list (rev (kvs @ kvs'))"
    by simp
  then show ?thesis
    unfolding main_def mainParsed_def parsed sum.case prod.case merged by (simp only: assms(2) if_False)
qed

theorem command_line_round_trip_witness:
  "main ex_boot ex_platform ex_vars ex_others ex_args =
     boot ex_boot ex_platform (env_overrides ex_vars ex_scanning) (fmap_of_list [(''TRIVY_TIMEOUT'', ''5m'')])"
proof -
  have "\<not> GenerateTokenOnly ex_scanning" by (simp add: ex_scanning_def default_settings_def)
  moreover from ex_pair have "list_all (\<lambda>(k, v). matches envVarNameRe k \<and> list_all graphic v \<and>
      CHR '','' \<notin> set v) ([(''TRIVY_TIMEOUT'', ''5m'')] @ [])"
    by (simp add: plain_pair_def del: matches.simps)
  ultimately show ?thesis
    using command_line_round_trip [OF ex_typed, of "[(''TRIVY_TIMEOUT'', ''5m'')]" "[]" ex_vars]
    by (simp add: ex_args_def)
qed

section \<open>Token-only mode\<close>

text \<open>
  C39: With \<open>-generate-token-only\<close> and all four details, the program prints one token that validates
  under the secret of the flag to exactly these details, and starts nothing. The environment is not
  read: where the service takes its secret from \<open>INSIGHTS_TOKEN_SECRET\<close>, the token is not signed
  with it.
\<close>

theorem token_only_prints_valid_token:
  assumes "jwt_round_trip (Jwt P)" and "flag_Parse F args flag_defaults = Inr (flags, extra)"
    and "GenerateTokenOnly flags"
    and "d = \<lparr>TokenNamespace = TokenOnlyNamespace flags, TokenEnvironmentId = TokenOnlyEnvironmentId flags,
      TokenProjectName = TokenOnlyProjectName flags, TokenEnvironmentName = TokenOnlyEnvironmentName flags\<rparr>"
    and "'''' \<notin> {TokenOnlyNamespace flags, TokenOnlyEnvironmentId flags, TokenOnlyProjectName flags,
      TokenOnlyEnvironmentName flags}"
    and "plain_details d" and "snd (GenerateTokenForNamespace (Jwt P) (InsightsTokenSecret flags) d) = None"
  shows "\<exists>tok. main B P V F args w = (Returns (PrintsToken tok), w) \<and>
    ValidateAndExtractNamespaceDetailsFromToken (Jwt P) (InsightsTokenSecret flags) tok = Returns (d, None)"
proof -
  obtain tok where tok: "GenerateTokenForNamespace (Jwt P) (InsightsTokenSecret flags) d = (tok, None)"
    using assms(7) by (cases "GenerateTokenForNamespace (Jwt P) (InsightsTokenSecret flags) d") simp
  with assms(5) have "tokenOnly (Jwt P) flags = PrintsToken tok"
    by (auto simp: tokenOnly_def assms(4) [symmetric])
  with assms(2,3) have "main B P V F args w = (Returns (PrintsToken tok), w)"
    by (simp add: main_def mainParsed_def ret_def)
  with validate_issued [OF assms(1,6) tok] show ?thesis by blast
qed

definition ex_token_only :: settings where
  "ex_token_only = default_settings
     \<lparr>GenerateTokenOnly := True, TokenOnlyNamespace := ''shop-main'', TokenOnlyEnvironmentId := ''42'',
      TokenOnlyProjectName := ''shop'', TokenOnlyEnvironmentName := ''main''\<rparr>"

lemma ex_token_parsed: "flag_Parse F (commandLine ex_token_only []) flag_defaults = Inr (ex_token_only, fmempty)"
proof -
  have "typed_settings ex_token_only"
    using typed_defaults
    by (simp add: typed_parsed_def flag_defaults_def typed_settings_def ex_token_only_def)
  from flag_Parse_commandLine [OF this, of "[]" F flag_defaults] show ?thesis
    by (simp add: flag_defaults_def)
qed

theorem token_only_prints_valid_token_witness:
  "\<exists>tok. main ex_boot ex_platform ex_vars ex_others (commandLine ex_token_only []) (start_world ()) =
      (Returns (PrintsToken tok), start_world ()) \<and>
    ValidateAndExtractNamespaceDetailsFromToken reference_jwt ''testsecret'' tok = Returns (ex_details, None)"
  using token_only_prints_valid_token [of ex_platform, OF _ ex_token_parsed [of ex_others], of ex_details
      ex_boot ex_vars "start_world ()"] reference_round_trip ex_plain ex_signed [of "''testsecret''" ex_details]
  by (simp add: ex_token_only_def default_settings_def ex_details_def)

end
