(* ===== verification/Spec2Isabelle.thy ===== *)
theory Spec2Isabelle
  imports
    Insights_Properties Deptrack_Properties Token_Properties Service_Properties Build_Properties
    Startup_Properties
begin

text \<open>
  A model of \<open>insights-remote\<close>, the Lagoon service that runs beside the workloads of a Kubernetes
  cluster, takes the insights (SBOMs, image inspections, facts, problems) of the environments and
  ships them to Lagoon core and to Dependency Track. The definitions are translated from the Go
  code; a function with effects becomes a computation over the world outside (theory \<open>Prelude\<close>):
  it takes the state outside together with the log of the calls made so far, and returns or
  panics. Every call to Kubernetes, the message broker and Dependency Track is in the log, so what
  a run did, and in which order, can be stated whatever the outside answers.

  The parts, and where they are modelled:

  \<^item> \<open>Prelude\<close>, \<open>Go_Stdlib\<close>, \<open>Regexp\<close>: Go's errors, maps (nil included) and panics, the
    parts of \<open>strconv\<close>, \<open>strings\<close>, \<open>time\<close>, \<open>encoding/base64\<close> and \<open>regexp\<close> that the code
    uses, with the laws of parsing and printing; integers are \<open>int\<close> with the wrap-around at 64
    bits written out. \<open>Environment\<close> is the interface to the outside: its objects, its
    operations with their log entries, and \<open>cm_store\<close>, what the API documents of ConfigMaps.
  \<^item> \<open>Defs\<close>: the messages and constants of \<open>internal/defs.go\<close> and \<open>internal/service/defs.go\<close>.
  \<^item> \<open>Cmlib\<close> (\<open>cmlib/cmlib.go\<close>): one update of the labels and annotations of a ConfigMap.
  \<^item> \<open>Post_Process\<close>: the interface \<open>PostProcessor\<close>, the processor for Lagoon core
    (\<open>internal/postprocess/insights_core\<close>), and \<open>mqWriteObject\<close> of \<open>cmd/main.go\<close>. The locale
    \<open>confined_processor\<close> is what the controller relies on.
  \<^item> \<open>Dependency_Track\<close> (\<open>internal/postprocess/dependency_track\<close>): project names from
    templates, finding or creating the projects, the upload and its polling; the two processors.
    \<open>Polling\<close> has the polling goroutine and its caller as two threads, a step relation over the
    ticker, the timeout and the two channels. \<open>Project_Tree\<close> states what the API documents of
    projects and follows the chain of parents through a run.
  \<^item> \<open>Events\<close>, \<open>ConfigMap_Controller\<close> (\<open>configmap_controller.go\<close>): event filters, and the
    reconciliation that runs the processors and records their outcome; \<open>Processing\<close> is its
    specification without accumulators, and the locale \<open>processor_set\<close> its client lemmas.
  \<^item> \<open>Tokens\<close> (\<open>internal/tokens/jwt.go\<close>), \<open>Namespace_Controller\<close>
    (\<open>namespace_controller.go\<close>): the tokens of the namespaces; \<open>Namespace_Lifecycle\<close>: a
    namespace under repeated reconciliation.
  \<^item> \<open>Service\<close> (\<open>internal/service/service.go\<close>): the web service; the locale
    \<open>authenticated_handler\<close> is the contract of its handlers.
  \<^item> \<open>Build_Controller\<close> (\<open>build_controller.go\<close>): the scan pod of a finished build.
  \<^item> \<open>Crons\<close>, \<open>Startup\<close>, \<open>Flags\<close>, \<open>Boot\<close> (\<open>cmd/main.go\<close>): the two periodic jobs with the locale
    \<open>sweep\<close>; settings and their overrides, and the program's processors (interpretation
    \<open>program\<close> of \<open>processor_set\<close>); the flags and the parsing of the command line as the
    \<open>flag\<close> package does it, with the locale \<open>flag_value\<close> for the kinds of values; the start.
  \<^item> \<open>Lifecycle\<close>: the ConfigMaps of a cluster under the controller and the jobs, as a step
    relation whose steps interleave freely, with its invariants. A reconciliation is one step: its
    update is refused by the API when the object has changed in between.
  \<^item> \<open>Reference_Cluster\<close>: concrete parameters, on which every hypothesis is shown to hold.

  What is proved. \<open>Insights_Properties\<close>: a reconciliation writes at most one record, which is the
  specified one and does not start another reconciliation; in every reachable state of the cluster
  a processed ConfigMap is one on which all processors succeeded, successes are never taken back,
  nothing unprocessed is deleted, and retries end; the two jobs touch what they should.
  \<open>Deptrack_Properties\<close>: what leaves for Lagoon core and Dependency Track, below which projects, and
  what the polling threads can do and how often.
  \<open>Token_Properties\<close>: what the namespace controller deletes and creates, from the secrets it lists
  and without reference to its loop; that its tokens validate, that two reconciliations settle a
  namespace. \<open>Service_Properties\<close>: who may use the web service and that
  messages belong to the token's environment. \<open>Build_Properties\<close>: exactly what a build writes, given
  the answers, and the environment of the scan pod. \<open>Startup_Properties\<close>: the order of the start and
  what has to be registered before it, what the command line means and which flag has no effect, and
  the token-only mode. Below: a token of the namespace controller opens the web service of the same
  program. Some of these theorems state behaviour the code does not mean to have: a token that is no
  token panics, one bad secret takes the good ones after it, a token of another namespace is kept, a
  flag has no effect, a missing parent template panics, stamps end in 2038.

  Bounds. Every loop of the code is structural recursion over a list, or recursion that shortens one
  (\<open>flag_Parse\<close>, \<open>strip\<close>: the termination proofs are given), but for the polling loop. That is a
  step relation (\<open>poll_step\<close>), as Go's \<open>select\<close> may pick either channel when both are ready and time
  passes as it likes: polls are bounded by the seconds that have passed, the timeout needs 300 of
  them, and a run that has not ended can always end then. A whole run for Dependency Track uses the
  function \<open>awaitProcessing\<close> of the number of ticks taken, which the environment chooses; it is
  proved to have exactly the outcomes and effects of the threads. No fuel is used, and no theorem is
  about partial correctness of a run that may not end.

  Parameters, and what is assumed of them: the JWT library (\<open>jwt_round_trip\<close>: what was signed with
  HS256 under a key parses under it; \<open>jwt_checks\<close>: a valid token had a key and no error); the JSON
  library, the template engine, gzip and the iteration order of a map (nothing); Kubernetes
  (\<open>cm_store\<close> and \<open>secret_store\<close> where a theorem is about stored objects, nothing elsewhere); the
  broker, the Dependency Track server (\<open>project_store\<close> in one theorem), the clock, the library that
  reads environment variables (in one theorem, that its integers are 64-bit integers), the flags that
  other packages declare, the manager.

  Not modelled: the usage text the flag package prints, logging and metrics, leader election, the
  watch machinery of controller-runtime beyond filters and the queue, the HTTP server under gin's
  routes, TLS; test code, manifests and build files hold no program logic.
\<close>

section \<open>From the namespace to the broker\<close>

text \<open>The secret a reconciliation of a namespace creates holds a new token for it.\<close>

lemma created_secret:
  assumes "KCreateSecret v \<in> set (calls (snd (reconcileNamespace E L N req (start_world c))))"
    and "fst (get_namespace E req c) = Inr ns" and "tokenDetails ns = Inr d"
  shows "v = freshSecret L (InsightsJWTSecret N) (Name ns) d"
proof -
  let ?run = "reconcileNamespace E L N req (start_world c)"
  obtain c1 where get: "get_namespace E req c = (Inr ns, c1)"
    using assms(2) by (cases "get_namespace E req c") simp
  from reconcileNamespace_writes [OF surjective_pairing, of E L N req "start_world c"] get
  obtain ws where ws: "filter kube_write (calls (snd ?run)) = ws" and
    "ws = [] \<or> (\<exists>items. namespaceWrites L (InsightsJWTSecret N) ns items (fst ?run) ws)"
    by (auto split: if_splits sum.splits prod.splits)
  moreover from assms(1) have created: "KCreateSecret v \<in> set ws" unfolding ws [symmetric] by simp
  ultimately obtain items where "namespaceWrites L (InsightsJWTSecret N) ns items (fst ?run) ws" by auto
  moreover have "\<not> prefix ws (map deletion ds)" for ds
    using created set_mono_prefix [of ws "map deletion ds"] by auto
  ultimately show ?thesis
    using created assms(3)
    by (auto simp: namespaceWrites_def Let_def split: exec.splits sum.splits)
qed

text \<open>
  C40: The parts of a running program fit together: a token that the namespace controller of a
  program writes into the secret of a namespace is accepted by every route of the web service of
  the same program, whatever the flags and the environment; no handler refuses it, and every message
  that leaves under it speaks for that namespace's environment and project.
\<close>

theorem namespace_token_opens_service:
  assumes "jwt_round_trip (Jwt P)"
    and "BNamespaceController N st \<in> set (calls (snd (main B P V F args (start_world b))))"
    and "BServe addr router \<in> set (calls (snd (main B P V F args (start_world b))))"
    and "fst (get_namespace (Env P) req c) = Inr ns" and "tokenDetails ns = Inr d" and "plain_details d"
    and "snd (GenerateTokenForNamespace (Jwt P) (InsightsJWTSecret N) d) = None"
    and "KCreateSecret v \<in> set (calls (snd (reconcileNamespace (Env P) (Jwt P) N req (start_world c))))"
    and "mlookup (SecretData v) ''INSIGHTS_TOKEN'' = Some (AuthorizationHeader hreq)"
    and "(method, path, h) \<in> set router" and "h hreq w = (res, w')"
  shows "\<exists>resp es. res = Returns (headerResponses hreq @ [resp]) \<and> fst resp \<noteq> 401 \<and>
    calls w' = calls w @ es \<and> list_all mq_effect es \<and>
    (produced es = [] \<or>
     (\<exists>doc x. document_of_token d doc \<and> json_marshal (Json P) doc = Inr x \<and> produced es = [x]))"
proof -
  from main_calls [OF assms(2)] obtain flags extra0 extra where
    flags: "flag_Parse F args flag_defaults = Inr (flags, extra0)" and
    registered: "BNamespaceController N st \<in> set (bootPlan P (env_overrides V flags) extra)" .
  from main_calls [OF assms(3)] flags obtain extra' where
    served: "BServe addr router \<in> set (bootPlan P (env_overrides V flags) extra')" by auto
  let ?s = "env_overrides V flags"
  let ?r = "\<lparr>secret = InsightsTokenSecret ?s, MessageQWriter = mqWriteObject (Env P),
    WriteToQueue = MqEnable ?s\<rparr>"
  from in_bootPlan(2) [OF registered refl] have N: "InsightsJWTSecret N = InsightsTokenSecret ?s" .
  from in_bootPlan(4) [OF served refl] have
    "router = SetupRouter (Jwt P) (Json P) (InsightsTokenSecret ?s) (mqWriteObject (Env P)) (MqEnable ?s)" .
  with assms(10) obtain e where h: "h = handle (Jwt P) (Json P) ?r e"
    by (auto simp: SetupRouter_def)
  from created_secret [OF assms(8,4,5)] fresh_holds_token [OF assms(1,6,7), of "Name ns"] assms(9) N
  have "ValidateAndExtractNamespaceDetailsFromToken (Jwt P) (secret ?r) (AuthorizationHeader hreq) =
      Returns (d, None)"
    by (simp add: holds_token_def)
  from handle_accepted [OF this _ assms(11) [unfolded h]] show ?thesis by simp
qed

definition ex_flags :: settings where
  "ex_flags = default_settings\<lparr>InsightsTokenSecret := ''k''\<rparr>"

definition ex_flags_args :: "string list" where
  "ex_flags_args = commandLine ex_flags []"

lemma ex_flags_calls:
  "calls (snd (main ex_boot ex_platform ex_vars ex_others ex_flags_args (start_world ()))) =
     bootPlan ex_platform (env_overrides ex_vars ex_flags) fmempty"
proof -
  have "typed_settings ex_flags"
    using typed_defaults by (simp add: typed_parsed_def flag_defaults_def typed_settings_def ex_flags_def)
  from flag_Parse_commandLine [OF this, of "[]" ex_others flag_defaults]
  have "flag_Parse ex_others ex_flags_args flag_defaults = Inr (ex_flags, fmempty)"
    by (simp add: ex_flags_args_def flag_defaults_def)
  then show ?thesis
    by (simp add: main_def mainParsed_def ex_boot_run envVarEntries_def)
      (simp add: ex_flags_def default_settings_def)
qed

lemma ex_registered:
  "\<exists>st. BNamespaceController \<lparr>InsightsJWTSecret = ''k''\<rparr> st \<in>
     set (calls (snd (main ex_boot ex_platform ex_vars ex_others ex_flags_args (start_world ()))))"
  "\<exists>addr. BServe addr (SetupRouter reference_jwt reference_json ''k'' (mqWriteObject reference) True) \<in>
     set (calls (snd (main ex_boot ex_platform ex_vars ex_others ex_flags_args (start_world ()))))"
  unfolding ex_flags_calls
  by (auto simp: bootPlan_def components_def registration_def start_defs ex_overrides ex_flags_def
      default_settings_def)

lemma ex_facts_route:
  "(POST, ''/facts'', handle reference_jwt reference_json ex_router WriteFacts) \<in>
     set (SetupRouter reference_jwt reference_json ''k'' (mqWriteObject reference) True)"
  by (simp add: SetupRouter_def routes_def ex_router_def Let_def)

text \<open>A program that runs both: its namespace's token, a posted fact, the message that leaves.\<close>

theorem namespace_token_opens_service_witness:
  "\<exists>doc. document_of_token ex_details doc \<and>
     json_marshal reference_json doc = Inr ''facts of shop main''"
proof -
  obtain st where st: "BNamespaceController \<lparr>InsightsJWTSecret = ''k''\<rparr> st \<in>
      set (calls (snd (main ex_boot ex_platform ex_vars ex_others ex_flags_args (start_world ()))))"
    using ex_registered(1) by blast
  obtain addr where addr: "BServe addr
      (SetupRouter reference_jwt reference_json ''k'' (mqWriteObject reference) True) \<in>
      set (calls (snd (main ex_boot ex_platform ex_vars ex_others ex_flags_args (start_world ()))))"
    using ex_registered(2) by blast
  have created: "KCreateSecret (ex_secret ex_details) \<in>
      set (calls (snd (ex_reconcile_namespace (start_world (ex_secrets_cluster [])))))"
    using ex_second_run [of "[]"] by (auto simp: start_world_def)
  have tok: "mlookup (SecretData (ex_secret ex_details)) ''INSIGHTS_TOKEN'' =
      Some (AuthorizationHeader (ex_request ex_details ''[php]''))"
    by (simp add: ex_secret_def freshSecret_def tokenSecret_def ex_request_def)
  have get: "fst (get_namespace reference ''shop-main'' (ex_secrets_cluster [])) = Inr ex_namespace"
    using ex_get_namespace [of "[]"] by simp
  from namespace_token_opens_service [of ex_platform, OF _ st addr _ ex_tokenDetails ex_plain _ _ _
      ex_facts_route ex_handle_facts [of "start_world (ex_cluster [])"]] reference_round_trip ex_signed
    created tok get
  show ?thesis by auto
qed

end
